(* ===== verification/Gateway_Prelude.thy ===== *)
theory Gateway_Prelude
  imports Main "HOL-Library.Sublist" "HOL-Library.AList" "HOL-Library.Multiset"
begin

text \<open>
  The facts every component theory shares: the collections of simplification rules, and
  generic lemmas on lists, association lists and options. An association list with distinct
  keys stands for a Go map whose length the code reads; \<open>AList.update\<close> and
  \<open>AList.delete\<close> are its assignment and its \<open>delete\<close>.
\<close>

named_theorems gostring_simps \<open>evaluation of the Go string functions\<close>
named_theorems store_simps \<open>the effect of the store operations on the store fields\<close>
named_theorems handler_simps \<open>unfolding of the HTTP handlers into their branches\<close>

subsection \<open>Lists as tables\<close>

lemma length_filter_remove_one:
  assumes "distinct (map f xs)" and "x \<in> set xs" and "P x"
  shows "length (filter P xs) = Suc (length (filter (\<lambda>y. P y \<and> f y \<noteq> f x) xs))"
  using assms
proof (induction xs)
  case Nil
  then show ?case by simp
next
  case (Cons a xs)
  show ?case
  proof (cases "a = x")
    case True
    with Cons.prems have "\<forall>y \<in> set xs. f y \<noteq> f x"
      by (metis distinct.simps(2) image_eqI list.set_map list.simps(9))
    then have "filter (\<lambda>y. P y \<and> f y \<noteq> f x) xs = filter P xs"
      by (auto intro: filter_cong)
    with True Cons.prems show ?thesis by simp
  next
    case False
    with Cons.prems have "f a \<noteq> f x"
      by (metis distinct.simps(2) image_eqI list.set_map list.simps(9) set_ConsD)
    with False Cons show ?thesis by simp
  qed
qed

lemma distinct_map_filter_snoc:
  "distinct (map f xs) \<Longrightarrow> distinct (map f (filter (\<lambda>x. f x \<noteq> f y) xs @ [y]))"
  by (auto simp: distinct_map_filter)

text \<open>
  A table of rows \<open>rs\<close> with key \<open>f\<close> and payload \<open>g\<close>, read as a map: what
  \<open>INSERT OR REPLACE\<close> and \<open>DELETE\<close> do to that map.
\<close>

definition table_map :: "('r \<Rightarrow> 'k) \<Rightarrow> ('r \<Rightarrow> 'v) \<Rightarrow> 'r list \<Rightarrow> ('k \<rightharpoonup> 'v)" where
  "table_map f g rs = map_of (map (\<lambda>r. (f r, g r)) rs)"

lemma table_map_Nil [simp]: "table_map f g [] = Map.empty"
  by (simp add: table_map_def)

lemma table_map_append: "table_map f g (rs @ ts) = table_map f g ts ++ table_map f g rs"
  by (simp add: table_map_def)

lemma dom_table_map: "dom (table_map f g rs) = f ` set rs"
  by (auto simp: table_map_def dom_map_of_conv_image_fst image_image)

lemma table_map_None_iff: "table_map f g rs k = None \<longleftrightarrow> k \<notin> f ` set rs"
  using dom_table_map [of f g rs] by blast

lemma table_map_delete_key:
  "table_map f g (filter (\<lambda>r. f r \<noteq> k) rs) = (table_map f g rs)(k := None)"
  by (induction rs) (auto simp: table_map_def)

lemma table_map_upsert:
  "table_map f g (filter (\<lambda>r. f r \<noteq> f t) rs @ [t]) = (table_map f g rs)(f t \<mapsto> g t)"
  by (auto simp: table_map_append table_map_delete_key fun_eq_iff map_add_def
      split: option.splits) (simp_all add: table_map_def)

lemma table_map_Some_iff:
  assumes "distinct (map f rs)"
  shows "table_map f g rs k = Some v \<longleftrightarrow> (\<exists>r \<in> set rs. f r = k \<and> g r = v)"
  using assms by (auto simp: table_map_def map_of_eq_Some_iff o_def)

lemma table_map_delete_row:
  assumes "distinct (map f rs)"
  shows "table_map f g (filter (\<lambda>r. r \<noteq> t) rs) =
    (if t \<in> set rs then (table_map f g rs)(f t := None) else table_map f g rs)"
proof (cases "t \<in> set rs")
  case True
  have "filter (\<lambda>r. r \<noteq> t) rs = filter (\<lambda>r. f r \<noteq> f t) rs"
    using assms True by (intro filter_cong) (auto simp: distinct_map inj_on_def)
  with True show ?thesis by (simp add: table_map_delete_key)
next
  case False
  then have "filter (\<lambda>r. r \<noteq> t) rs = rs" by (auto intro: filter_True)
  with False show ?thesis by simp
qed

lemma length_filter_keys:
  assumes "distinct (map f rs)"
  shows "length (filter (\<lambda>r. P (f r)) rs) = card {k \<in> f ` set rs. P k}"
proof -
  have "length (filter (\<lambda>r. P (f r)) rs) = length (filter P (map f rs))"
    by (simp add: filter_map o_def)
  also have "\<dots> = card (set (filter P (map f rs)))"
    using assms by (simp only: distinct_card distinct_filter)
  also have "set (filter P (map f rs)) = {k \<in> f ` set rs. P k}" by auto
  finally show ?thesis .
qed

lemma map_fst_update_notin:
  "k \<notin> fst ` set xs \<Longrightarrow> AList.update k v xs = xs @ [(k, v)]"
  by (induction xs) auto

lemma length_update_le: "length (AList.update k v xs) \<le> Suc (length xs)"
  by (induction xs) auto

lemma length_update_in:
  "k \<in> fst ` set xs \<Longrightarrow> length (AList.update k v xs) = length xs"
  by (induction xs) auto

lemma set_update_subset: "set (AList.update k v xs) \<subseteq> insert (k, v) (set xs)"
  by (induction xs) auto

lemma map_of_filter_key:
  "map_of (filter (\<lambda>kv. P (fst kv)) xs) k = (if P k then map_of xs k else None)"
  by (induction xs) auto

lemma length_filter_filter_le:
  "length (filter P (filter Q xs)) \<le> length (filter P xs)"
proof -
  have "filter P (filter Q xs) = filter Q (filter P xs)"
    by (simp add: conj_commute)
  then show ?thesis by (simp only: length_filter_le)
qed

lemma length_filter_add_compl:
  "length (filter P xs) + length (filter (\<lambda>x. \<not> P x) xs) = length xs"
  by (induction xs) auto

end
