(* ===== verification/Store.thy ===== *)
theory Store
  imports Gateway_Prelude
begin

text \<open>
  \<open>internal/store/store.go\<close>: the SQLite tables and the in-memory indexes the gateway keeps
  beside them. The tables are lists of rows, in the order of insertion (no statement of the
  program has an \<open>ORDER BY\<close>); each SQL statement of the source is its documented effect on
  them. The columns \<open>created_at\<close>, \<open>updated_at\<close> and \<open>backfilled_at\<close> are written
  and never read, and are left out.

  The driver may fail at any call. The \<open>n\<close>-th call on a database fails when
  \<open>db_faults n\<close> holds, and \<open>db_calls\<close> counts the calls made, so every error return of the
  source is a branch here and the database is healthy when no call fails. A failed statement
  and a rolled back transaction leave the tables as they were. \<open>db_clock n\<close> is the text
  \<open>datetime('now')\<close> has at the \<open>n\<close>-th call, and \<open>rand_source n\<close> is what
  \<open>crypto/rand\<close> can deliver to the \<open>n\<close>-th read (\<open>None\<close> when it fails).
\<close>

subsection \<open>Data\<close>

record push_token =
  pt_actor :: string
  pt_platform :: string
  pt_token :: string
  pt_app :: string

record block =
  b_blocker :: string
  b_blocked :: string
  b_rkey :: string

record verification =
  v_verifier :: string
  v_subject :: string
  v_rkey :: string

record webpush_endpoint =
  we_platform :: string
  we_device :: string
  we_app :: string
  we_vapid :: string
  we_instance :: string

record endpoint_row =
  er_hash :: string
  er_endpoint :: webpush_endpoint
  er_last_push :: "string option"

datatype store_error =
    DbError
  | TooManyTokens string nat
  | ConstraintFailed
  | RandFailed
  | EndpointNotFound

record db =
  push_tokens :: "push_token list"
  block_rows :: "block list"
  verif_rows :: "verification list"
  backfilled_rows :: "string list"
  endpoint_rows :: "endpoint_row list"
  db_faults :: "nat \<Rightarrow> bool"
  db_calls :: nat
  db_clock :: "nat \<Rightarrow> string"
  rand_source :: "nat \<Rightarrow> string option"
  rand_calls :: nat

record store = db +
  registered_dids :: "string set"
  blocks :: "string \<rightharpoonup> string set"
  blocks_by_rkey :: "string \<rightharpoonup> (string \<rightharpoonup> string)"
  verifs_by_rkey :: "string \<rightharpoonup> (string \<rightharpoonup> string)"

definition healthy :: "'a db_scheme \<Rightarrow> bool" where
  "healthy s \<longleftrightarrow> (\<forall>n. \<not> db_faults s n)"

definition db_call :: "'a db_scheme \<Rightarrow> bool \<times> 'a db_scheme" where
  "db_call s = (db_faults s (db_calls s), s\<lparr>db_calls := Suc (db_calls s)\<rparr>)"

text \<open>
  \<open>for rows.Next() { rows.Scan(...) }\<close>: \<open>Next\<close> ends the loop at the last row and at a
  driver error alike, and the source never asks \<open>rows.Err()\<close> which it was.
\<close>

fun fetch_rows :: "'r list \<Rightarrow> 'a db_scheme \<Rightarrow> 'r list \<times> 'a db_scheme" where
  "fetch_rows [] s = ([], s)"
| "fetch_rows (r # rs) s =
     (let (bad, s1) = db_call s in
      if bad then ([], s1)
      else let (xs, s2) = fetch_rows rs s1 in (r # xs, s2))"

subsection \<open>Opening: New and loadIntoMemory\<close>

definition load_block :: "block \<Rightarrow> store \<Rightarrow> store" where
  "load_block r s =
     (let m = (case blocks s (b_blocker r) of None \<Rightarrow> {} | Some m \<Rightarrow> m);
          s1 = s\<lparr>blocks := (blocks s)(b_blocker r \<mapsto> insert (b_blocked r) m)\<rparr>
      in if b_rkey r \<noteq> []
         then let k = (case blocks_by_rkey s1 (b_blocker r) of None \<Rightarrow> Map.empty | Some k \<Rightarrow> k)
              in s1\<lparr>blocks_by_rkey :=
                      (blocks_by_rkey s1)(b_blocker r \<mapsto> k(b_rkey r \<mapsto> b_blocked r))\<rparr>
         else s1)"

definition load_verif :: "verification \<Rightarrow> store \<Rightarrow> store" where
  "load_verif r s =
     (let k = (case verifs_by_rkey s (v_verifier r) of None \<Rightarrow> Map.empty | Some k \<Rightarrow> k)
      in s\<lparr>verifs_by_rkey :=
             (verifs_by_rkey s)(v_verifier r \<mapsto> k(v_rkey r \<mapsto> v_subject r))\<rparr>)"

definition load_into_memory :: "store \<Rightarrow> store_error + store" where
  "load_into_memory s =
     (let (bad, s1) = db_call s in
      if bad then Inl DbError
      else
        let (ts, s2) = fetch_rows (remdups (map pt_actor (push_tokens s1))) s1;
            s3 = s2\<lparr>registered_dids := registered_dids s2 \<union> set ts\<rparr>;
            (bad, s4) = db_call s3 in
        if bad then Inl DbError
        else
          let (bs, s5) = fetch_rows (block_rows s4) s4;
              s6 = fold load_block bs s5;
              (bad, s7) = db_call s6 in
          if bad then Inl DbError
          else
            let (vs, s8) = fetch_rows (verif_rows s7) s7 in
            Inr (fold load_verif vs s8))"

text \<open>\<open>New\<close> on an existing database: the \<open>CREATE ... IF NOT EXISTS\<close> call, then the load.\<close>

definition open_store :: "db \<Rightarrow> store_error + store" where
  "open_store d =
     (let (bad, d1) = db_call d in
      if bad then Inl DbError
      else load_into_memory
             (db.extend d1 (store.fields {} Map.empty Map.empty Map.empty)))"

subsection \<open>Push tokens\<close>

definition max_tokens_per_did :: nat where
  "max_tokens_per_did = 20"

definition token_platforms :: "string set" where
  "token_platforms = {''ios'', ''android'', ''web''}"

definition token_key :: "push_token \<Rightarrow> string \<times> string" where
  "token_key t = (pt_actor t, pt_token t)"

definition upsert_token :: "push_token \<Rightarrow> push_token list \<Rightarrow> push_token list" where
  "upsert_token t rows = filter (\<lambda>r. token_key r \<noteq> token_key t) rows @ [t]"

definition other_tokens :: "string \<Rightarrow> string \<Rightarrow> push_token list \<Rightarrow> nat" where
  "other_tokens actor tok rows =
     length (filter (\<lambda>r. pt_actor r = actor \<and> pt_token r \<noteq> tok) rows)"

definition register_token ::
  "string \<Rightarrow> string \<Rightarrow> string \<Rightarrow> string \<Rightarrow> store \<Rightarrow> store \<times> store_error option" where
  "register_token actor platform tok app s =
     (let (bad, s1) = db_call s in
      if bad then (s1, Some DbError)
      else let (bad, s2) = db_call s1; existing = other_tokens actor tok (push_tokens s2) in
      if bad then (s2, Some DbError)
      else if max_tokens_per_did \<le> existing then (s2, Some (TooManyTokens actor existing))
      else let (bad, s3) = db_call s2 in
      if bad then (s3, Some DbError)
      else if platform \<notin> token_platforms then (s3, Some ConstraintFailed)
      else let (bad, s4) = db_call s3 in
      if bad then (s4, Some DbError)
      else (s4\<lparr>push_tokens :=
                 upsert_token \<lparr>pt_actor = actor, pt_platform = platform, pt_token = tok,
                               pt_app = app\<rparr> (push_tokens s4),
               registered_dids := insert actor (registered_dids s4)\<rparr>, None))"

definition unregister_token ::
  "string \<Rightarrow> string \<Rightarrow> string \<Rightarrow> string \<Rightarrow> store \<Rightarrow> store \<times> store_error option" where
  "unregister_token actor platform tok app s =
     (let (bad, s1) = db_call s in
      if bad then (s1, Some DbError)
      else
        let s2 = s1\<lparr>push_tokens :=
                   filter (\<lambda>r. r \<noteq> \<lparr>pt_actor = actor, pt_platform = platform,
                                     pt_token = tok, pt_app = app\<rparr>) (push_tokens s1)\<rparr>;
            (bad, s3) = db_call s2;
            count = (if bad then 0
                     else length (filter (\<lambda>r. pt_actor r = actor) (push_tokens s3)))
        in if count = 0
           then (s3\<lparr>registered_dids := registered_dids s3 - {actor}\<rparr>, None)
           else (s3, None))"

definition is_registered :: "string \<Rightarrow> store \<Rightarrow> bool" where
  "is_registered did s \<longleftrightarrow> did \<in> registered_dids s"

definition has_registered_dids :: "store \<Rightarrow> bool" where
  "has_registered_dids s \<longleftrightarrow> registered_dids s \<noteq> {}"

definition get_tokens_for_did :: "string \<Rightarrow> store \<Rightarrow> store \<times> (store_error + push_token list)" where
  "get_tokens_for_did did s =
     (let (bad, s1) = db_call s in
      if bad then (s1, Inl DbError)
      else let (ts, s2) = fetch_rows (filter (\<lambda>r. pt_actor r = did) (push_tokens s1)) s1
           in (s2, Inr ts))"

subsection \<open>Blocks\<close>

definition add_block :: "string \<Rightarrow> string \<Rightarrow> string \<Rightarrow> store \<Rightarrow> store \<times> store_error option" where
  "add_block blocker blocked rkey s =
     (let (bad, s1) = db_call s in
      if bad then (s1, Some DbError)
      else
        let r = \<lparr>b_blocker = blocker, b_blocked = blocked, b_rkey = rkey\<rparr>;
            s2 = (if \<exists>q \<in> set (block_rows s1). b_blocker q = blocker \<and> b_blocked q = blocked
                  then s1 else s1\<lparr>block_rows := block_rows s1 @ [r]\<rparr>);
            m = (case blocks s2 blocker of None \<Rightarrow> {} | Some m \<Rightarrow> m);
            s3 = s2\<lparr>blocks := (blocks s2)(blocker \<mapsto> insert blocked m)\<rparr>
        in if rkey \<noteq> []
           then let k = (case blocks_by_rkey s3 blocker of None \<Rightarrow> Map.empty | Some k \<Rightarrow> k)
                in (s3\<lparr>blocks_by_rkey := (blocks_by_rkey s3)(blocker \<mapsto> k(rkey \<mapsto> blocked))\<rparr>,
                    None)
           else (s3, None))"

definition mark_blocks_backfilled :: "string \<Rightarrow> store \<Rightarrow> store \<times> (store_error + bool)" where
  "mark_blocks_backfilled actor s =
     (let (bad, s1) = db_call s in
      if bad then (s1, Inl DbError)
      else
        let new = actor \<notin> set (backfilled_rows s1);
            s2 = (if new then s1\<lparr>backfilled_rows := backfilled_rows s1 @ [actor]\<rparr> else s1);
            (bad, s3) = db_call s2
        in if bad then (s3, Inl DbError) else (s3, Inr new))"

definition remove_block :: "string \<Rightarrow> string \<Rightarrow> store \<Rightarrow> store \<times> store_error option" where
  "remove_block blocker blocked s =
     (let (bad, s1) = db_call s in
      if bad then (s1, Some DbError)
      else
        let s2 = s1\<lparr>block_rows :=
                   filter (\<lambda>q. \<not> (b_blocker q = blocker \<and> b_blocked q = blocked))
                     (block_rows s1)\<rparr>
        in (case blocks s2 blocker of
              None \<Rightarrow> (s2, None)
            | Some m \<Rightarrow> (s2\<lparr>blocks := (blocks s2)(blocker \<mapsto> m - {blocked})\<rparr>, None)))"

text \<open>Reading a missing key of a Go map gives the zero value, here the empty string.\<close>

definition nested_get :: "(string \<rightharpoonup> (string \<rightharpoonup> string)) \<Rightarrow> string \<Rightarrow> string \<Rightarrow> string" where
  "nested_get m a k =
     (case m a of None \<Rightarrow> [] | Some n \<Rightarrow> (case n k of None \<Rightarrow> [] | Some v \<Rightarrow> v))"

definition nested_delete ::
  "string \<Rightarrow> string \<Rightarrow> (string \<rightharpoonup> (string \<rightharpoonup> string)) \<Rightarrow> (string \<rightharpoonup> (string \<rightharpoonup> string))" where
  "nested_delete a k m = (case m a of None \<Rightarrow> m | Some n \<Rightarrow> m(a \<mapsto> n(k := None)))"

definition remove_block_by_rkey ::
  "string \<Rightarrow> string \<Rightarrow> store \<Rightarrow> store \<times> (store_error + string)" where
  "remove_block_by_rkey blocker rkey s =
     (let blocked = nested_get (blocks_by_rkey s) blocker rkey in
      if blocked = [] then (s, Inr [])
      else (case remove_block blocker blocked s of
              (s1, Some e) \<Rightarrow> (s1, Inl e)
            | (s1, None) \<Rightarrow>
                (s1\<lparr>blocks_by_rkey := nested_delete blocker rkey (blocks_by_rkey s1)\<rparr>,
                 Inr blocked)))"

definition in_blocks :: "string \<Rightarrow> string \<Rightarrow> store \<Rightarrow> bool" where
  "in_blocks a b s \<longleftrightarrow> (case blocks s a of None \<Rightarrow> False | Some m \<Rightarrow> b \<in> m)"

definition is_blocked :: "string \<Rightarrow> string \<Rightarrow> store \<Rightarrow> bool" where
  "is_blocked actor target s \<longleftrightarrow>
     (if in_blocks target actor s then True
      else if in_blocks actor target s then True else False)"

definition get_stats :: "store \<Rightarrow> store \<times> nat \<times> nat \<times> nat" where
  "get_stats s =
     (let (bad1, s1) = db_call s;
          tokens = (if bad1 then 0 else length (push_tokens s1));
          (bad2, s2) = db_call s1;
          blks = (if bad2 then 0 else length (block_rows s2))
      in (s2, tokens, blks, card (registered_dids s2)))"

subsection \<open>Verifications\<close>

definition verif_key :: "verification \<Rightarrow> string \<times> string" where
  "verif_key v = (v_verifier v, v_rkey v)"

definition add_verification ::
  "string \<Rightarrow> string \<Rightarrow> string \<Rightarrow> store \<Rightarrow> store \<times> store_error option" where
  "add_verification verifier subject rkey s =
     (let (bad, s1) = db_call s in
      if bad then (s1, Some DbError)
      else
        let v = \<lparr>v_verifier = verifier, v_subject = subject, v_rkey = rkey\<rparr>;
            s2 = s1\<lparr>verif_rows :=
                   filter (\<lambda>q. verif_key q \<noteq> verif_key v) (verif_rows s1) @ [v]\<rparr>;
            k = (case verifs_by_rkey s2 verifier of None \<Rightarrow> Map.empty | Some k \<Rightarrow> k)
        in (s2\<lparr>verifs_by_rkey := (verifs_by_rkey s2)(verifier \<mapsto> k(rkey \<mapsto> subject))\<rparr>, None))"

definition remove_verification_by_rkey ::
  "string \<Rightarrow> string \<Rightarrow> store \<Rightarrow> store \<times> (store_error + string)" where
  "remove_verification_by_rkey verifier rkey s =
     (let subject = nested_get (verifs_by_rkey s) verifier rkey in
      if subject = [] then (s, Inr [])
      else let (bad, s1) = db_call s in
      if bad then (s1, Inl DbError)
      else
        (s1\<lparr>verif_rows := filter (\<lambda>q. verif_key q \<noteq> (verifier, rkey)) (verif_rows s1),
            verifs_by_rkey := nested_delete verifier rkey (verifs_by_rkey s1)\<rparr>,
         Inr subject))"

end
