(* ===== verification/Store_Contract.thy ===== *)
theory Store_Contract
  imports Store
begin

text \<open>
  What the store promises. \<open>tables_wf\<close> is the well-formedness of the tables (primary keys,
  the platform check, at most twenty tokens per account); \<open>mem_coherent\<close> says that the
  in-memory indexes agree with the tables; \<open>abs_of\<close> is the abstract gateway state, a few
  maps and sets, which every operation of a healthy store updates as \<open>abs_step\<close> says.
\<close>

subsection \<open>Invariants\<close>

definition tables_wf :: "'a db_scheme \<Rightarrow> bool" where
  "tables_wf s \<longleftrightarrow>
     distinct (map token_key (push_tokens s)) \<and>
     (\<forall>t \<in> set (push_tokens s). pt_platform t \<in> token_platforms) \<and>
     (\<forall>did. length (filter (\<lambda>t. pt_actor t = did) (push_tokens s)) \<le> max_tokens_per_did) \<and>
     distinct (map (\<lambda>b. (b_blocker b, b_blocked b)) (block_rows s)) \<and>
     distinct (map verif_key (verif_rows s)) \<and>
     distinct (backfilled_rows s)"

definition block_pairs :: "'a db_scheme \<Rightarrow> (string \<times> string) set" where
  "block_pairs s = (\<lambda>b. (b_blocker b, b_blocked b)) ` set (block_rows s)"

definition verif_table :: "'a db_scheme \<Rightarrow> (string \<times> string) \<rightharpoonup> string" where
  "verif_table s = table_map verif_key v_subject (verif_rows s)"

definition get_or_empty :: "string option \<Rightarrow> string" where
  "get_or_empty x = (case x of None \<Rightarrow> [] | Some v \<Rightarrow> v)"

definition mem_coherent :: "store \<Rightarrow> bool" where
  "mem_coherent s \<longleftrightarrow>
     registered_dids s = pt_actor ` set (push_tokens s) \<and>
     (\<forall>a b. in_blocks a b s \<longleftrightarrow> (a, b) \<in> block_pairs s) \<and>
     (\<forall>v k. nested_get (verifs_by_rkey s) v k = get_or_empty (verif_table s (v, k)))"

definition store_inv :: "store \<Rightarrow> bool" where
  "store_inv s \<longleftrightarrow> tables_wf s \<and> mem_coherent s"

subsection \<open>Operations as values\<close>

datatype store_op =
    RegisterToken string string string string
  | UnregisterToken string string string string
  | AddBlock string string string
  | RemoveBlock string string
  | RemoveBlockByRKey string string
  | MarkBlocksBackfilled string
  | AddVerification string string string
  | RemoveVerificationByRKey string string

fun store_step :: "store_op \<Rightarrow> store \<Rightarrow> store" where
  "store_step (RegisterToken a p t i) s = fst (register_token a p t i s)"
| "store_step (UnregisterToken a p t i) s = fst (unregister_token a p t i s)"
| "store_step (AddBlock a b r) s = fst (add_block a b r s)"
| "store_step (RemoveBlock a b) s = fst (remove_block a b s)"
| "store_step (RemoveBlockByRKey a r) s = fst (remove_block_by_rkey a r s)"
| "store_step (MarkBlocksBackfilled a) s = fst (mark_blocks_backfilled a s)"
| "store_step (AddVerification v j r) s = fst (add_verification v j r s)"
| "store_step (RemoveVerificationByRKey v r) s = fst (remove_verification_by_rkey v r s)"

definition run_ops :: "store_op list \<Rightarrow> store \<Rightarrow> store" where
  "run_ops ops s = fold store_step ops s"

fun is_unregister :: "store_op \<Rightarrow> bool" where
  "is_unregister (UnregisterToken _ _ _ _) = True"
| "is_unregister _ = False"

subsection \<open>Small facts\<close>

lemma push_token_eta [simp]:
  "\<lparr>pt_actor = pt_actor r, pt_platform = pt_platform r, pt_token = pt_token r,
     pt_app = pt_app r\<rparr> = (r :: push_token)"
  by simp

lemma nested_get_upd:
  "nested_get (m(a \<mapsto> (case m a of None \<Rightarrow> Map.empty | Some k \<Rightarrow> k)(r \<mapsto> v))) a' r' =
     (if a' = a \<and> r' = r then v else nested_get m a' r')"
  by (auto simp: nested_get_def split: option.splits)

lemma nested_get_delete:
  "nested_get (nested_delete a r m) a' r' = (if a' = a \<and> r' = r then [] else nested_get m a' r')"
  by (auto simp: nested_get_def nested_delete_def split: option.splits)

definition pair_in :: "(string \<rightharpoonup> string set) \<Rightarrow> string \<Rightarrow> string \<Rightarrow> bool" where
  "pair_in m a b \<longleftrightarrow> (case m a of None \<Rightarrow> False | Some n \<Rightarrow> b \<in> n)"

lemma in_blocks_pair_in: "in_blocks a b s \<longleftrightarrow> pair_in (blocks s) a b"
  by (simp add: in_blocks_def pair_in_def)

lemma pair_in_upd:
  "pair_in (m(a \<mapsto> insert b (case m a of None \<Rightarrow> {} | Some n \<Rightarrow> n))) a' b'
   \<longleftrightarrow> (a' = a \<and> b' = b) \<or> pair_in m a' b'"
  by (auto simp: pair_in_def split: option.splits)

lemma pair_in_remove:
  "pair_in (case m a of None \<Rightarrow> m | Some n \<Rightarrow> m(a \<mapsto> n - {b})) a' b'
   \<longleftrightarrow> (a', b') \<noteq> (a, b) \<and> pair_in m a' b'"
  by (auto simp: pair_in_def split: option.splits if_splits)

lemma block_pairs_cong: "block_rows s = block_rows t \<Longrightarrow> block_pairs s = block_pairs t"
  by (simp add: block_pairs_def)

lemma verif_table_cong: "verif_rows s = verif_rows t \<Longrightarrow> verif_table s = verif_table t"
  by (simp add: verif_table_def)

lemma upsert_token_wf:
  assumes "distinct (map token_key rows)" and "other_tokens (pt_actor t) (pt_token t) rows < n"
    and "\<forall>did. length (filter (\<lambda>r. pt_actor r = did) rows) \<le> n"
  shows "length (filter (\<lambda>r. pt_actor r = did) (upsert_token t rows)) \<le> n"
proof (cases "did = pt_actor t")
  case True
  have "filter (\<lambda>r. pt_actor r = did) (filter (\<lambda>r. token_key r \<noteq> token_key t) rows)
      = filter (\<lambda>r. pt_actor r = pt_actor t \<and> pt_token r \<noteq> pt_token t) rows"
    using True by (auto simp: token_key_def intro!: filter_cong)
  with True assms(2) show ?thesis
    by (simp add: upsert_token_def other_tokens_def)
next
  case False
  have "length (filter (\<lambda>r. pt_actor r = did) (filter (\<lambda>r. token_key r \<noteq> token_key t) rows))
      \<le> length (filter (\<lambda>r. pt_actor r = did) rows)"
    by (rule length_filter_filter_le)
  also have "\<dots> \<le> n" using assms(3) by blast
  finally show ?thesis using False by (simp add: upsert_token_def)
qed

lemma set_upsert_actor:
  "pt_actor ` set (upsert_token t rows) = insert (pt_actor t) (pt_actor ` set rows)"
  by (auto simp: upsert_token_def token_key_def)

subsection \<open>What each operation does\<close>

text \<open>
  Each operation either leaves every field but the call counter as it was, or has the effect
  given here. These facts carry the invariants under arbitrary driver faults.
\<close>

lemma register_token_effect:
  "(\<exists>n e. register_token a p t i s = (s\<lparr>db_calls := n\<rparr>, Some e)) \<or>
   (\<exists>n. other_tokens a t (push_tokens s) < max_tokens_per_did \<and> p \<in> token_platforms \<and>
      register_token a p t i s =
        (s\<lparr>db_calls := n, push_tokens := upsert_token \<lparr>pt_actor = a, pt_platform = p,
             pt_token = t, pt_app = i\<rparr> (push_tokens s),
           registered_dids := insert a (registered_dids s)\<rparr>, None))"
  by (auto simp: register_token_def db_call_def Let_def)

lemma add_block_effect:
  "(\<exists>n. add_block a b r s = (s\<lparr>db_calls := n\<rparr>, Some DbError)) \<or>
   (\<exists>n rows k. add_block a b r s =
      (s\<lparr>db_calls := n, block_rows := rows,
         blocks := (blocks s)(a \<mapsto> insert b (case blocks s a of None \<Rightarrow> {} | Some m \<Rightarrow> m)),
         blocks_by_rkey := k\<rparr>, None) \<and>
      rows = (if (a, b) \<in> block_pairs s then block_rows s
              else block_rows s @ [\<lparr>b_blocker = a, b_blocked = b, b_rkey = r\<rparr>]) \<and>
      k = (if r = [] then blocks_by_rkey s
           else (blocks_by_rkey s)(a \<mapsto>
             (case blocks_by_rkey s a of None \<Rightarrow> Map.empty | Some k \<Rightarrow> k)(r \<mapsto> b))))"
proof -
  have "(\<exists>q \<in> set (block_rows s). b_blocker q = a \<and> b_blocked q = b) \<longleftrightarrow> (a, b) \<in> block_pairs s"
    by (auto simp: block_pairs_def image_iff)
  then show ?thesis
    by (auto simp: add_block_def db_call_def Let_def)
qed

lemma remove_block_effect:
  "(\<exists>n. remove_block a b s = (s\<lparr>db_calls := n\<rparr>, Some DbError)) \<or>
   (\<exists>n m. remove_block a b s =
      (s\<lparr>db_calls := n,
         block_rows := filter (\<lambda>q. \<not> (b_blocker q = a \<and> b_blocked q = b)) (block_rows s),
         blocks := m\<rparr>, None) \<and>
      m = (case blocks s a of None \<Rightarrow> blocks s | Some x \<Rightarrow> (blocks s)(a \<mapsto> x - {b})))"
  by (auto simp: remove_block_def db_call_def Let_def split: option.splits)

lemma add_verification_effect:
  "(\<exists>n. add_verification v j r s = (s\<lparr>db_calls := n\<rparr>, Some DbError)) \<or>
   (\<exists>n w. add_verification v j r s =
      (s\<lparr>db_calls := n,
         verif_rows := filter (\<lambda>q. verif_key q \<noteq> verif_key w) (verif_rows s) @ [w],
         verifs_by_rkey := (verifs_by_rkey s)(v \<mapsto>
           (case verifs_by_rkey s v of None \<Rightarrow> Map.empty | Some k \<Rightarrow> k)(r \<mapsto> j))\<rparr>, None) \<and>
      w = \<lparr>v_verifier = v, v_subject = j, v_rkey = r\<rparr>)"
  by (auto simp: add_verification_def db_call_def Let_def)

lemma remove_verification_effect:
  "(\<exists>n x. remove_verification_by_rkey v r s = (s\<lparr>db_calls := n\<rparr>, x)) \<or>
   (\<exists>n. remove_verification_by_rkey v r s =
      (s\<lparr>db_calls := n, verif_rows := filter (\<lambda>q. verif_key q \<noteq> (v, r)) (verif_rows s),
         verifs_by_rkey := nested_delete v r (verifs_by_rkey s)\<rparr>,
       Inr (nested_get (verifs_by_rkey s) v r)))"
proof (cases "nested_get (verifs_by_rkey s) v r = []")
  case True
  then have "remove_verification_by_rkey v r s = (s\<lparr>db_calls := db_calls s\<rparr>, Inr [])"
    by (simp add: remove_verification_by_rkey_def)
  then show ?thesis by blast
next
  case False
  then show ?thesis
    by (auto simp: remove_verification_by_rkey_def db_call_def Let_def)
qed

lemma mark_blocks_backfilled_effect:
  "(\<exists>n x. mark_blocks_backfilled a s = (s\<lparr>db_calls := n\<rparr>, x)) \<or>
   (\<exists>n x. a \<notin> set (backfilled_rows s) \<and> mark_blocks_backfilled a s =
      (s\<lparr>backfilled_rows := backfilled_rows s @ [a], db_calls := n\<rparr>, x))"
  by (auto simp: mark_blocks_backfilled_def db_call_def Let_def)

lemma unregister_token_effect:
  "(\<exists>n. unregister_token a p t i s = (s\<lparr>db_calls := n\<rparr>, Some DbError)) \<or>
   (\<exists>n rows ds. unregister_token a p t i s =
      (s\<lparr>push_tokens := rows, db_calls := n, registered_dids := ds\<rparr>, None) \<and>
      rows = filter (\<lambda>r. r \<noteq> \<lparr>pt_actor = a, pt_platform = p, pt_token = t, pt_app = i\<rparr>)
               (push_tokens s) \<and>
      ds = (if db_faults s (Suc (db_calls s)) \<or> a \<notin> pt_actor ` set rows
            then registered_dids s - {a} else registered_dids s))"
  by (auto simp: unregister_token_def db_call_def Let_def filter_empty_conv)

subsection \<open>The tables stay well formed, whatever the driver does\<close>

lemma tables_wf_cong:
  "push_tokens s = push_tokens t \<Longrightarrow> block_rows s = block_rows t \<Longrightarrow> verif_rows s = verif_rows t \<Longrightarrow>
   backfilled_rows s = backfilled_rows t \<Longrightarrow> tables_wf s = tables_wf t"
  by (simp add: tables_wf_def)

lemma tables_wf_calls [simp]: "tables_wf (s\<lparr>db_calls := n\<rparr>) = tables_wf s"
  by (simp add: tables_wf_def)

lemma register_token_wf:
  assumes "tables_wf s"
  shows "tables_wf (fst (register_token a p t i s))"
  using register_token_effect [of a p t i s]
proof (elim disjE exE conjE)
  fix n
  assume few: "other_tokens a t (push_tokens s) < max_tokens_per_did"
    and pf: "p \<in> token_platforms"
    and eff: "register_token a p t i s =
        (s\<lparr>db_calls := n, push_tokens := upsert_token \<lparr>pt_actor = a, pt_platform = p,
             pt_token = t, pt_app = i\<rparr> (push_tokens s),
           registered_dids := insert a (registered_dids s)\<rparr>, None)"
  let ?t = "\<lparr>pt_actor = a, pt_platform = p, pt_token = t, pt_app = i\<rparr>"
  have wf: "distinct (map token_key (push_tokens s))"
    "\<forall>did. length (filter (\<lambda>r. pt_actor r = did) (push_tokens s)) \<le> max_tokens_per_did"
    using assms by (auto simp: tables_wf_def)
  have "\<forall>did. length (filter (\<lambda>r. pt_actor r = did) (upsert_token ?t (push_tokens s)))
      \<le> max_tokens_per_did"
    using few upsert_token_wf [OF wf(1) _ wf(2), of ?t] by simp
  moreover have "distinct (map token_key (upsert_token ?t (push_tokens s)))"
    using wf(1) by (simp add: upsert_token_def distinct_map_filter_snoc del: map_append)
  moreover have "\<forall>r \<in> set (upsert_token ?t (push_tokens s)). pt_platform r \<in> token_platforms"
    using assms pf by (auto simp: upsert_token_def tables_wf_def)
  ultimately show ?thesis
    using assms eff by (simp add: tables_wf_def)
qed (use assms in simp)

lemma unregister_token_wf:
  assumes "tables_wf s"
  shows "tables_wf (fst (unregister_token a p t i s))"
  using unregister_token_effect [of a p t i s]
proof (elim disjE exE conjE)
  fix n rows ds
  assume eff: "unregister_token a p t i s =
      (s\<lparr>push_tokens := rows, db_calls := n, registered_dids := ds\<rparr>, None)"
    and rows: "rows = filter (\<lambda>r. r \<noteq> \<lparr>pt_actor = a, pt_platform = p, pt_token = t,
        pt_app = i\<rparr>) (push_tokens s)"
  have "length (filter (\<lambda>r. pt_actor r = did) rows)
      \<le> length (filter (\<lambda>r. pt_actor r = did) (push_tokens s))" for did
    unfolding rows by (rule length_filter_filter_le)
  then have "\<forall>did. length (filter (\<lambda>r. pt_actor r = did) rows) \<le> max_tokens_per_did"
    using assms by (fastforce simp: tables_wf_def intro: order_trans)
  then show ?thesis
    using assms eff by (auto simp: tables_wf_def rows distinct_map_filter)
qed (use assms in simp)

lemma add_block_wf: "tables_wf s \<Longrightarrow> tables_wf (fst (add_block a b r s))"
  using add_block_effect [of a b r s] by (auto simp: tables_wf_def block_pairs_def)

lemma remove_block_wf: "tables_wf s \<Longrightarrow> tables_wf (fst (remove_block a b s))"
  using remove_block_effect [of a b s] by (auto simp: tables_wf_def distinct_map_filter)

lemma remove_block_by_rkey_wf:
  "tables_wf s \<Longrightarrow> tables_wf (fst (remove_block_by_rkey a r s))"
  using remove_block_wf [of s a "nested_get (blocks_by_rkey s) a r"]
  by (auto simp: remove_block_by_rkey_def Let_def tables_wf_def split: prod.splits option.splits)

lemma mark_blocks_backfilled_wf:
  "tables_wf s \<Longrightarrow> tables_wf (fst (mark_blocks_backfilled a s))"
  using mark_blocks_backfilled_effect [of a s] by (auto simp: tables_wf_def)

lemma add_verification_wf:
  assumes "tables_wf s"
  shows "tables_wf (fst (add_verification v j r s))"
  using assms add_verification_effect [of v j r s]
    distinct_map_filter_snoc [of verif_key "verif_rows s"]
  by (auto simp: tables_wf_def simp del: map_append)

lemma remove_verification_wf:
  "tables_wf s \<Longrightarrow> tables_wf (fst (remove_verification_by_rkey v r s))"
  using remove_verification_effect [of v r s] by (auto simp: tables_wf_def distinct_map_filter)

lemmas store_op_wfs =
  register_token_wf unregister_token_wf add_block_wf remove_block_wf remove_block_by_rkey_wf
  mark_blocks_backfilled_wf add_verification_wf remove_verification_wf

lemma tables_wf_step: "tables_wf s \<Longrightarrow> tables_wf (store_step op s)"
  by (cases op) (simp_all add: store_op_wfs)

lemma tables_wf_run: "tables_wf s \<Longrightarrow> tables_wf (run_ops ops s)"
  by (induction ops arbitrary: s) (simp_all add: run_ops_def tables_wf_step)

subsection \<open>The indexes stay coherent\<close>

lemma mem_coherent_calls [simp]: "mem_coherent (s\<lparr>db_calls := n\<rparr>) = mem_coherent s"
  by (simp add: mem_coherent_def in_blocks_def block_pairs_def verif_table_def)

lemma mem_coherent_rkeys [simp]: "mem_coherent (s\<lparr>blocks_by_rkey := k\<rparr>) = mem_coherent s"
  by (simp add: mem_coherent_def in_blocks_def block_pairs_def verif_table_def)

lemma register_token_coherent:
  "mem_coherent s \<Longrightarrow> mem_coherent (fst (register_token a p t i s))"
  using register_token_effect [of a p t i s]
    set_upsert_actor [of "\<lparr>pt_actor = a, pt_platform = p, pt_token = t, pt_app = i\<rparr>"
      "push_tokens s"]
  by (fastforce simp: mem_coherent_def in_blocks_pair_in block_pairs_def verif_table_def)

lemma unregister_token_coherent:
  assumes "mem_coherent s" and ok: "\<not> db_faults s (Suc (db_calls s))"
  shows "mem_coherent (fst (unregister_token a p t i s))"
  using unregister_token_effect [of a p t i s]
proof (elim disjE exE conjE)
  fix n rows ds
  assume eff: "unregister_token a p t i s =
      (s\<lparr>push_tokens := rows, db_calls := n, registered_dids := ds\<rparr>, None)"
    and rows: "rows = filter (\<lambda>r. r \<noteq> \<lparr>pt_actor = a, pt_platform = p, pt_token = t,
        pt_app = i\<rparr>) (push_tokens s)"
    and ds: "ds = (if db_faults s (Suc (db_calls s)) \<or> a \<notin> pt_actor ` set rows
            then registered_dids s - {a} else registered_dids s)"
  have "d \<noteq> a \<Longrightarrow> d \<in> pt_actor ` set rows \<longleftrightarrow> d \<in> pt_actor ` set (push_tokens s)" for d
    by (force simp: rows)
  then have "ds = pt_actor ` set rows"
    using assms(1) unfolding ds by (auto simp: ok mem_coherent_def) (auto simp: rows)
  then show ?thesis
    using assms(1) eff by (simp add: mem_coherent_def in_blocks_def block_pairs_def verif_table_def)
qed (use assms in simp)

lemma add_block_coherent:
  assumes "mem_coherent s"
  shows "mem_coherent (fst (add_block a b r s))"
  using add_block_effect [of a b r s]
proof (elim disjE exE conjE)
  fix n rows k
  assume eff: "add_block a b r s =
      (s\<lparr>db_calls := n, block_rows := rows,
         blocks := (blocks s)(a \<mapsto> insert b (case blocks s a of None \<Rightarrow> {} | Some m \<Rightarrow> m)),
         blocks_by_rkey := k\<rparr>, None)"
    and rows: "rows = (if (a, b) \<in> block_pairs s then block_rows s
              else block_rows s @ [\<lparr>b_blocker = a, b_blocked = b, b_rkey = r\<rparr>])"
  have "block_pairs (fst (add_block a b r s)) = insert (a, b) (block_pairs s)"
    by (auto simp: eff rows block_pairs_def)
  then show ?thesis
    using assms eff
    by (auto simp: mem_coherent_def verif_table_def in_blocks_pair_in pair_in_upd)
qed (use assms in simp)

lemma remove_block_coherent:
  assumes "mem_coherent s"
  shows "mem_coherent (fst (remove_block a b s))"
  using remove_block_effect [of a b s]
proof (elim disjE exE conjE)
  fix n m
  assume eff: "remove_block a b s =
      (s\<lparr>db_calls := n,
         block_rows := filter (\<lambda>q. \<not> (b_blocker q = a \<and> b_blocked q = b)) (block_rows s),
         blocks := m\<rparr>, None)"
    and m: "m = (case blocks s a of None \<Rightarrow> blocks s | Some x \<Rightarrow> (blocks s)(a \<mapsto> x - {b}))"
  have "block_pairs (fst (remove_block a b s)) = block_pairs s - {(a, b)}"
    by (auto simp: eff block_pairs_def)
  then show ?thesis
    using assms eff
    by (auto simp: mem_coherent_def verif_table_def in_blocks_pair_in pair_in_remove m)
qed (use assms in simp)

lemma remove_block_by_rkey_coherent:
  "mem_coherent s \<Longrightarrow> mem_coherent (fst (remove_block_by_rkey a r s))"
  using remove_block_coherent [of s a "nested_get (blocks_by_rkey s) a r"]
  by (auto simp: remove_block_by_rkey_def Let_def split: prod.splits option.splits)

lemma mark_blocks_backfilled_coherent:
  "mem_coherent s \<Longrightarrow> mem_coherent (fst (mark_blocks_backfilled a s))"
  using mark_blocks_backfilled_effect [of a s]
  by (auto simp: mem_coherent_def in_blocks_def block_pairs_def verif_table_def)

lemma add_verification_coherent:
  assumes "mem_coherent s"
  shows "mem_coherent (fst (add_verification v j r s))"
  using add_verification_effect [of v j r s]
proof (elim disjE exE conjE)
  fix n w
  assume eff: "add_verification v j r s =
      (s\<lparr>db_calls := n,
         verif_rows := filter (\<lambda>q. verif_key q \<noteq> verif_key w) (verif_rows s) @ [w],
         verifs_by_rkey := (verifs_by_rkey s)(v \<mapsto>
           (case verifs_by_rkey s v of None \<Rightarrow> Map.empty | Some k \<Rightarrow> k)(r \<mapsto> j))\<rparr>, None)"
    and w: "w = \<lparr>v_verifier = v, v_subject = j, v_rkey = r\<rparr>"
  have "verif_table (fst (add_verification v j r s)) = (verif_table s)((v, r) \<mapsto> j)"
    by (simp add: eff verif_table_def table_map_upsert) (simp add: w verif_key_def)
  then show ?thesis
    using assms eff
    by (simp add: mem_coherent_def in_blocks_def block_pairs_def get_or_empty_def nested_get_upd)
qed (use assms in simp)

lemma remove_verification_coherent:
  assumes "mem_coherent s"
  shows "mem_coherent (fst (remove_verification_by_rkey v r s))"
  using remove_verification_effect [of v r s]
proof (elim disjE exE conjE)
  fix n
  assume eff: "remove_verification_by_rkey v r s =
      (s\<lparr>db_calls := n, verif_rows := filter (\<lambda>q. verif_key q \<noteq> (v, r)) (verif_rows s),
         verifs_by_rkey := nested_delete v r (verifs_by_rkey s)\<rparr>,
       Inr (nested_get (verifs_by_rkey s) v r))"
  have "verif_table (fst (remove_verification_by_rkey v r s)) = (verif_table s)((v, r) := None)"
    by (simp add: eff verif_table_def table_map_delete_key)
  then show ?thesis
    using assms eff
    by (simp add: mem_coherent_def in_blocks_def block_pairs_def get_or_empty_def
        nested_get_delete)
qed (use assms in simp)

lemmas store_op_coherents =
  register_token_coherent add_block_coherent remove_block_coherent
  remove_block_by_rkey_coherent mark_blocks_backfilled_coherent add_verification_coherent
  remove_verification_coherent

lemma store_step_inv_faulty:
  "store_inv s \<Longrightarrow> \<not> is_unregister op \<Longrightarrow> store_inv (store_step op s)"
  by (cases op) (simp_all add: store_inv_def store_op_wfs store_op_coherents)

lemma store_step_inv: "store_inv s \<Longrightarrow> healthy s \<Longrightarrow> store_inv (store_step op s)"
  by (cases op)
    (simp_all add: store_inv_def store_op_wfs store_op_coherents unregister_token_coherent
      healthy_def)

end
