(* ===== verification/Store_Refinement.thy ===== *)
theory Store_Refinement
  imports Store_Contract
begin

text \<open>
  The store against its abstract specification: maps and sets updated by \<open>abs_step\<close>, and
  what a restart (closing the database and opening it again) keeps of the state. The
  in-memory index of blocks by record key is the one part that is not a function of the
  tables; the last section shows where that matters.
\<close>

subsection \<open>The abstract gateway state\<close>

record abs_store =
  a_tokens :: "(string \<times> string) \<rightharpoonup> (string \<times> string)"
  a_blocks :: "(string \<times> string) set"
  a_rkeys :: "string \<Rightarrow> string \<Rightarrow> string"
  a_verifs :: "string \<Rightarrow> string \<Rightarrow> string"
  a_backfilled :: "string set"

definition abs_of :: "store \<Rightarrow> abs_store" where
  "abs_of s =
     \<lparr>a_tokens = table_map token_key (\<lambda>t. (pt_platform t, pt_app t)) (push_tokens s),
      a_blocks = {(a, b). in_blocks a b s},
      a_rkeys = nested_get (blocks_by_rkey s),
      a_verifs = nested_get (verifs_by_rkey s),
      a_backfilled = set (backfilled_rows s)\<rparr>"

definition abs_others :: "string \<Rightarrow> string \<Rightarrow> abs_store \<Rightarrow> nat" where
  "abs_others actor tok m = card {k \<in> dom (a_tokens m). fst k = actor \<and> snd k \<noteq> tok}"

fun abs_step :: "store_op \<Rightarrow> abs_store \<Rightarrow> abs_store" where
  "abs_step (RegisterToken a p t i) m =
     (if abs_others a t m < max_tokens_per_did \<and> p \<in> token_platforms
      then m\<lparr>a_tokens := (a_tokens m)((a, t) \<mapsto> (p, i))\<rparr> else m)"
| "abs_step (UnregisterToken a p t i) m =
     (if a_tokens m (a, t) = Some (p, i)
      then m\<lparr>a_tokens := (a_tokens m)((a, t) := None)\<rparr> else m)"
| "abs_step (AddBlock a b r) m =
     m\<lparr>a_blocks := insert (a, b) (a_blocks m),
       a_rkeys := (if r = [] then a_rkeys m else (a_rkeys m)(a := (a_rkeys m a)(r := b)))\<rparr>"
| "abs_step (RemoveBlock a b) m = m\<lparr>a_blocks := a_blocks m - {(a, b)}\<rparr>"
| "abs_step (RemoveBlockByRKey a r) m =
     (if a_rkeys m a r = [] then m
      else m\<lparr>a_blocks := a_blocks m - {(a, a_rkeys m a r)},
             a_rkeys := (a_rkeys m)(a := (a_rkeys m a)(r := []))\<rparr>)"
| "abs_step (MarkBlocksBackfilled a) m = m\<lparr>a_backfilled := insert a (a_backfilled m)\<rparr>"
| "abs_step (AddVerification v j r) m =
     m\<lparr>a_verifs := (a_verifs m)(v := (a_verifs m v)(r := j))\<rparr>"
| "abs_step (RemoveVerificationByRKey v r) m =
     (if a_verifs m v r = [] then m
      else m\<lparr>a_verifs := (a_verifs m)(v := (a_verifs m v)(r := []))\<rparr>)"

subsection \<open>Healthy operations\<close>

lemma db_call_ok [simp]: "healthy s \<Longrightarrow> db_call s = (False, s\<lparr>db_calls := Suc (db_calls s)\<rparr>)"
  by (simp add: db_call_def healthy_def)

lemma healthy_upd [simp]:
  "healthy (s\<lparr>db_calls := n\<rparr>) = healthy s" "healthy (s\<lparr>push_tokens := t\<rparr>) = healthy s"
  "healthy (s\<lparr>block_rows := b\<rparr>) = healthy s" "healthy (s\<lparr>verif_rows := v\<rparr>) = healthy s"
  "healthy (s\<lparr>backfilled_rows := k\<rparr>) = healthy s" "healthy (s\<lparr>endpoint_rows := r\<rparr>) = healthy s"
  by (simp_all add: healthy_def)

lemma healthy_upd_mem [simp]:
  "healthy (q\<lparr>registered_dids := d\<rparr>) = healthy q" "healthy (q\<lparr>blocks := x\<rparr>) = healthy q"
  "healthy (q\<lparr>blocks_by_rkey := y\<rparr>) = healthy q" "healthy (q\<lparr>verifs_by_rkey := z\<rparr>) = healthy q"
  by (simp_all add: healthy_def)

lemma fetch_rows_ok [simp]:
  "healthy s \<Longrightarrow> fetch_rows rs s = (rs, s\<lparr>db_calls := db_calls s + length rs\<rparr>)"
  by (induction rs arbitrary: s) simp_all

lemma db_faults_step [simp]: "db_faults (store_step op s) = db_faults s"
proof (cases op)
  case (RegisterToken a p t i)
  then show ?thesis using register_token_effect [of a p t i s] by auto
next
  case (UnregisterToken a p t i)
  then show ?thesis using unregister_token_effect [of a p t i s] by auto
next
  case (AddBlock a b r)
  then show ?thesis using add_block_effect [of a b r s] by auto
next
  case (RemoveBlock a b)
  then show ?thesis using remove_block_effect [of a b s] by auto
next
  case (RemoveBlockByRKey a r)
  then show ?thesis
    using remove_block_effect [of a "nested_get (blocks_by_rkey s) a r" s]
    by (auto simp: remove_block_by_rkey_def Let_def split: prod.splits option.splits)
next
  case (MarkBlocksBackfilled a)
  then show ?thesis using mark_blocks_backfilled_effect [of a s] by auto
next
  case (AddVerification v j r)
  then show ?thesis using add_verification_effect [of v j r s] by auto
next
  case (RemoveVerificationByRKey v r)
  then show ?thesis using remove_verification_effect [of v r s] by auto
qed

lemma healthy_step [simp]: "healthy (store_step op s) = healthy s"
  by (simp add: healthy_def)

lemma run_ops_simps [simp]:
  "run_ops [] s = s" "run_ops (op # ops) s = run_ops ops (store_step op s)"
  by (simp_all add: run_ops_def)

lemma healthy_run [simp]: "healthy (run_ops ops s) = healthy s"
  by (induction ops arbitrary: s) simp_all

lemma run_ops_inv: "store_inv s \<Longrightarrow> healthy s \<Longrightarrow> store_inv (run_ops ops s)"
  by (induction ops arbitrary: s) (simp_all add: store_step_inv)

subsection \<open>Refinement of each operation\<close>

lemma abs_others_of:
  assumes "store_inv s"
  shows "other_tokens a t (push_tokens s) = abs_others a t (abs_of s)"
proof -
  have "distinct (map token_key (push_tokens s))"
    using assms by (simp add: store_inv_def tables_wf_def)
  from length_filter_keys [OF this, of "\<lambda>k. fst k = a \<and> snd k \<noteq> t"]
  show ?thesis
    by (simp add: other_tokens_def abs_others_def abs_of_def dom_table_map token_key_def)
qed

lemma abs_register:
  assumes "store_inv s" and "healthy s"
  shows "abs_of (fst (register_token a p t i s)) = abs_step (RegisterToken a p t i) (abs_of s)"
proof -
  have "table_map token_key (\<lambda>t. (pt_platform t, pt_app t)) (upsert_token
          \<lparr>pt_actor = a, pt_platform = p, pt_token = t, pt_app = i\<rparr> (push_tokens s))
      = (table_map token_key (\<lambda>t. (pt_platform t, pt_app t)) (push_tokens s))((a, t) \<mapsto> (p, i))"
    by (simp only: upsert_token_def table_map_upsert) (simp add: token_key_def)
  then show ?thesis
    using assms(2)
    by (auto simp: register_token_def Let_def abs_others_of [OF assms(1), symmetric])
      (auto simp: abs_of_def in_blocks_def)
qed

lemma abs_unregister:
  assumes "store_inv s" and "healthy s"
  shows "abs_of (fst (unregister_token a p t i s)) = abs_step (UnregisterToken a p t i) (abs_of s)"
proof -
  let ?r = "\<lparr>pt_actor = a, pt_platform = p, pt_token = t, pt_app = i\<rparr>"
  let ?g = "\<lambda>t. (pt_platform t, pt_app t)"
  have d: "distinct (map token_key (push_tokens s))"
    using assms(1) by (simp add: store_inv_def tables_wf_def)
  have "table_map token_key ?g (push_tokens s) (a, t) = Some (p, i)
      \<longleftrightarrow> ?r \<in> set (push_tokens s)"
    using d by (auto simp: table_map_Some_iff token_key_def intro: bexI [of _ ?r])
  moreover have "table_map token_key ?g (filter (\<lambda>r. r \<noteq> ?r) (push_tokens s)) =
      (if ?r \<in> set (push_tokens s)
       then (table_map token_key ?g (push_tokens s))(token_key ?r := None)
       else table_map token_key ?g (push_tokens s))"
    by (rule table_map_delete_row [OF d])
  ultimately show ?thesis
    using assms(2)
    by (simp add: unregister_token_def Let_def)
      (auto simp: abs_of_def in_blocks_def token_key_def)
qed

lemma abs_add_block:
  assumes "healthy s"
  shows "abs_of (fst (add_block a b r s)) = abs_step (AddBlock a b r) (abs_of s)"
proof -
  have "{(x, y). pair_in ((blocks s)(a \<mapsto> insert b (case blocks s a of None \<Rightarrow> {} | Some m \<Rightarrow> m))) x y}
      = insert (a, b) {(x, y). pair_in (blocks s) x y}"
    by (auto simp: pair_in_upd)
  moreover have "nested_get ((blocks_by_rkey s)(a \<mapsto>
        (case blocks_by_rkey s a of None \<Rightarrow> Map.empty | Some k \<Rightarrow> k)(r \<mapsto> b)))
      = (nested_get (blocks_by_rkey s))(a := (nested_get (blocks_by_rkey s) a)(r := b))"
    by (simp add: fun_eq_iff nested_get_upd)
  ultimately show ?thesis
    using assms by (simp add: add_block_def Let_def abs_of_def in_blocks_pair_in)
qed

lemma abs_remove_block:
  assumes "healthy s"
  shows "abs_of (fst (remove_block a b s)) = abs_step (RemoveBlock a b) (abs_of s)"
proof -
  have "{(x, y). pair_in (case blocks s a of None \<Rightarrow> blocks s | Some n \<Rightarrow> (blocks s)(a \<mapsto> n - {b})) x y}
      = {(x, y). pair_in (blocks s) x y} - {(a, b)}"
    by (auto simp: pair_in_remove)
  then show ?thesis
    using assms
    by (auto simp: remove_block_def Let_def abs_of_def in_blocks_pair_in split: option.splits)
qed

lemma remove_block_ok:
  "healthy s \<Longrightarrow> snd (remove_block a b s) = None"
  by (simp add: remove_block_def Let_def split: option.splits)

lemma abs_remove_block_by_rkey:
  assumes "healthy s"
  shows "abs_of (fst (remove_block_by_rkey a r s)) = abs_step (RemoveBlockByRKey a r) (abs_of s)"
proof (cases "nested_get (blocks_by_rkey s) a r = []")
  case True
  then show ?thesis by (simp add: remove_block_by_rkey_def) (simp add: abs_of_def)
next
  case False
  let ?b = "nested_get (blocks_by_rkey s) a r"
  obtain s1 where s1: "remove_block a ?b s = (s1, None)"
    using remove_block_ok [OF assms] by (metis prod.collapse)
  have "abs_of s1 = abs_step (RemoveBlock a ?b) (abs_of s)"
    using abs_remove_block [OF assms, of a ?b] by (simp add: s1)
  then show ?thesis
    using False s1
    by (simp add: remove_block_by_rkey_def)
      (simp add: abs_of_def in_blocks_pair_in fun_eq_iff nested_get_delete)
qed

lemma abs_mark:
  "healthy s \<Longrightarrow>
   abs_of (fst (mark_blocks_backfilled a s)) = abs_step (MarkBlocksBackfilled a) (abs_of s)"
  by (auto simp: mark_blocks_backfilled_def Let_def abs_of_def in_blocks_def)

lemma abs_add_verification:
  assumes "healthy s"
  shows "abs_of (fst (add_verification v j r s)) = abs_step (AddVerification v j r) (abs_of s)"
proof -
  have "nested_get ((verifs_by_rkey s)(v \<mapsto>
        (case verifs_by_rkey s v of None \<Rightarrow> Map.empty | Some k \<Rightarrow> k)(r \<mapsto> j)))
      = (nested_get (verifs_by_rkey s))(v := (nested_get (verifs_by_rkey s) v)(r := j))"
    by (simp add: fun_eq_iff nested_get_upd)
  then show ?thesis
    using assms by (simp add: add_verification_def Let_def abs_of_def in_blocks_pair_in)
qed

lemma abs_remove_verification:
  "healthy s \<Longrightarrow> abs_of (fst (remove_verification_by_rkey v r s)) =
     abs_step (RemoveVerificationByRKey v r) (abs_of s)"
  by (auto simp: remove_verification_by_rkey_def Let_def abs_of_def in_blocks_def
      nested_get_delete fun_eq_iff)

lemma abs_store_step:
  "store_inv s \<Longrightarrow> healthy s \<Longrightarrow> abs_of (store_step op s) = abs_step op (abs_of s)"
  by (cases op)
    (simp_all add: abs_register abs_unregister abs_add_block abs_remove_block
      abs_remove_block_by_rkey abs_mark abs_add_verification abs_remove_verification
      del: abs_step.simps)

subsection \<open>Queries\<close>

lemma get_tokens_ok:
  "healthy s \<Longrightarrow>
   snd (get_tokens_for_did did s) = Inr (filter (\<lambda>r. pt_actor r = did) (push_tokens s))"
  by (simp add: get_tokens_for_did_def Let_def)

lemma is_registered_iff:
  "store_inv s \<Longrightarrow>
   is_registered did s \<longleftrightarrow> filter (\<lambda>r. pt_actor r = did) (push_tokens s) \<noteq> []"
  by (auto simp: is_registered_def store_inv_def mem_coherent_def filter_empty_conv image_iff)

lemma is_registered_abs:
  "store_inv s \<Longrightarrow> is_registered did s \<longleftrightarrow> (\<exists>tok. (did, tok) \<in> dom (a_tokens (abs_of s)))"
  by (auto simp: is_registered_def store_inv_def mem_coherent_def abs_of_def dom_table_map
      token_key_def image_iff)

lemma is_blocked_abs:
  "is_blocked a b s \<longleftrightarrow> (a, b) \<in> a_blocks (abs_of s) \<or> (b, a) \<in> a_blocks (abs_of s)"
  by (auto simp: is_blocked_def abs_of_def)

lemma is_blocked_sym: "is_blocked a b s = is_blocked b a s"
  by (auto simp: is_blocked_def)

lemma fetch_rows_prefix: "prefix (fst (fetch_rows rs s)) rs"
proof (induction rs arbitrary: s)
  case (Cons r rs)
  then show ?case
    by (cases "fetch_rows rs (s\<lparr>db_calls := Suc (db_calls s)\<rparr>)")
      (auto simp: db_call_def Let_def, metis fst_conv)
qed simp

subsection \<open>Restart\<close>

lemma load_block_fields [simp]:
  "push_tokens (load_block r s) = push_tokens s" "block_rows (load_block r s) = block_rows s"
  "verif_rows (load_block r s) = verif_rows s" "db_faults (load_block r s) = db_faults s"
  "backfilled_rows (load_block r s) = backfilled_rows s" "db_calls (load_block r s) = db_calls s"
  "endpoint_rows (load_block r s) = endpoint_rows s"
  "registered_dids (load_block r s) = registered_dids s"
  "verifs_by_rkey (load_block r s) = verifs_by_rkey s"
  by (simp_all add: load_block_def Let_def)

lemma load_blocks_fields [simp]:
  "push_tokens (fold load_block bs s) = push_tokens s"
  "block_rows (fold load_block bs s) = block_rows s"
  "verif_rows (fold load_block bs s) = verif_rows s"
  "db_faults (fold load_block bs s) = db_faults s"
  "backfilled_rows (fold load_block bs s) = backfilled_rows s"
  "endpoint_rows (fold load_block bs s) = endpoint_rows s"
  "registered_dids (fold load_block bs s) = registered_dids s"
  "verifs_by_rkey (fold load_block bs s) = verifs_by_rkey s"
  by (induction bs arbitrary: s) simp_all

lemma load_block_pairs:
  "pair_in (blocks (load_block r s)) a b \<longleftrightarrow>
     (a = b_blocker r \<and> b = b_blocked r) \<or> pair_in (blocks s) a b"
  by (simp add: load_block_def Let_def pair_in_upd)

lemma load_blocks_pairs:
  "pair_in (blocks (fold load_block bs s)) a b \<longleftrightarrow>
     (a, b) \<in> (\<lambda>r. (b_blocker r, b_blocked r)) ` set bs \<or> pair_in (blocks s) a b"
  by (induction bs arbitrary: s) (auto simp: load_block_pairs)

lemma load_verif_fields [simp]:
  "push_tokens (load_verif r s) = push_tokens s" "block_rows (load_verif r s) = block_rows s"
  "verif_rows (load_verif r s) = verif_rows s" "db_faults (load_verif r s) = db_faults s"
  "backfilled_rows (load_verif r s) = backfilled_rows s" "blocks (load_verif r s) = blocks s"
  "endpoint_rows (load_verif r s) = endpoint_rows s"
  "registered_dids (load_verif r s) = registered_dids s"
  by (simp_all add: load_verif_def Let_def)

lemma load_verifs_fields [simp]:
  "push_tokens (fold load_verif vs s) = push_tokens s"
  "block_rows (fold load_verif vs s) = block_rows s"
  "verif_rows (fold load_verif vs s) = verif_rows s"
  "db_faults (fold load_verif vs s) = db_faults s"
  "backfilled_rows (fold load_verif vs s) = backfilled_rows s"
  "endpoint_rows (fold load_verif vs s) = endpoint_rows s"
  "registered_dids (fold load_verif vs s) = registered_dids s"
  "blocks (fold load_verif vs s) = blocks s"
  by (induction vs arbitrary: s) simp_all

lemma load_verif_get:
  "nested_get (verifs_by_rkey (load_verif r s)) v k =
     (if v = v_verifier r \<and> k = v_rkey r then v_subject r else nested_get (verifs_by_rkey s) v k)"
  by (simp add: load_verif_def Let_def nested_get_upd)

lemma nested_get_empty [simp]: "nested_get Map.empty a k = []"
  by (simp add: nested_get_def)

lemma pair_in_empty [simp]: "\<not> pair_in Map.empty a b"
  by (simp add: pair_in_def)

lemma load_verifs_get:
  assumes "distinct (map verif_key vs)"
  shows "nested_get (verifs_by_rkey (fold load_verif vs s)) v k =
     (case table_map verif_key v_subject vs (v, k) of
        None \<Rightarrow> nested_get (verifs_by_rkey s) v k | Some j \<Rightarrow> j)"
  using assms
proof (induction vs arbitrary: s)
  case Nil
  then show ?case by simp
next
  case (Cons r vs)
  have "table_map verif_key v_subject vs (verif_key r) = None"
    using Cons.prems by (simp add: table_map_None_iff)
  then show ?case
    using Cons by (auto simp: load_verif_get table_map_def verif_key_def split: option.splits)
qed

lemma healthy_loads [simp]:
  "healthy (fold load_block bs s) = healthy s" "healthy (fold load_verif vs s) = healthy s"
  by (simp_all add: healthy_def)

definition empty_store_on :: "db \<Rightarrow> store" where
  "empty_store_on d = db.extend d (store.fields {} Map.empty Map.empty Map.empty)"

lemma empty_store_on_fields [simp]:
  "push_tokens (empty_store_on d) = push_tokens d" "block_rows (empty_store_on d) = block_rows d"
  "verif_rows (empty_store_on d) = verif_rows d" "db_faults (empty_store_on d) = db_faults d"
  "backfilled_rows (empty_store_on d) = backfilled_rows d"
  "endpoint_rows (empty_store_on d) = endpoint_rows d"
  "registered_dids (empty_store_on d) = {}" "blocks (empty_store_on d) = Map.empty"
  "blocks_by_rkey (empty_store_on d) = Map.empty"
  "verifs_by_rkey (empty_store_on d) = Map.empty"
  by (simp_all add: empty_store_on_def db.defs store.defs)

lemma open_store_ok:
  assumes "healthy d"
  shows "\<exists>s'. open_store d = Inr s' \<and> healthy s' \<and>
    push_tokens s' = push_tokens d \<and> block_rows s' = block_rows d \<and>
    verif_rows s' = verif_rows d \<and> backfilled_rows s' = backfilled_rows d \<and>
    endpoint_rows s' = endpoint_rows d \<and>
    registered_dids s' = pt_actor ` set (push_tokens d) \<and>
    (\<forall>a b. pair_in (blocks s') a b \<longleftrightarrow> (a, b) \<in> block_pairs d) \<and>
    (distinct (map verif_key (verif_rows d)) \<longrightarrow>
      (\<forall>v k. nested_get (verifs_by_rkey s') v k = get_or_empty (verif_table d (v, k))))"
proof -
  have h: "healthy (empty_store_on (d\<lparr>db_calls := n\<rparr>))" for n
    using assms by (simp add: healthy_def)
  show ?thesis
    using assms h
    unfolding open_store_def load_into_memory_def empty_store_on_def [symmetric]
    by (simp add: Let_def load_blocks_pairs load_verifs_get block_pairs_def verif_table_def
        get_or_empty_def split: option.split)
qed

text \<open>
  Everything but the record-key index of the blocks survives a restart: the reopened store
  satisfies the invariant and has the same tokens, blocks, verifications and backfill marks.
\<close>

lemma restart_abs:
  assumes "store_inv s" and "healthy s"
  shows "\<exists>s'. open_store (db.truncate s) = Inr s' \<and> healthy s' \<and> store_inv s' \<and>
    push_tokens s' = push_tokens s \<and> abs_of s' = (abs_of s)\<lparr>a_rkeys := a_rkeys (abs_of s')\<rparr>"
proof -
  have t: "push_tokens (db.truncate s) = push_tokens s" "block_rows (db.truncate s) = block_rows s"
    "verif_rows (db.truncate s) = verif_rows s" "healthy (db.truncate s)"
    "backfilled_rows (db.truncate s) = backfilled_rows s"
    using assms(2) by (simp_all add: db.defs healthy_def)
  obtain s' where s': "open_store (db.truncate s) = Inr s'" "healthy s'"
    "push_tokens s' = push_tokens s" "block_rows s' = block_rows s" "verif_rows s' = verif_rows s"
    "backfilled_rows s' = backfilled_rows s" "registered_dids s' = pt_actor ` set (push_tokens s)"
    "\<forall>a b. pair_in (blocks s') a b \<longleftrightarrow> (a, b) \<in> block_pairs (db.truncate s)"
    "distinct (map verif_key (verif_rows s)) \<longrightarrow>
      (\<forall>v k. nested_get (verifs_by_rkey s') v k = get_or_empty (verif_table (db.truncate s) (v, k)))"
    using open_store_ok [OF t(4)] t by auto
  have bp: "block_pairs (db.truncate s) = block_pairs s" "block_pairs s' = block_pairs s"
    and vt: "verif_table (db.truncate s) = verif_table s" "verif_table s' = verif_table s"
    using t s' by (simp_all add: block_pairs_def verif_table_def)
  have inv: "store_inv s'"
    using assms(1) s' bp vt
    by (simp add: store_inv_def tables_wf_def mem_coherent_def in_blocks_pair_in)
  have "abs_of s' = (abs_of s)\<lparr>a_rkeys := a_rkeys (abs_of s')\<rparr>"
    using assms(1) s' bp vt
    by (simp add: abs_of_def store_inv_def tables_wf_def mem_coherent_def in_blocks_pair_in
        fun_eq_iff)
  with s'(1,2,3) inv show ?thesis by blast
qed

end
