(* ===== verification/Store_Theorems.thy ===== *)
theory Store_Theorems
  imports Store_Refinement
begin

text \<open>
  The properties of the store: it implements its abstract specification from an empty
  database on, the tables are well formed under every driver behaviour, a restart is not
  observable through the registration, block and verification queries, and the life cycle of
  a block. The last section holds the behaviours where the indexes and the tables part.
\<close>

definition fresh_db :: db where
  "fresh_db = \<lparr>push_tokens = [], block_rows = [], verif_rows = [], backfilled_rows = [],
     endpoint_rows = [], db_faults = (\<lambda>_. False), db_calls = 0,
     db_clock = (\<lambda>_. []), rand_source = (\<lambda>_. None), rand_calls = 0\<rparr>"

definition abs_empty :: abs_store where
  "abs_empty = \<lparr>a_tokens = Map.empty, a_blocks = {}, a_rkeys = (\<lambda>_ _. []),
     a_verifs = (\<lambda>_ _. []), a_backfilled = {}\<rparr>"

definition fresh_store :: store where
  "fresh_store = (empty_store_on fresh_db)\<lparr>db_calls := 4\<rparr>"

lemma open_fresh: "open_store fresh_db = Inr fresh_store"
  by (simp add: open_store_def load_into_memory_def fresh_db_def db_call_def Let_def
      fresh_store_def empty_store_on_def db.defs store.defs)

lemma fresh_store_inv: "store_inv fresh_store" "healthy fresh_store"
  by (simp_all add: fresh_store_def store_inv_def tables_wf_def mem_coherent_def in_blocks_def
      block_pairs_def verif_table_def get_or_empty_def healthy_def fresh_db_def)

lemma fresh_store_tokens: "push_tokens fresh_store = []"
  by (simp add: fresh_store_def fresh_db_def)

lemma abs_fresh: "abs_of fresh_store = abs_empty"
  by (simp add: abs_of_def abs_empty_def fresh_store_def fresh_db_def in_blocks_def fun_eq_iff)

lemma abs_run_ops:
  "store_inv s \<Longrightarrow> healthy s \<Longrightarrow> abs_of (run_ops ops s) = fold abs_step ops (abs_of s)"
  by (induction ops arbitrary: s) (simp_all add: store_step_inv abs_store_step)

subsection \<open>The store implements its specification\<close>

text \<open>
  C9: From an empty database, any sequence of store operations whose driver calls succeed
  leaves the store in the state the abstract specification computes (tokens keyed by account
  and token, a set of blocked pairs, the record-key indexes, the backfill marks), and in a
  state where the in-memory indexes agree with the tables.
\<close>

theorem store_refines_spec:
  "\<exists>s0. open_store fresh_db = Inr s0 \<and>
     (\<forall>ops. abs_of (run_ops ops s0) = fold abs_step ops abs_empty \<and> store_inv (run_ops ops s0))"
  using fresh_store_inv
  by (simp add: open_fresh abs_run_ops abs_fresh run_ops_inv)

text \<open>
  C13: Whatever calls the database driver fails, every operation other than
  \<open>UnregisterToken\<close> keeps the whole store invariant: an error return leaves the tables
  and the indexes in agreement.
\<close>

theorem store_inv_any_fault:
  assumes "store_inv s" and "\<not> is_unregister op"
  shows "store_inv (store_step op s)"
  using assms by (rule store_step_inv_faulty)

theorem store_inv_any_fault_witness:
  "store_inv (store_step (RegisterToken ''did:plc:a'' ''ios'' ''t'' ''app'')
     (fresh_store\<lparr>db_faults := (\<lambda>n. n = 5)\<rparr>))"
proof (rule store_inv_any_fault)
  show "store_inv (fresh_store\<lparr>db_faults := (\<lambda>n. n = 5)\<rparr>)"
    using fresh_store_inv(1)
    by (simp add: store_inv_def tables_wf_def mem_coherent_def in_blocks_def block_pairs_def
        verif_table_def)
qed simp

text \<open>
  C11: No account ever holds more than twenty push tokens, and no (account, token) pair is
  stored twice, after any sequence of operations under any pattern of driver failures.
\<close>

theorem token_cap:
  assumes "tables_wf s"
  shows "length (filter (\<lambda>t. pt_actor t = did) (push_tokens (run_ops ops s))) \<le> 20 \<and>
    distinct (map token_key (push_tokens (run_ops ops s)))"
  using tables_wf_run [OF assms, of ops]
  by (simp add: tables_wf_def max_tokens_per_did_def)

theorem token_cap_witness:
  "length (filter (\<lambda>t. pt_actor t = ''d'') (push_tokens (run_ops
     [RegisterToken ''d'' ''ios'' ''t'' ''app'', RegisterToken ''d'' ''web'' ''t'' ''app'']
     (fresh_store\<lparr>db_faults := (\<lambda>n. n = 6)\<rparr>)))) \<le> 20"
  by (rule token_cap [THEN conjunct1])
    (simp add: tables_wf_def fresh_store_def fresh_db_def)

text \<open>
  \<open>RegisterToken\<close> on a healthy database, on every branch: with twenty other tokens it
  refuses and changes no token; with a platform the schema does not allow it refuses; otherwise
  the account is registered, the token is stored with its new platform and app id in place of
  the old row, and every other row is as before.
\<close>

theorem register_token_branches:
  assumes "healthy s"
  shows "case register_token a p t i s of
      (s', Some e) \<Rightarrow>
        push_tokens s' = push_tokens s \<and> registered_dids s' = registered_dids s \<and>
        (e = TooManyTokens a (other_tokens a t (push_tokens s)) \<and>
           20 \<le> other_tokens a t (push_tokens s) \<or>
         e = ConstraintFailed \<and> other_tokens a t (push_tokens s) < 20 \<and> p \<notin> token_platforms)
    | (s', None) \<Rightarrow>
        other_tokens a t (push_tokens s) < 20 \<and> p \<in> token_platforms \<and> is_registered a s' \<and>
        \<lparr>pt_actor = a, pt_platform = p, pt_token = t, pt_app = i\<rparr> \<in> set (push_tokens s') \<and>
        filter (\<lambda>r. token_key r = (a, t)) (push_tokens s') =
          [\<lparr>pt_actor = a, pt_platform = p, pt_token = t, pt_app = i\<rparr>] \<and>
        filter (\<lambda>r. token_key r \<noteq> (a, t)) (push_tokens s') =
          filter (\<lambda>r. token_key r \<noteq> (a, t)) (push_tokens s)"
  using assms
  by (simp add: register_token_def Let_def max_tokens_per_did_def is_registered_def
      upsert_token_def token_key_def)

theorem register_token_branches_witness:
  "\<exists>s'. register_token ''d'' ''ios'' ''t'' ''app'' fresh_store = (s', None) \<and> is_registered ''d'' s'"
  using register_token_branches [OF fresh_store_inv(2),
      where a = "''d''" and p = "''ios''" and t = "''t''" and i = "''app''"]
  by (simp add: register_token_def fresh_store_inv(2) Let_def other_tokens_def
      max_tokens_per_did_def token_platforms_def is_registered_def fresh_store_tokens)

subsection \<open>Restart\<close>

lemma restart_same:
  assumes s: "store_inv s" "healthy s"
  shows "\<exists>s'. open_store (db.truncate s) = Inr s' \<and> store_inv s' \<and>
      (\<forall>d. is_registered d s' = is_registered d s) \<and>
      (\<forall>a b. is_blocked a b s' = is_blocked a b s) \<and>
      (\<forall>d. snd (get_tokens_for_did d s') = snd (get_tokens_for_did d s)) \<and>
      (\<forall>v r. snd (remove_verification_by_rkey v r s') =
             snd (remove_verification_by_rkey v r s)) \<and>
      (\<forall>a. snd (mark_blocks_backfilled a s') = snd (mark_blocks_backfilled a s))"
proof -
  obtain s' where s': "open_store (db.truncate s) = Inr s'" "healthy s'" "store_inv s'"
    and abs: "abs_of s' = (abs_of s)\<lparr>a_rkeys := a_rkeys (abs_of s')\<rparr>"
    and toks: "push_tokens s' = push_tokens s"
    using restart_abs [OF s] by blast
  have "a_tokens (abs_of s') = a_tokens (abs_of s)" "a_blocks (abs_of s') = a_blocks (abs_of s)"
    "a_verifs (abs_of s') = a_verifs (abs_of s)"
    "a_backfilled (abs_of s') = a_backfilled (abs_of s)"
    by (subst abs, simp)+
  then show ?thesis
    using s s' toks
    by (intro exI [of _ s'])
      (simp add: is_registered_abs is_blocked_abs get_tokens_ok remove_verification_by_rkey_def
        mark_blocks_backfilled_def Let_def abs_of_def fun_eq_iff)
qed

text \<open>
  C10: Closing the gateway and opening its database again is not observable through
  \<open>IsRegistered\<close>, \<open>IsBlocked\<close>, \<open>GetTokensForDID\<close>, the backfill marks or the
  removal of verifications, after any sequence of operations on a healthy database.
\<close>

theorem restart_unobservable:
  "\<exists>s0. open_store fresh_db = Inr s0 \<and>
     (\<forall>ops. let s = run_ops ops s0 in
        \<exists>s'. open_store (db.truncate s) = Inr s' \<and> store_inv s' \<and>
          (\<forall>d. is_registered d s' = is_registered d s) \<and>
          (\<forall>a b. is_blocked a b s' = is_blocked a b s) \<and>
          (\<forall>d. snd (get_tokens_for_did d s') = snd (get_tokens_for_did d s)) \<and>
          (\<forall>v r. snd (remove_verification_by_rkey v r s') =
                 snd (remove_verification_by_rkey v r s)) \<and>
          (\<forall>a. snd (mark_blocks_backfilled a s') = snd (mark_blocks_backfilled a s)))"
  using fresh_store_inv by (simp add: open_fresh Let_def run_ops_inv restart_same)

subsection \<open>Life cycle of a block\<close>

fun touches_blocks_of :: "string \<Rightarrow> store_op \<Rightarrow> bool" where
  "touches_blocks_of a (AddBlock x _ _) = (x = a)"
| "touches_blocks_of a (RemoveBlock x _) = (x = a)"
| "touches_blocks_of a (RemoveBlockByRKey x _) = (x = a)"
| "touches_blocks_of a _ = False"

lemma abs_step_frame:
  assumes "\<not> touches_blocks_of a op"
  shows "a_rkeys (abs_step op m) a = a_rkeys m a"
    and "(a, x) \<in> a_blocks (abs_step op m) \<longleftrightarrow> (a, x) \<in> a_blocks m"
  using assms by (cases op; auto)+

lemma fold_abs_frame:
  assumes "\<forall>op \<in> set ops. \<not> touches_blocks_of a op"
  shows "a_rkeys (fold abs_step ops m) a = a_rkeys m a \<and>
    ((a, x) \<in> a_blocks (fold abs_step ops m) \<longleftrightarrow> (a, x) \<in> a_blocks m)"
  using assms by (induction ops arbitrary: m) (simp_all add: abs_step_frame)

lemma abs_fields:
  "a_rkeys (abs_of s) a r = nested_get (blocks_by_rkey s) a r"
  "(a, b) \<in> a_blocks (abs_of s) \<longleftrightarrow> in_blocks a b s"
  by (simp_all add: abs_of_def)

text \<open>
  C19: After \<open>AddBlock(a, b, r)\<close> the pair is blocked in both directions, whatever other
  accounts do meanwhile; removing the record \<open>r\<close> then reports \<open>b\<close> and lifts the block,
  unless \<open>b\<close> has blocked \<open>a\<close> as well.
\<close>

theorem block_lifecycle:
  assumes "store_inv s" and "healthy s" and "b \<noteq> []" and "r \<noteq> []" and "a \<noteq> b"
    and "\<forall>op \<in> set ops. \<not> touches_blocks_of a op"
  shows "let s1 = run_ops ops (store_step (AddBlock a b r) s) in
    is_blocked a b s1 \<and> is_blocked b a s1 \<and>
    snd (remove_block_by_rkey a r s1) = Inr b \<and>
    (is_blocked a b (fst (remove_block_by_rkey a r s1)) \<longleftrightarrow> in_blocks b a s1)"
proof -
  define s1 where "s1 = run_ops ops (store_step (AddBlock a b r) s)"
  have h: "healthy s1" and i: "store_inv s1"
    using assms by (simp_all add: s1_def store_step_inv run_ops_inv del: store_step.simps)
  have abs1: "abs_of s1 = fold abs_step ops (abs_step (AddBlock a b r) (abs_of s))"
    using assms
    by (simp add: s1_def abs_run_ops store_step_inv abs_store_step
        del: store_step.simps abs_step.simps)
  have key: "nested_get (blocks_by_rkey s1) a r = b"
    using fold_abs_frame [OF assms(6)] assms(4) by (simp add: abs_fields(1) [symmetric] abs1)
  have "(a, b) \<in> a_blocks (abs_of s1)"
    using fold_abs_frame [OF assms(6)] by (simp add: abs1)
  then have blk: "is_blocked a b s1" "is_blocked b a s1" by (simp_all add: is_blocked_abs)
  have res: "snd (remove_block_by_rkey a r s1) = Inr b"
    using key assms(3) remove_block_ok [OF h, of a b]
    by (auto simp: remove_block_by_rkey_def split: prod.splits)
  have "abs_of (fst (remove_block_by_rkey a r s1)) = abs_step (RemoveBlockByRKey a r) (abs_of s1)"
    by (rule abs_remove_block_by_rkey [OF h])
  then have "is_blocked a b (fst (remove_block_by_rkey a r s1)) \<longleftrightarrow> in_blocks b a s1"
    using key assms(3,5) by (auto simp: is_blocked_abs abs_fields)
  with blk res show ?thesis unfolding s1_def [symmetric] Let_def by blast
qed

theorem block_lifecycle_witness:
  "let s1 = run_ops [AddBlock ''b'' ''c'' ''k'', RegisterToken ''a'' ''ios'' ''t'' ''x'']
      (store_step (AddBlock ''a'' ''b'' ''r'') fresh_store) in
    is_blocked ''a'' ''b'' s1 \<and> is_blocked ''b'' ''a'' s1 \<and>
    snd (remove_block_by_rkey ''a'' ''r'' s1) = Inr ''b'' \<and>
    (is_blocked ''a'' ''b'' (fst (remove_block_by_rkey ''a'' ''r'' s1)) \<longleftrightarrow> in_blocks ''b'' ''a'' s1)"
  using fresh_store_inv by (intro block_lifecycle) simp_all

subsection \<open>Where the indexes and the records part\<close>

text \<open>
  When an account holds two block records for the same person, deleting either record lifts
  the block although the other record still stands: blocks are indexed by pair, and the key of
  the surviving record stays in the index.
\<close>

theorem second_block_record_ignored:
  assumes "store_inv s" and "healthy s" and "b \<noteq> []" and "a \<noteq> b" and "\<not> in_blocks b a s"
    and "r1 \<noteq> []" and "r2 \<noteq> []" and "r1 \<noteq> r2"
  shows "let s1 = run_ops [AddBlock a b r1, AddBlock a b r2, RemoveBlockByRKey a r1] s in
    \<not> is_blocked a b s1 \<and> nested_get (blocks_by_rkey s1) a r2 = b"
proof -
  define s1 where "s1 = run_ops [AddBlock a b r1, AddBlock a b r2, RemoveBlockByRKey a r1] s"
  have "abs_of s1 = fold abs_step [AddBlock a b r1, AddBlock a b r2, RemoveBlockByRKey a r1]
      (abs_of s)"
    unfolding s1_def by (rule abs_run_ops [OF assms(1,2)])
  then have "\<not> is_blocked a b s1" "a_rkeys (abs_of s1) a r2 = b"
    using assms by (auto simp: is_blocked_abs abs_fields)
  then show ?thesis unfolding s1_def [symmetric] Let_def by (simp add: abs_fields)
qed

theorem second_block_record_ignored_witness:
  "\<not> is_blocked ''a'' ''b'' (run_ops
     [AddBlock ''a'' ''b'' ''r1'', AddBlock ''a'' ''b'' ''r2'', RemoveBlockByRKey ''a'' ''r1'']
     fresh_store)"
proof -
  have "\<not> in_blocks ''b'' ''a'' fresh_store"
    by (simp add: in_blocks_def fresh_store_def)
  from second_block_record_ignored [OF fresh_store_inv _ _ this, of "''r1''" "''r2''"]
  show ?thesis by (simp add: Let_def del: run_ops_simps)
qed

text \<open>
  A restart forgets the second record key of a blocked pair: the table keeps one row per
  pair, with the key of the first record. Before the restart deleting record \<open>r2\<close> is
  recognised as lifting the block; after it the deletion is ignored and the pair stays blocked.
\<close>

theorem restart_forgets_second_rkey:
  "\<exists>s s'. s = run_ops [AddBlock ''a'' ''b'' ''r1'', AddBlock ''a'' ''b'' ''r2''] fresh_store \<and>
     open_store (db.truncate s) = Inr s' \<and>
     snd (remove_block_by_rkey ''a'' ''r2'' s) = Inr ''b'' \<and>
     snd (remove_block_by_rkey ''a'' ''r2'' s') = Inr [] \<and>
     is_blocked ''a'' ''b'' (fst (remove_block_by_rkey ''a'' ''r2'' s'))"
  by (simp add: add_block_def fresh_store_def fresh_db_def db_call_def Let_def open_store_def
      load_into_memory_def load_block_def db.defs store.defs remove_block_by_rkey_def
      remove_block_def nested_get_def is_blocked_def in_blocks_def)

text \<open>The database of the witness holds two tokens of one account.\<close>

definition two_tokens :: "(nat \<Rightarrow> bool) \<Rightarrow> store" where
  "two_tokens f = fresh_store\<lparr>db_faults := f, push_tokens :=
     [\<lparr>pt_actor = ''d'', pt_platform = ''ios'', pt_token = ''t1'', pt_app = ''x''\<rparr>,
      \<lparr>pt_actor = ''d'', pt_platform = ''ios'', pt_token = ''t2'', pt_app = ''x''\<rparr>],
     registered_dids := {''d''}\<rparr>"

text \<open>
  \<open>UnregisterToken\<close> ignores a failure of its count query and reads it as zero: the account
  then drops out of the in-memory index and gets no more notifications, although the call
  reports success and its other tokens are still stored.
\<close>

theorem unregister_count_failure:
  assumes "\<not> db_faults s (db_calls s)" and "db_faults s (Suc (db_calls s))"
  shows "\<exists>s'. unregister_token a p t i s = (s', None) \<and> \<not> is_registered a s' \<and>
    push_tokens s' = filter (\<lambda>r. r \<noteq> \<lparr>pt_actor = a, pt_platform = p, pt_token = t,
      pt_app = i\<rparr>) (push_tokens s)"
  using assms by (simp add: unregister_token_def db_call_def Let_def is_registered_def)

theorem unregister_count_failure_witness:
  "\<exists>s'. unregister_token ''d'' ''ios'' ''t1'' ''x'' (two_tokens (\<lambda>n. n = 5)) = (s', None) \<and>
     \<not> is_registered ''d'' s' \<and> push_tokens s' \<noteq> []"
  using unregister_count_failure [of "two_tokens (\<lambda>n. n = 5)" "''d''" "''ios''" "''t1''" "''x''"]
  by (auto simp: fresh_store_def two_tokens_def)

text \<open>
  \<open>GetTokensForDID\<close> never asks the driver whether the row loop ended by an error, so a
  driver failure in the middle of the rows yields a shorter list and no error. What it returns
  is always a prefix of the account's tokens, and on a healthy database all of them.
\<close>

theorem get_tokens_prefix:
  "case snd (get_tokens_for_did did s) of
     Inl e \<Rightarrow> e = DbError \<and> db_faults s (db_calls s)
   | Inr ts \<Rightarrow> prefix ts (filter (\<lambda>r. pt_actor r = did) (push_tokens s)) \<and>
       (healthy s \<longrightarrow> ts = filter (\<lambda>r. pt_actor r = did) (push_tokens s))"
  by (simp add: get_tokens_for_did_def db_call_def Let_def case_prod_beta fetch_rows_prefix
      healthy_def)

theorem get_tokens_prefix_witness:
  "\<exists>ts. snd (get_tokens_for_did ''d'' (two_tokens (\<lambda>n. n = 6))) = Inr ts \<and> length ts = 1 \<and>
     prefix ts (filter (\<lambda>r. pt_actor r = ''d'') (push_tokens (two_tokens (\<lambda>n. n = 6))))"
  using get_tokens_prefix [of "two_tokens (\<lambda>n. n = 6)" "''d''"]
  by (auto simp: get_tokens_for_did_def db_call_def Let_def two_tokens_def fresh_store_def)

end
