(* ===== verification/Store_Interleaving.thy ===== *)
theory Store_Interleaving
  imports Store_Contract
begin

text \<open>
  HTTP requests and dispatch workers call the store concurrently. \<open>RegisterToken\<close> and
  \<open>UnregisterToken\<close> hold the mutex only while they touch the in-memory set; the database
  work happens before, outside it. Here a call is a thread that moves through its atomic
  sections: the registration transaction and then the insertion into the set; the delete
  statement, the count query and then, if the count was zero, the removal from the set. SQLite
  makes each statement and each transaction atomic; which thread moves next is not determined.
  The driver may fail at any of them (\<open>SQLITE_BUSY\<close>): a registration is rolled back, a failed
  delete ends the call, and a count query whose error is ignored leaves the count at zero.
\<close>

datatype call =
    RegStart string string string string
  | RegCommitted string
  | UnregStart string string string string
  | UnregDeleted string
  | UnregEmpty string
  | Finished

type_synonym sys = "store \<times> call list"

definition tx_register :: "string \<Rightarrow> string \<Rightarrow> string \<Rightarrow> string \<Rightarrow> store \<Rightarrow> store option" where
  "tx_register a p t i s =
     (if other_tokens a t (push_tokens s) < max_tokens_per_did \<and> p \<in> token_platforms
      then Some (s\<lparr>push_tokens := upsert_token \<lparr>pt_actor = a, pt_platform = p, pt_token = t,
                    pt_app = i\<rparr> (push_tokens s)\<rparr>)
      else None)"

definition stmt_unregister :: "string \<Rightarrow> string \<Rightarrow> string \<Rightarrow> string \<Rightarrow> store \<Rightarrow> store" where
  "stmt_unregister a p t i s =
     s\<lparr>push_tokens := filter (\<lambda>r. r \<noteq> \<lparr>pt_actor = a, pt_platform = p, pt_token = t,
         pt_app = i\<rparr>) (push_tokens s)\<rparr>"

inductive call_step :: "store \<Rightarrow> call \<Rightarrow> store \<Rightarrow> call \<Rightarrow> bool" where
  reg_tx: "tx_register a p t i s = Some s' \<Longrightarrow>
     call_step s (RegStart a p t i) s' (RegCommitted a)"
| reg_refused: "tx_register a p t i s = None \<Longrightarrow> call_step s (RegStart a p t i) s Finished"
| reg_failed: "call_step s (RegStart a p t i) s Finished"
| reg_set: "call_step s (RegCommitted a)
     (s\<lparr>registered_dids := insert a (registered_dids s)\<rparr>) Finished"
| unreg_delete: "call_step s (UnregStart a p t i) (stmt_unregister a p t i s) (UnregDeleted a)"
| unreg_failed: "call_step s (UnregStart a p t i) s Finished"
| unreg_count_zero: "a \<notin> pt_actor ` set (push_tokens s) \<Longrightarrow>
     call_step s (UnregDeleted a) s (UnregEmpty a)"
| unreg_count_failed: "call_step s (UnregDeleted a) s (UnregEmpty a)"
| unreg_count_some: "a \<in> pt_actor ` set (push_tokens s) \<Longrightarrow>
     call_step s (UnregDeleted a) s Finished"
| unreg_set: "call_step s (UnregEmpty a)
     (s\<lparr>registered_dids := registered_dids s - {a}\<rparr>) Finished"

inductive_cases call_stepE: "call_step s c s' c'"

inductive sys_step :: "sys \<Rightarrow> sys \<Rightarrow> bool" where
  move: "n < length cs \<Longrightarrow> call_step s (cs ! n) s' c \<Longrightarrow> sys_step (s, cs) (s', cs[n := c])"

inductive reach :: "sys \<Rightarrow> sys \<Rightarrow> bool" for init :: sys where
  start: "reach init init"
| step: "reach init x \<Longrightarrow> sys_step x y \<Longrightarrow> reach init y"

subsection \<open>A thread that runs alone does what the sequential operation does\<close>

lemma register_sequential:
  assumes "\<And>n. \<not> db_faults s n"
  shows "fst (register_token a p t i s) = (case tx_register a p t i s of
      None \<Rightarrow> s\<lparr>db_calls := db_calls (fst (register_token a p t i s))\<rparr>
    | Some s' \<Rightarrow> s'\<lparr>db_calls := db_calls (fst (register_token a p t i s)),
        registered_dids := insert a (registered_dids s')\<rparr>)"
  using assms by (auto simp: register_token_def tx_register_def db_call_def Let_def)

subsection \<open>What every interleaving keeps\<close>

lemma call_step_tables:
  assumes "call_step s c s' c'" and "tables_wf s"
  shows "tables_wf s'"
  using assms
proof (cases rule: call_step.cases)
  case (reg_tx a p t i)
  then have few: "other_tokens a t (push_tokens s) < max_tokens_per_did" "p \<in> token_platforms"
    and s': "s' = s\<lparr>push_tokens := upsert_token \<lparr>pt_actor = a, pt_platform = p, pt_token = t,
        pt_app = i\<rparr> (push_tokens s)\<rparr>"
    by (auto simp: tx_register_def split: if_splits)
  have "register_token a p t i (s\<lparr>db_faults := (\<lambda>_. False)\<rparr>) =
     (s\<lparr>db_faults := (\<lambda>_. False), db_calls := db_calls s + 4,
        push_tokens := push_tokens s', registered_dids := insert a (registered_dids s)\<rparr>, None)"
    using few by (simp add: register_token_def db_call_def Let_def s')
  moreover have "tables_wf (s\<lparr>db_faults := (\<lambda>_. False)\<rparr>)"
    using assms(2) by (simp add: tables_wf_def)
  ultimately show ?thesis
    using register_token_wf [of "s\<lparr>db_faults := (\<lambda>_. False)\<rparr>" a p t i]
    by (simp add: tables_wf_def s')
next
  case (unreg_delete a p t i)
  have "tables_wf (fst (unregister_token a p t i (s\<lparr>db_faults := (\<lambda>_. False)\<rparr>)))"
    using assms(2) by (intro unregister_token_wf) (simp add: tables_wf_def)
  then show ?thesis
    using unreg_delete
    by (simp add: unregister_token_def db_call_def Let_def stmt_unregister_def tables_wf_def
        split: if_splits)
qed (simp_all add: tables_wf_def)

lemma reach_tables:
  assumes "reach (s0, cs0) x" and "tables_wf s0"
  shows "tables_wf (fst x)"
  using assms
  by (induction rule: reach.induct) (auto elim!: sys_step.cases intro: call_step_tables)

text \<open>
  An account is owed a place in the index while one of its registrations has committed and not
  yet inserted it; an unregistration can take the place away once it has started.
\<close>

fun unregisters :: "string \<Rightarrow> call \<Rightarrow> bool" where
  "unregisters a (UnregStart x _ _ _) = (x = a)"
| "unregisters a (UnregDeleted x) = (x = a)"
| "unregisters a (UnregEmpty x) = (x = a)"
| "unregisters a _ = False"

definition indexed_or_owed :: "string \<Rightarrow> sys \<Rightarrow> bool" where
  "indexed_or_owed a x \<longleftrightarrow>
     (\<forall>c \<in> set (snd x). \<not> unregisters a c) \<and>
     (a \<in> pt_actor ` set (push_tokens (fst x)) \<longrightarrow>
        a \<in> registered_dids (fst x) \<or> RegCommitted a \<in> set (snd x))"

lemma set_update_keep: "n < length cs \<Longrightarrow> y \<in> set cs \<Longrightarrow> y \<noteq> cs ! n \<Longrightarrow> y \<in> set (cs[n := c])"
  by (auto simp: in_set_conv_nth) (metis length_list_update nth_list_update_neq)

lemma sys_step_indexed:
  assumes "sys_step x y" and "indexed_or_owed a x"
  shows "indexed_or_owed a y"
  using assms
proof (cases rule: sys_step.cases)
  case (move n cs s s' c)
  from move(4) have nu: "\<not> unregisters a (cs ! n)"
    using assms(2) move(1,3) by (auto simp: indexed_or_owed_def)
  have others: "\<forall>d \<in> set (cs[n := c]). d = c \<or> d \<in> set cs"
    using set_update_subset_insert [of cs n c] by blast
  have cin: "c \<in> set (cs[n := c])" using move(3) by (simp add: set_update_memI)
  note keep = set_update_keep [OF move(3), of "RegCommitted a" c]
  note facts = assms(2) move nu others keep
  from move(4) show ?thesis
  proof (cases rule: call_step.cases)
    case (reg_tx b p t i)
    then have "push_tokens s' = upsert_token \<lparr>pt_actor = b, pt_platform = p, pt_token = t,
        pt_app = i\<rparr> (push_tokens s)" "registered_dids s' = registered_dids s"
      by (auto simp: tx_register_def split: if_splits)
    then show ?thesis
      using facts reg_tx cin
      by (auto simp: indexed_or_owed_def set_upsert_actor)
  next
    case reg_refused
    then show ?thesis using facts by (auto simp: indexed_or_owed_def)
  next
    case reg_failed
    then show ?thesis using facts by (auto simp: indexed_or_owed_def)
  next
    case unreg_failed
    then show ?thesis using facts by (auto simp: indexed_or_owed_def)
  next
    case (reg_set b)
    then show ?thesis using facts by (auto simp: indexed_or_owed_def)
  next
    case (unreg_delete b p t i)
    then show ?thesis using facts by (auto simp: indexed_or_owed_def stmt_unregister_def)
  next
    case unreg_count_zero
    then show ?thesis using facts by (auto simp: indexed_or_owed_def)
  next
    case unreg_count_failed
    then show ?thesis using facts by (auto simp: indexed_or_owed_def)
  next
    case unreg_count_some
    then show ?thesis using facts by (auto simp: indexed_or_owed_def)
  next
    case unreg_set
    then show ?thesis using facts by (auto simp: indexed_or_owed_def)
  qed
qed

lemma reach_indexed: "reach x0 x \<Longrightarrow> indexed_or_owed a x0 \<Longrightarrow> indexed_or_owed a x"
  by (induction rule: reach.induct) (auto intro: sys_step_indexed)

subsection \<open>Properties\<close>

text \<open>
  C12: However concurrent registrations and unregistrations interleave, the token table keeps its
  primary key and no account exceeds twenty tokens.
\<close>

theorem concurrent_token_cap:
  assumes "reach (s0, cs0) (s, cs)" and "tables_wf s0"
  shows "distinct (map token_key (push_tokens s)) \<and>
    length (filter (\<lambda>t. pt_actor t = did) (push_tokens s)) \<le> 20"
  using reach_tables [OF assms] by (simp add: tables_wf_def max_tokens_per_did_def)

definition no_tokens :: store where
  "no_tokens = \<lparr>push_tokens = [], block_rows = [], verif_rows = [], backfilled_rows = [],
     endpoint_rows = [], db_faults = (\<lambda>_. False), db_calls = 0,
     db_clock = (\<lambda>_. []), rand_source = (\<lambda>_. None), rand_calls = 0, registered_dids = {},
     blocks = Map.empty, blocks_by_rkey = Map.empty, verifs_by_rkey = Map.empty\<rparr>"

lemma moveI:
  "n < length cs \<Longrightarrow> cs ! n = c \<Longrightarrow> call_step s c s' c' \<Longrightarrow> sys_step (s, cs) (s', cs[n := c'])"
  using sys_step.move [of n cs s s' c'] by simp

lemma reg_move:
  assumes "n < length cs" and "cs ! n = RegStart a p t i"
    and "other_tokens a t (push_tokens s) < max_tokens_per_did" and "p \<in> token_platforms"
  shows "sys_step (s, cs) (s\<lparr>push_tokens := upsert_token \<lparr>pt_actor = a, pt_platform = p,
    pt_token = t, pt_app = i\<rparr> (push_tokens s)\<rparr>, cs[n := RegCommitted a])"
  using assms sys_step.move [OF assms(1), of s _ "RegCommitted a"]
  by (simp add: call_step.reg_tx tx_register_def)

lemma no_tokens_fields [simp]:
  "push_tokens no_tokens = []" "registered_dids no_tokens = {}"
  by (simp_all add: no_tokens_def)

definition one_token :: store where
  "one_token = no_tokens\<lparr>push_tokens :=
     [\<lparr>pt_actor = ''d'', pt_platform = ''ios'', pt_token = ''t'', pt_app = ''x''\<rparr>]\<rparr>"

lemma reach_one_token:
  "reach (no_tokens, [RegStart ''d'' ''ios'' ''t'' ''x'']) (one_token, [RegCommitted ''d''])"
proof -
  have "sys_step (no_tokens, [RegStart ''d'' ''ios'' ''t'' ''x''])
      (one_token, [RegCommitted ''d''])"
    using reg_move [of 0 "[RegStart ''d'' ''ios'' ''t'' ''x'']" "''d''" "''ios''" "''t''" "''x''"
        no_tokens]
    by (simp add: one_token_def upsert_token_def other_tokens_def max_tokens_per_did_def
        token_platforms_def)
  then show ?thesis by (rule reach.step [OF reach.start])
qed

theorem concurrent_token_cap_witness:
  "\<exists>s cs. reach (no_tokens, [RegStart ''d'' ''ios'' ''t'' ''x'']) (s, cs) \<and>
     length (push_tokens s) = 1 \<and>
     length (filter (\<lambda>t. pt_actor t = ''d'') (push_tokens s)) \<le> 20"
proof -
  have "tables_wf no_tokens" by (simp add: tables_wf_def no_tokens_def)
  from concurrent_token_cap [OF reach_one_token this, of "''d''"]
  have "length (filter (\<lambda>t. pt_actor t = ''d'') (push_tokens one_token)) \<le> 20" ..
  moreover have "length (push_tokens one_token) = 1" by (simp add: one_token_def)
  ultimately show ?thesis using reach_one_token by blast
qed

text \<open>
  C18: If no unregistration of an account is in flight, then once every concurrent call has
  finished the account is in the registered set whenever it has a stored token.
\<close>

theorem concurrent_registration_visible:
  assumes "reach (s0, cs0) (s, cs)" and "mem_coherent s0"
    and "\<forall>c \<in> set cs0. \<not> unregisters a c" and "\<forall>c \<in> set cs. c = Finished"
    and "a \<in> pt_actor ` set (push_tokens s)"
  shows "is_registered a s"
proof -
  have "indexed_or_owed a (s0, cs0)"
    using assms(2,3) by (simp add: indexed_or_owed_def mem_coherent_def)
  then have "indexed_or_owed a (s, cs)"
    by (rule reach_indexed [OF assms(1)])
  with assms(4,5) show ?thesis by (auto simp: indexed_or_owed_def is_registered_def)
qed

lemma set_move:
  assumes "n < length cs" and "cs ! n = RegCommitted a"
  shows "sys_step (s, cs) (s\<lparr>registered_dids := insert a (registered_dids s)\<rparr>, cs[n := Finished])"
  using assms sys_step.move [OF assms(1), of s _ Finished] by (simp add: call_step.reg_set)

theorem concurrent_registration_visible_witness:
  "\<exists>s. reach (no_tokens, [RegStart ''d'' ''ios'' ''t'' ''x'']) (s, [Finished]) \<and>
     is_registered ''d'' s"
proof -
  let ?s2 = "one_token\<lparr>registered_dids := insert ''d'' (registered_dids one_token)\<rparr>"
  have "sys_step (one_token, [RegCommitted ''d'']) (?s2, [Finished])"
    using set_move [of 0 "[RegCommitted ''d'']" "''d''" one_token] by simp
  then have r: "reach (no_tokens, [RegStart ''d'' ''ios'' ''t'' ''x'']) (?s2, [Finished])"
    by (rule reach.step [OF reach_one_token])
  have "mem_coherent no_tokens"
    by (simp add: mem_coherent_def no_tokens_def in_blocks_def block_pairs_def nested_get_def
        verif_table_def get_or_empty_def)
  then have "is_registered ''d'' ?s2"
    by (rule concurrent_registration_visible [OF r]) (simp_all add: one_token_def)
  with r show ?thesis by blast
qed

text \<open>
  C37: The registration of a new token can be lost to a concurrent unregistration of the
  account's last other token: the count query runs before the new row is committed and the
  removal from the set after the insertion. Both calls then have succeeded, the new token is
  stored, and the account gets no notifications until the next registration or restart.
\<close>

theorem registration_lost_to_race:
  "\<exists>s0 s. store_inv s0 \<and>
     reach (s0, [UnregStart ''d'' ''ios'' ''old'' ''x'', RegStart ''d'' ''ios'' ''new'' ''x''])
       (s, [Finished, Finished]) \<and>
     ''d'' \<in> pt_actor ` set (push_tokens s) \<and> \<not> is_registered ''d'' s"
proof -
  let ?old = "\<lparr>pt_actor = ''d'', pt_platform = ''ios'', pt_token = ''old'', pt_app = ''x''\<rparr>"
  let ?new = "\<lparr>pt_actor = ''d'', pt_platform = ''ios'', pt_token = ''new'', pt_app = ''x''\<rparr>"
  let ?u = "UnregStart ''d'' ''ios'' ''old'' ''x''"
  let ?r = "RegStart ''d'' ''ios'' ''new'' ''x''"
  let ?s0 = "no_tokens\<lparr>push_tokens := [?old], registered_dids := {''d''}\<rparr>"
  let ?s1 = "no_tokens\<lparr>push_tokens := [], registered_dids := {''d''}\<rparr>"
  let ?s2 = "no_tokens\<lparr>push_tokens := [?new], registered_dids := {''d''}\<rparr>"
  let ?s3 = "no_tokens\<lparr>push_tokens := [?new], registered_dids := {}\<rparr>"
  have 1: "sys_step (?s0, [?u, ?r]) (?s1, [UnregDeleted ''d'', ?r])"
    using moveI [of 0 "[?u, ?r]" ?u ?s0, OF _ _ call_step.unreg_delete]
    by (simp add: stmt_unregister_def no_tokens_def)
  have 2: "sys_step (?s1, [UnregDeleted ''d'', ?r]) (?s1, [UnregEmpty ''d'', ?r])"
    using moveI [of 0 "[UnregDeleted ''d'', ?r]" "UnregDeleted ''d''" ?s1,
        OF _ _ call_step.unreg_count_zero]
    by simp
  have 3: "sys_step (?s1, [UnregEmpty ''d'', ?r]) (?s2, [UnregEmpty ''d'', RegCommitted ''d''])"
    using reg_move [of 1 "[UnregEmpty ''d'', ?r]" "''d''" "''ios''" "''new''" "''x''" ?s1]
    by (simp add: no_tokens_def other_tokens_def max_tokens_per_did_def token_platforms_def
        upsert_token_def)
  have 4: "sys_step (?s2, [UnregEmpty ''d'', RegCommitted ''d''])
      (?s2, [UnregEmpty ''d'', Finished])"
    using set_move [of 1 "[UnregEmpty ''d'', RegCommitted ''d'']" "''d''" ?s2]
    by (simp add: no_tokens_def)
  have 5: "sys_step (?s2, [UnregEmpty ''d'', Finished]) (?s3, [Finished, Finished])"
    using moveI [of 0 "[UnregEmpty ''d'', Finished]" "UnregEmpty ''d''" ?s2,
        OF _ _ call_step.unreg_set]
    by (simp add: no_tokens_def)
  have "reach (?s0, [?u, ?r]) (?s3, [Finished, Finished])"
    by (rule reach.step [OF reach.step [OF reach.step [OF reach.step [OF
            reach.step [OF reach.start 1] 2] 3] 4] 5])
  moreover have "store_inv ?s0"
    by (simp add: store_inv_def tables_wf_def mem_coherent_def no_tokens_def in_blocks_def
        block_pairs_def nested_get_def verif_table_def get_or_empty_def token_platforms_def
        max_tokens_per_did_def)
  ultimately show ?thesis
    by (intro exI [of _ ?s0] exI [of _ ?s3]) (simp add: is_registered_def)
qed

end
