(* ===== verification/Push_Types.thy ===== *)
theory Push_Types
  imports Gateway_Prelude
begin

text \<open>
  The types the senders and their clients share (\<open>internal/push/push.go\<close>): the notification
  with its data map (an association list with distinct keys), the two kinds of failure a client
  distinguishes, and the interface \<open>Sender\<close>, a function that changes the world \<open>'w\<close> behind it.
\<close>

record notification =
  n_token :: string
  n_platform :: string
  n_title :: string
  n_body :: string
  n_data :: "(string \<times> string) list"

text \<open>\<open>TokenInvalid\<close> is an error that wraps \<open>ErrTokenInvalid\<close>.\<close>

datatype send_error =
    TokenInvalid string
  | SendFailed string

type_synonym 'w sender = "notification \<Rightarrow> 'w \<Rightarrow> 'w \<times> send_error option"

text \<open>A sender that keeps what it was given, for the examples.\<close>

definition recording_sender ::
  "(notification \<Rightarrow> send_error option) \<Rightarrow> notification list sender" where
  "recording_sender answer n sent = (sent @ [n], answer n)"

end
