(* ===== verification/Go_Strings.thy ===== *)
theory Go_Strings
  imports Gateway_Prelude
begin

text \<open>
  The functions of Go's \<open>strings\<close> package the gateway uses. A Go string is a sequence of
  bytes, and so is an Isabelle \<open>string\<close>; \<open>len(s)\<close> is \<open>length s\<close> and
  \<open>s[i:]\<close> is \<open>drop i s\<close>. Separators in this program are single ASCII bytes.
\<close>

subsection \<open>Prefixes, substrings, positions\<close>

definition has_prefix :: "string \<Rightarrow> string \<Rightarrow> bool" where
  "has_prefix s p \<longleftrightarrow> prefix p s"

definition trim_prefix :: "string \<Rightarrow> string \<Rightarrow> string" where
  "trim_prefix s p = (if has_prefix s p then drop (length p) s else s)"

definition contains_str :: "string \<Rightarrow> string \<Rightarrow> bool" where
  "contains_str s sub \<longleftrightarrow> sublist sub s"

text \<open>\<open>strings.LastIndex(s, c)\<close>; \<open>None\<close> is the result \<open>-1\<close>.\<close>

definition last_index :: "char \<Rightarrow> string \<Rightarrow> nat option" where
  "last_index c s =
     (if c \<in> set s then Some (length s - Suc (length (takeWhile (\<lambda>x. x \<noteq> c) (rev s))))
      else None)"

text \<open>\<open>strings.Cut(s, c)\<close>: what is before and after the first \<open>c\<close>, and whether it occurs.\<close>

definition cut_at :: "char \<Rightarrow> string \<Rightarrow> string \<times> string \<times> bool" where
  "cut_at c s =
     (if c \<in> set s
      then (takeWhile (\<lambda>x. x \<noteq> c) s, tl (dropWhile (\<lambda>x. x \<noteq> c) s), True)
      else (s, [], False))"

text \<open>\<open>strings.Split(s, c)\<close>: never empty, and \<open>[s]\<close> when \<open>c\<close> does not occur.\<close>

fun split_on :: "char \<Rightarrow> string \<Rightarrow> string list" where
  "split_on c [] = [[]]"
| "split_on c (x # xs) =
     (if x = c then [] # split_on c xs
      else (case split_on c xs of [] \<Rightarrow> [[x]] | y # ys \<Rightarrow> (x # y) # ys))"

text \<open>\<open>strings.ReplaceAll(s, old, new)\<close> for one byte.\<close>

definition replace_char :: "char \<Rightarrow> char \<Rightarrow> string \<Rightarrow> string" where
  "replace_char old new s = map (\<lambda>x. if x = old then new else x) s"

text \<open>\<open>strings.TrimRight(s, c)\<close> for one byte.\<close>

definition trim_right_char :: "char \<Rightarrow> string \<Rightarrow> string" where
  "trim_right_char c s = rev (dropWhile (\<lambda>x. x = c) (rev s))"

lemma has_prefix_Nil [simp]: "has_prefix s []"
  by (simp add: has_prefix_def)

lemma has_prefix_append [simp]: "has_prefix (p @ s) p"
  by (simp add: has_prefix_def)

lemma has_prefixE:
  assumes "has_prefix s p"
  obtains r where "s = p @ r" and "trim_prefix s p = r"
  using assms by (auto simp: has_prefix_def trim_prefix_def elim!: prefixE)

lemma trim_prefix_append [simp]: "trim_prefix (p @ s) p = s"
  by (simp add: trim_prefix_def)

lemma last_index_None: "last_index c s = None \<longleftrightarrow> c \<notin> set s"
  by (simp add: last_index_def)

lemma last_index_append:
  assumes "c \<notin> set t"
  shows "last_index c (s @ c # t) = Some (length s)"
proof -
  have "takeWhile (\<lambda>x. x \<noteq> c) (rev t @ c # rev s) = rev t"
    using assms by (subst takeWhile_append2) auto
  then show ?thesis by (simp add: last_index_def)
qed

lemma length_split_on: "length (split_on c s) = Suc (count_list s c)"
  by (induction s) (auto split: list.splits)

lemma split_on_not_Nil [simp]: "split_on c s \<noteq> []"
  by (metis length_split_on list.size(3) nat.simps(3))

lemma split_on_notin: "c \<notin> set s \<Longrightarrow> split_on c s = [s]"
  by (induction s) auto

lemma split_on_append: "c \<notin> set s \<Longrightarrow> split_on c (s @ c # t) = s # split_on c t"
  by (induction s) auto

lemma split_on_pieces: "p \<in> set (split_on c s) \<Longrightarrow> c \<notin> set p"
proof (induction s arbitrary: p)
  case (Cons x xs)
  then show ?case
    by (cases "split_on c xs") (auto split: if_splits)
qed simp

lemma cut_at_append: "c \<notin> set s \<Longrightarrow> cut_at c (s @ c # t) = (s, t, True)"
  by (induction s) (auto simp: cut_at_def)

subsection \<open>TrimSpace\<close>

text \<open>
  \<open>strings.TrimSpace\<close> removes leading and trailing runes with the Unicode property
  White Space. These are six ASCII bytes and nineteen longer UTF-8 sequences; a rune is at
  the front (or the back) of a byte string exactly when its encoding is a prefix (a suffix) of
  it, so trimming needs no decoding.
\<close>

definition space_encodings :: "string list" where
  "space_encodings =
     [[CHR 0x09], [CHR 0x0A], [CHR 0x0B], [CHR 0x0C], [CHR 0x0D], [CHR 0x20],
      [CHR 0xC2, CHR 0x85], [CHR 0xC2, CHR 0xA0], [CHR 0xE1, CHR 0x9A, CHR 0x80],
      [CHR 0xE2, CHR 0x80, CHR 0x80], [CHR 0xE2, CHR 0x80, CHR 0x81],
      [CHR 0xE2, CHR 0x80, CHR 0x82], [CHR 0xE2, CHR 0x80, CHR 0x83],
      [CHR 0xE2, CHR 0x80, CHR 0x84], [CHR 0xE2, CHR 0x80, CHR 0x85],
      [CHR 0xE2, CHR 0x80, CHR 0x86], [CHR 0xE2, CHR 0x80, CHR 0x87],
      [CHR 0xE2, CHR 0x80, CHR 0x88], [CHR 0xE2, CHR 0x80, CHR 0x89],
      [CHR 0xE2, CHR 0x80, CHR 0x8A], [CHR 0xE2, CHR 0x80, CHR 0xA8],
      [CHR 0xE2, CHR 0x80, CHR 0xA9], [CHR 0xE2, CHR 0x80, CHR 0xAF],
      [CHR 0xE2, CHR 0x81, CHR 0x9F], [CHR 0xE3, CHR 0x80, CHR 0x80]]"

text \<open>
  \<open>strip_front encs s\<close> removes members of \<open>encs\<close> from the front of \<open>s\<close> as long as
  one matches; at the back the reversed encodings are removed from the reversed string.
\<close>

function strip_front :: "string list \<Rightarrow> string \<Rightarrow> string" where
  "strip_front encs s =
     (case find (\<lambda>e. e \<noteq> [] \<and> prefix e s) encs of
        None \<Rightarrow> s
      | Some e \<Rightarrow> strip_front encs (drop (length e) s))"
  by pat_completeness auto
termination
proof (relation "measure (\<lambda>(encs, s). length s)")
  fix encs s e
  assume "find (\<lambda>e. e \<noteq> [] \<and> prefix e s) encs = Some e"
  then have "e \<noteq> []" and "prefix e s" by (auto simp: find_Some_iff)
  then show "((encs, drop (length e) s), (encs, s)) \<in> measure (\<lambda>(encs, s). length s)"
    by (auto elim!: prefixE)
qed simp

declare strip_front.simps [simp del]

definition trim_space :: "string \<Rightarrow> string" where
  "trim_space s =
     rev (strip_front (map rev space_encodings) (rev (strip_front space_encodings s)))"

lemma strip_front_stop:
  "(\<And>e. e \<in> set encs \<Longrightarrow> e = [] \<or> \<not> prefix e s) \<Longrightarrow> strip_front encs s = s"
  by (subst strip_front.simps) (auto split: option.splits simp: find_Some_iff dest: nth_mem)

lemma strip_front_suffix: "suffix (strip_front encs s) s"
proof (induction encs s rule: strip_front.induct)
  case (1 encs s)
  show ?case
    by (subst strip_front.simps)
      (auto split: option.splits intro: suffix_order.trans [OF "1.IH" suffix_drop])
qed

lemma set_strip_front: "set (strip_front encs s) \<subseteq> set s"
  using strip_front_suffix set_mono_suffix by metis

lemma set_trim_space: "set (trim_space s) \<subseteq> set s"
  using set_strip_front unfolding trim_space_def by (metis (full_types) set_rev subset_trans)

lemma strip_front_Nil [simp]: "strip_front encs [] = []"
  by (rule strip_front_stop) auto

lemma trim_space_Nil [simp]: "trim_space [] = []"
  by (simp add: trim_space_def)

text \<open>
  A string of printable ASCII bytes has nothing to trim: no byte of it begins or ends an
  encoded space.
\<close>

definition space_bytes :: "char set" where
  "space_bytes = set (concat space_encodings)"

lemma strip_front_no_space:
  assumes "set s \<inter> set (concat encs) = {}"
  shows "strip_front encs s = s"
proof (rule strip_front_stop)
  fix e
  assume e: "e \<in> set encs"
  show "e = [] \<or> \<not> prefix e s"
  proof (cases e)
    case (Cons x xs)
    then have "x \<in> set (concat encs)" using e by force
    with assms Cons show ?thesis by (auto elim!: prefixE)
  qed simp
qed

lemma trim_space_id:
  assumes "set s \<inter> space_bytes = {}"
  shows "trim_space s = s"
proof -
  have "set (concat (map rev space_encodings)) = space_bytes"
    by (auto simp: space_bytes_def)
  then show ?thesis
    using assms by (simp add: trim_space_def strip_front_no_space space_bytes_def)
qed

lemma strip_front_keeps:
  assumes "c \<in> set s" and "c \<notin> set (concat encs)"
  shows "c \<in> set (strip_front encs s)"
  using assms
proof (induction encs s rule: strip_front.induct)
  case (1 encs s)
  show ?case
  proof (cases "find (\<lambda>e. e \<noteq> [] \<and> prefix e s) encs")
    case None
    then show ?thesis using "1.prems" by (simp add: strip_front.simps [of encs s])
  next
    case (Some e)
    then have e: "e \<in> set encs" "prefix e s" by (auto simp: find_Some_iff)
    then have "c \<notin> set e" using "1.prems"(2) by auto
    then have "c \<in> set (drop (length e) s)"
      using "1.prems"(1) e(2) by (auto elim!: prefixE)
    then show ?thesis
      using "1.IH" [OF Some] "1.prems"(2) Some by (simp add: strip_front.simps [of encs s])
  qed
qed

text \<open>A string with a byte that belongs to no space does not become empty.\<close>

lemma trim_space_not_Nil:
  assumes "c \<in> set s" and "c \<notin> space_bytes"
  shows "trim_space s \<noteq> []"
proof -
  have "set (concat (map rev space_encodings)) = space_bytes"
    by (auto simp: space_bytes_def)
  then have "c \<in> set (strip_front (map rev space_encodings) (rev (strip_front space_encodings s)))"
    using assms by (intro strip_front_keeps) (simp_all add: strip_front_keeps space_bytes_def)
  then show ?thesis by (auto simp: trim_space_def)
qed

subsection \<open>Letter case\<close>

text \<open>
  ASCII case mapping. \<open>strings.EqualFold\<close> against a word of the letters
  \<open>v a p i d e b u g\<close> folds ASCII letters only, since none of these letters is related to a
  rune outside ASCII by simple case folding.
\<close>

definition lower_char :: "char \<Rightarrow> char" where
  "lower_char c =
     (if 65 \<le> (of_char c :: nat) \<and> (of_char c :: nat) \<le> 90
      then char_of ((of_char c :: nat) + 32) else c)"

definition equal_fold :: "string \<Rightarrow> string \<Rightarrow> bool" where
  "equal_fold s t \<longleftrightarrow> map lower_char s = map lower_char t"

text \<open>
  \<open>strings.ToLower\<close>. Two runes outside ASCII have an ASCII lower case: U+0130 (as
  \<open>i\<close>) and U+212A (as \<open>k\<close>). Other runes outside ASCII keep their bytes here; whichever
  bytes they are mapped to, none of them is ASCII, and the program only compares the result
  with ASCII words.
\<close>

fun to_lower :: "string \<Rightarrow> string" where
  "to_lower [] = []"
| "to_lower (a # s) =
     (if a = CHR 0xC4 \<and> s \<noteq> [] \<and> hd s = CHR 0xB0 then CHR ''i'' # to_lower (tl s)
      else if a = CHR 0xE2 \<and> prefix [CHR 0x84, CHR 0xAA] s
        then CHR ''k'' # to_lower (drop 2 s)
      else lower_char a # to_lower s)"

subsection \<open>Formatting and joining\<close>

text \<open>\<open>%d\<close> of a natural number.\<close>

fun dec_text :: "nat \<Rightarrow> string" where
  "dec_text n = (if n < 10 then [char_of (48 + n)]
     else dec_text (n div 10) @ [char_of (48 + n mod 10)])"

declare dec_text.simps [simp del]

definition int_text :: "int \<Rightarrow> string" where
  "int_text i = (if i < 0 then ''-'' @ dec_text (nat (- i)) else dec_text (nat i))"

text \<open>\<open>strings.Join(xs, sep)\<close>.\<close>

fun join_str :: "string \<Rightarrow> string list \<Rightarrow> string" where
  "join_str sep [] = []"
| "join_str sep [x] = x"
| "join_str sep (x # y # xs) = x @ sep @ join_str sep (y # xs)"

text \<open>\<open>strings.IndexAny(s, " \\t")\<close> as a cut: what is before the first space or tab.\<close>

definition before_blank :: "string \<Rightarrow> string" where
  "before_blank s = takeWhile (\<lambda>c. c \<noteq> CHR '' '' \<and> c \<noteq> CHR 0x09) s"

definition after_blank :: "string \<Rightarrow> string" where
  "after_blank s = (if \<exists>c \<in> set s. c = CHR '' '' \<or> c = CHR 0x09
     then tl (dropWhile (\<lambda>c. c \<noteq> CHR '' '' \<and> c \<noteq> CHR 0x09) s) else s)"

end
