(* ===== verification/Go_Utf8.thy ===== *)
theory Go_Utf8
  imports Gateway_Prelude
begin

text \<open>
  UTF-8 as Go reads and writes it. A Go string is a byte sequence, here a \<open>char\<close> list. Ranging
  over a string decodes one rune after the other; a byte that starts no well-formed sequence is
  the rune U+FFFD of width one (\<open>unicode/utf8\<close>, \<open>DecodeRuneInString\<close> and \<open>EncodeRune\<close>).
\<close>

abbreviation byte :: "char \<Rightarrow> nat" where
  "byte c \<equiv> of_char c"

abbreviation byte_char :: "nat \<Rightarrow> char" where
  "byte_char n \<equiv> char_of n"

definition rune_error :: nat where
  "rune_error = 0xFFFD"

definition in_range :: "nat \<Rightarrow> nat \<Rightarrow> char \<Rightarrow> bool" where
  "in_range lo hi c \<longleftrightarrow> lo \<le> byte c \<and> byte c \<le> hi"

definition second_lo :: "nat \<Rightarrow> nat" where
  "second_lo b = (if b = 0xE0 then 0xA0 else if b = 0xF0 then 0x90 else 0x80)"

definition second_hi :: "nat \<Rightarrow> nat" where
  "second_hi b = (if b = 0xED then 0x9F else if b = 0xF4 then 0x8F else 0xBF)"

abbreviation cont_byte :: "char \<Rightarrow> bool" where
  "cont_byte c \<equiv> in_range 0x80 0xBF c"

fun decode_rune :: "string \<Rightarrow> nat \<times> nat" where
  "decode_rune [] = (rune_error, 0)"
| "decode_rune (c # s) =
     (let b = byte c in
      if b < 0x80 then (b, 1)
      else if 0xC2 \<le> b \<and> b \<le> 0xDF then
        (case s of
           c1 # _ \<Rightarrow> if in_range 0x80 0xBF c1 then ((b - 0xC0) * 64 + (byte c1 - 0x80), 2)
                      else (rune_error, 1)
         | _ \<Rightarrow> (rune_error, 1))
      else if 0xE0 \<le> b \<and> b \<le> 0xEF then
        (case s of
           c1 # c2 # _ \<Rightarrow>
             if in_range (second_lo b) (second_hi b) c1 \<and> cont_byte c2
             then ((b - 0xE0) * 4096 + (byte c1 - 0x80) * 64 + (byte c2 - 0x80), 3)
             else (rune_error, 1)
         | _ \<Rightarrow> (rune_error, 1))
      else if 0xF0 \<le> b \<and> b \<le> 0xF4 then
        (case s of
           c1 # c2 # c3 # _ \<Rightarrow>
             if in_range (second_lo b) (second_hi b) c1 \<and> cont_byte c2 \<and> cont_byte c3
             then ((b - 0xF0) * 262144 + (byte c1 - 0x80) * 4096 + (byte c2 - 0x80) * 64
                    + (byte c3 - 0x80), 4)
             else (rune_error, 1)
         | _ \<Rightarrow> (rune_error, 1))
      else (rune_error, 1))"

definition is_surrogate :: "nat \<Rightarrow> bool" where
  "is_surrogate r \<longleftrightarrow> 0xD800 \<le> r \<and> r \<le> 0xDFFF"

definition valid_rune :: "nat \<Rightarrow> bool" where
  "valid_rune r \<longleftrightarrow> r \<le> 0x10FFFF \<and> \<not> is_surrogate r"

definition encode_valid :: "nat \<Rightarrow> string" where
  "encode_valid r =
     map byte_char
       (if r < 0x80 then [r]
        else if r < 0x800 then [0xC0 + r div 64, 0x80 + r mod 64]
        else if r < 0x10000 then
          [0xE0 + r div 4096, 0x80 + r div 64 mod 64, 0x80 + r mod 64]
        else
          [0xF0 + r div 262144, 0x80 + r div 4096 mod 64, 0x80 + r div 64 mod 64,
           0x80 + r mod 64])"

definition encode_rune :: "nat \<Rightarrow> string" where
  "encode_rune r = encode_valid (if valid_rune r then r else rune_error)"

subsection \<open>Decoding reads back what encoding wrote\<close>

lemma byte_byte_char [simp]: "n < 256 \<Longrightarrow> byte (byte_char n) = n"
  by (simp add: of_char_of)

lemma byte_eq_iff: "n < 256 \<Longrightarrow> byte c = n \<longleftrightarrow> c = byte_char n"
  by (metis byte_byte_char char_of_char)

lemma byte_lt [simp]: "byte c < 256"
  by (metis of_char_mod_256 mod_less_divisor zero_less_numeral)

lemma byte_le [simp]: "byte c \<le> 255"
  using byte_lt [of c] by linarith

lemma decode3:
  assumes "a < 16" "b < 64" "c < 64" "a = 0 \<longrightarrow> 32 \<le> b" "a = 13 \<longrightarrow> b < 32"
  shows "decode_rune (byte_char (0xE0 + a) # byte_char (0x80 + b) # byte_char (0x80 + c) # s)
    = (a * 4096 + b * 64 + c, 3)"
  using assms by (auto simp: in_range_def second_lo_def second_hi_def Let_def)

lemma decode4:
  assumes "a < 5" "b < 64" "c < 64" "d < 64" "a = 0 \<longrightarrow> 16 \<le> b" "a = 4 \<longrightarrow> b < 16"
  shows "decode_rune (byte_char (0xF0 + a) # byte_char (0x80 + b) # byte_char (0x80 + c)
      # byte_char (0x80 + d) # s) = (a * 262144 + b * 4096 + c * 64 + d, 4)"
proof -
  have "byte (byte_char (0xF0 + a)) = 0xF0 + a" "byte (byte_char (0x80 + b)) = 0x80 + b"
    "byte (byte_char (0x80 + c)) = 0x80 + c" "byte (byte_char (0x80 + d)) = 0x80 + d"
    using assms by (simp_all del: of_char_of)
  moreover have "second_lo (0xF0 + a) \<le> 0x80 + b" "0x80 + b \<le> second_hi (0xF0 + a)"
    using assms by (auto simp: second_lo_def second_hi_def)
  ultimately show ?thesis
    using assms by (simp add: in_range_def Let_def del: of_char_of)
qed

lemma decode_encode_valid:
  assumes "valid_rune r"
  shows "decode_rune (encode_valid r @ s) = (r, length (encode_valid r))"
proof -
  have le: "r \<le> 0x10FFFF" and surr: "\<not> (0xD800 \<le> r \<and> r \<le> 0xDFFF)"
    using assms by (auto simp: valid_rune_def is_surrogate_def)
  define d c b a where "d = r mod 64" and "c = r div 64 mod 64" and "b = r div 4096 mod 64"
    and "a = r div 262144"
  have dv: "r div 4096 = r div 64 div 64" "r div 262144 = r div 64 div 64 div 64"
    by (simp_all add: div_mult2_eq [symmetric])
  have q: "(x::nat) = x div 64 * 64 + x mod 64" for x by simp
  have bounds: "b < 64" "c < 64" "d < 64" by (simp_all add: b_def c_def d_def)
  have "r div 4096 = a * 64 + b" unfolding a_def b_def dv by (rule q)
  moreover have "r = r div 4096 * 4096 + c * 64 + d"
    using q [of r] q [of "r div 64"] unfolding c_def d_def dv by linarith
  ultimately have split: "r = r div 4096 * 4096 + c * 64 + d" "r div 4096 = a * 64 + b"
    by blast+
  consider "r < 0x80" | "0x80 \<le> r" "r < 0x800" | "0x800 \<le> r" "r < 0x10000" | "0x10000 \<le> r"
    by linarith
  then show ?thesis
  proof cases
    case 1
    then show ?thesis by (simp add: encode_valid_def Let_def)
  next
    case 2
    then have "2 \<le> r div 64" "r div 64 \<le> 31" by linarith+
    with 2 show ?thesis
      by (simp add: encode_valid_def Let_def in_range_def less_Suc_eq_le)
  next
    case 3
    then have e: "encode_valid r =
        [byte_char (0xE0 + r div 4096), byte_char (0x80 + c), byte_char (0x80 + d)]"
      by (simp add: encode_valid_def c_def d_def)
    have "r div 4096 < 16" using 3 by linarith
    moreover have "r div 4096 = 0 \<longrightarrow> 32 \<le> c" "r div 4096 = 13 \<longrightarrow> c < 32"
      using 3 split bounds surr by linarith+
    ultimately show ?thesis
      using decode3 [of "r div 4096" c d s] bounds split(1) [symmetric]
      unfolding e by (simp del: decode_rune.simps)
  next
    case 4
    then have e: "encode_valid r =
        [byte_char (0xF0 + a), byte_char (0x80 + b), byte_char (0x80 + c), byte_char (0x80 + d)]"
      by (simp add: encode_valid_def a_def b_def c_def d_def)
    have "a < 5" using le unfolding a_def by linarith
    moreover have "a = 0 \<longrightarrow> 16 \<le> b" "a = 4 \<longrightarrow> b < 16"
      using 4 le split bounds by linarith+
    ultimately show ?thesis
      using decode4 [of a b c d s] bounds split(1) [symmetric] split(2)
      unfolding e by (simp del: decode_rune.simps add: algebra_simps)
  qed
qed

lemma decode_rune_width:
  assumes "s \<noteq> []" and "decode_rune s = (r, w)"
  shows "1 \<le> w" and "w \<le> length s"
  using assms
  by (cases s; auto simp: Let_def split: if_splits list.splits)+

lemma decode_rune_width_fst [simp]:
  "s \<noteq> [] \<Longrightarrow> 0 < snd (decode_rune s)" "s \<noteq> [] \<Longrightarrow> snd (decode_rune s) \<le> length s"
  using decode_rune_width [of s "fst (decode_rune s)" "snd (decode_rune s)"] by simp_all

lemma length_encode_valid: "1 \<le> length (encode_valid r)" "length (encode_valid r) \<le> 4"
  by (simp_all add: encode_valid_def)

lemma encode_valid_neq_Nil [simp]: "encode_valid r \<noteq> []"
  by (simp add: encode_valid_def)

lemma encode_rune_neq_Nil [simp]: "encode_rune r \<noteq> []"
  by (simp add: encode_rune_def)

lemma encode_valid_ascii: "r < 0x80 \<Longrightarrow> encode_valid r = [byte_char r]"
  by (simp add: encode_valid_def)

lemma encode_rune_ascii: "r < 0x80 \<Longrightarrow> encode_rune r = [byte_char r]"
  by (simp add: encode_rune_def encode_valid_ascii valid_rune_def is_surrogate_def)

lemma decode_rune_ascii: "byte c < 0x80 \<Longrightarrow> decode_rune (c # s) = (byte c, 1)"
  by (simp add: Let_def)

subsection \<open>The runes of a string\<close>

text \<open>\<open>for i, r := range s\<close>: the runes with the bytes each was read from.\<close>

function segments :: "string \<Rightarrow> (nat \<times> string) list" where
  "segments s = (if s = [] then [] else
     (let (r, w) = decode_rune s in (r, take w s) # segments (drop w s)))"
  by pat_completeness auto
termination
proof (relation "measure length")
  fix s :: string and p r w
  assume "s \<noteq> []" and "p = decode_rune s" and "(r, w) = p"
  then have "1 \<le> w" using decode_rune_width(1) [of s r w] by simp
  with \<open>s \<noteq> []\<close> show "(drop w s, s) \<in> measure length"
    by (cases s) (simp_all add: le_imp_diff_is_add less_Suc_eq_le)
qed simp

declare segments.simps [simp del]

definition runes :: "string \<Rightarrow> nat list" where
  "runes s = map fst (segments s)"

lemma runes_unfold: "runes s = (if s = [] then [] else
     (let (r, w) = decode_rune s in r # runes (drop w s)))"
  by (simp add: runes_def segments.simps [of s] split: prod.splits)

lemma segments_Nil [simp]: "segments [] = []"
  by (simp add: segments.simps)

lemma segments_ascii: "byte c < 0x80 \<Longrightarrow> segments (c # s) = (byte c, [c]) # segments s"
  by (simp add: segments.simps [of "c # s"] decode_rune_ascii del: decode_rune.simps)

lemma concat_segments: "concat (map snd (segments s)) = s"
  by (induction s rule: segments.induct)
     (subst segments.simps, auto split: prod.splits)

lemma runes_Nil [simp]: "runes [] = []"
  by (simp add: runes_unfold)

lemma runes_ascii: "byte c < 0x80 \<Longrightarrow> runes (c # s) = byte c # runes s"
  by (simp add: runes_unfold [of "c # s"] decode_rune_ascii del: decode_rune.simps)

definition encode_runes :: "nat list \<Rightarrow> string" where
  "encode_runes rs = concat (map encode_rune rs)"

lemma encode_runes_simps [simp]:
  "encode_runes [] = []" "encode_runes (r # rs) = encode_rune r @ encode_runes rs"
  "encode_runes (rs @ ts) = encode_runes rs @ encode_runes ts"
  by (simp_all add: encode_runes_def)

lemma runes_encode_rune:
  assumes "valid_rune r"
  shows "runes (encode_rune r @ s) = r # runes s"
  using assms decode_encode_valid [OF assms, of s]
  by (simp add: encode_rune_def runes_unfold [of "encode_valid r @ s"] del: decode_rune.simps)

lemma runes_encode_runes:
  "(\<forall>r \<in> set rs. valid_rune r) \<Longrightarrow> runes (encode_runes rs @ s) = rs @ runes s"
  by (induction rs) (simp_all add: runes_encode_rune)

lemma length_runes_le: "length (runes s) \<le> length s"
proof (induction s rule: segments.induct)
  case (1 s)
  show ?case
  proof (cases "s = []")
    case False
    obtain r w where rw: "decode_rune s = (r, w)" by fastforce
    have "length (runes (drop w s)) \<le> length (drop w s)"
      using 1 False rw by simp
    moreover have "1 \<le> w" "w \<le> length s" using decode_rune_width [OF False rw] by auto
    ultimately show ?thesis using False by (simp add: runes_unfold [of s] rw)
  qed simp
qed

lemma runes_eq_Nil [simp]: "runes s = [] \<longleftrightarrow> s = []"
  by (subst runes_unfold) (simp split: prod.splits)

subsection \<open>Quoting for a log line\<close>

text \<open>
  \<open>%q\<close> (\<open>strconv.Quote\<close>). Which runes outside ASCII are printable is a table of
  the \<open>unicode\<close> package, the argument \<open>printable\<close>.
\<close>

definition hex_text :: "nat \<Rightarrow> nat \<Rightarrow> string" where
  "hex_text w n = map (\<lambda>i. let d = n div 16 ^ i mod 16 in
     byte_char (if d < 10 then 48 + d else 87 + d)) (rev [0..<w])"

definition quote_rune :: "(nat \<Rightarrow> bool) \<Rightarrow> nat \<times> string \<Rightarrow> string" where
  "quote_rune printable rb =
     (let (r, bs) = rb in
      if r = rune_error \<and> length bs = 1 then CHR 0x5C # CHR ''x'' # hex_text 2 (byte (bs ! 0))
      else if r = 0x22 \<or> r = 0x5C then [CHR 0x5C, byte_char r]
      else if 0x20 \<le> r \<and> r < 0x7F then [byte_char r]
      else if r < 0x20 \<or> r = 0x7F then
        (case map_of [(7, CHR ''a''), (8, CHR ''b''), (12, CHR ''f''), (10, CHR ''n''),
                      (13, CHR ''r''), (9, CHR ''t''), (11, CHR ''v'')] r of
           Some e \<Rightarrow> [CHR 0x5C, e]
         | None \<Rightarrow> CHR 0x5C # CHR ''x'' # hex_text 2 r)
      else if printable r then bs
      else if r < 0x10000 then CHR 0x5C # CHR ''u'' # hex_text 4 r
      else CHR 0x5C # CHR ''U'' # hex_text 8 r)"

definition go_quote :: "(nat \<Rightarrow> bool) \<Rightarrow> string \<Rightarrow> string" where
  "go_quote printable s =
     [CHR 0x22] @ concat (map (quote_rune printable) (segments s)) @ [CHR 0x22]"

lemma quote_rune_plain:
  assumes "r = byte c" and "0x20 \<le> r" and "r < 0x7F" and "r \<noteq> 0x22" and "r \<noteq> 0x5C"
  shows "quote_rune printable (r, [c]) = [c]"
proof -
  have "r \<noteq> rune_error" using assms(3) by (simp add: rune_error_def)
  moreover have "byte_char r = c" by (simp only: assms(1) char_of_char)
  ultimately show ?thesis
    using assms(2-) by (simp add: quote_rune_def)
qed

lemma go_quote_plain:
  assumes "\<forall>c \<in> set s. 0x20 \<le> byte c \<and> byte c < 0x7F \<and> byte c \<noteq> 0x22 \<and> byte c \<noteq> 0x5C"
  shows "go_quote printable s = [CHR 0x22] @ s @ [CHR 0x22]"
proof -
  have "concat (map (quote_rune printable) (segments s)) = s"
    using assms
  proof (induction s)
    case (Cons c s)
    have c: "byte c \<noteq> 0x22" "byte c \<noteq> 0x5C" "0x20 \<le> byte c" "byte c < 0x7F"
      using Cons.prems by simp_all
    have "quote_rune printable (byte c, [c]) = [c]"
      by (rule quote_rune_plain [OF refl c(3,4,1,2)])
    moreover have "segments (c # s) = (byte c, [c]) # segments s"
      by (rule segments_ascii) (rule less_trans [OF c(4)], simp)
    ultimately show ?case using Cons.IH Cons.prems by simp
  qed simp
  then show ?thesis by (simp add: go_quote_def)
qed

end
