(* ===== verification/Go_Json.thy ===== *)
theory Go_Json
  imports Go_Strings Go_Utf8 "HOL-Library.Monad_Syntax" "HOL-Library.List_Lexorder"
begin

text \<open>
  \<open>encoding/json\<close> as the handlers use it: the text syntax (\<open>json_first\<close> is
  \<open>Decoder.Decode\<close>, \<open>json_parse\<close> is \<open>Unmarshal\<close>), the rules by which a value is stored into a
  Go struct, and the text \<open>Marshal\<close> writes. Strings are byte strings; \<open>JNum\<close> keeps the literal.
\<close>

datatype json =
    JNull
  | JBool bool
  | JNum string
  | JStr string
  | JArr "json list"
  | JObj "(string \<times> json) list"

subsection \<open>Scanning\<close>

definition json_ws :: "char \<Rightarrow> bool" where
  "json_ws c \<longleftrightarrow> c \<in> {CHR '' '', CHR 0x09, CHR 0x0A, CHR 0x0D}"

definition skip_ws :: "string \<Rightarrow> string" where
  "skip_ws s = dropWhile json_ws s"

definition expect :: "char \<Rightarrow> string \<Rightarrow> string option" where
  "expect c s = (case skip_ws s of [] \<Rightarrow> None | x # t \<Rightarrow> if x = c then Some t else None)"

definition is_digit :: "char \<Rightarrow> bool" where
  "is_digit c \<longleftrightarrow> 48 \<le> byte c \<and> byte c \<le> 57"

definition hex_value :: "char \<Rightarrow> nat option" where
  "hex_value c =
     (if 48 \<le> byte c \<and> byte c \<le> 57 then Some (byte c - 48)
      else if 97 \<le> byte c \<and> byte c \<le> 102 then Some (byte c - 87)
      else if 65 \<le> byte c \<and> byte c \<le> 70 then Some (byte c - 55)
      else None)"

fun hex4 :: "string \<Rightarrow> (nat \<times> string) option" where
  "hex4 (a # b # c # d # s) =
     do { w \<leftarrow> hex_value a; x \<leftarrow> hex_value b; y \<leftarrow> hex_value c; z \<leftarrow> hex_value d;
          Some (w * 4096 + x * 256 + y * 16 + z, s) }"
| "hex4 _ = None"

text \<open>
  \<open>\\u\<close> escapes: a high surrogate followed by an escaped low one is one rune, every other
  surrogate is U+FFFD.
\<close>

definition unicode_escape :: "string \<Rightarrow> (nat \<times> string) option" where
  "unicode_escape s =
     do { (r, t) \<leftarrow> hex4 s;
          if \<not> is_surrogate r then Some (r, t)
          else (case t of
              bs # u # t' \<Rightarrow>
                if bs = CHR 0x5C \<and> u = CHR ''u''
                then do { (r2, t2) \<leftarrow> hex4 t';
                          if r < 0xDC00 \<and> 0xDC00 \<le> r2 \<and> r2 \<le> 0xDFFF
                          then Some ((r - 0xD800) * 1024 + (r2 - 0xDC00) + 0x10000, t2)
                          else Some (rune_error, t) }
                else Some (rune_error, t)
            | _ \<Rightarrow> Some (rune_error, t)) }"

definition simple_escape :: "char \<Rightarrow> char option" where
  "simple_escape c = map_of
     [(CHR 0x22, CHR 0x22), (CHR 0x5C, CHR 0x5C), (CHR ''/'', CHR ''/''), (CHR ''b'', CHR 0x08),
      (CHR ''f'', CHR 0x0C), (CHR ''n'', CHR 0x0A), (CHR ''r'', CHR 0x0D), (CHR ''t'', CHR 0x09)] c"

lemma hex4_length: "hex4 s = Some (r, t) \<Longrightarrow> length s = length t + 4"
  by (induction s rule: hex4.induct) (auto simp: bind_eq_Some_conv)

lemma unicode_escape_length:
  assumes "unicode_escape s = Some (r, t)"
  shows "length t < length s"
proof -
  obtain r1 t1 where h: "hex4 s = Some (r1, t1)"
    using assms by (cases "hex4 s") (auto simp: unicode_escape_def)
  have "length t \<le> length t1"
  proof (cases t1)
    case Nil
    then show ?thesis using assms h by (auto simp: unicode_escape_def split: if_splits)
  next
    case (Cons bs t1')
    then show ?thesis using assms h hex4_length [of "tl t1'"]
      by (cases t1') (auto simp: unicode_escape_def bind_eq_Some_conv split: if_splits)
  qed
  then show ?thesis using hex4_length [OF h] by linarith
qed

text \<open>The part of a string literal after the opening quote, unquoted.\<close>

function parse_str :: "string \<Rightarrow> (string \<times> string) option" where
  "parse_str s =
     (case s of
        [] \<Rightarrow> None
      | c # t \<Rightarrow>
          if c = CHR 0x22 then Some ([], t)
          else if c = CHR 0x5C then
            (case t of
               [] \<Rightarrow> None
             | e # u \<Rightarrow>
                 if e = CHR ''u'' then
                   (case unicode_escape u of
                      None \<Rightarrow> None
                    | Some (r, v) \<Rightarrow>
                        (case parse_str v of None \<Rightarrow> None
                         | Some (x, rest) \<Rightarrow> Some (encode_rune r @ x, rest)))
                 else
                   (case simple_escape e of
                      None \<Rightarrow> None
                    | Some d \<Rightarrow>
                        (case parse_str u of None \<Rightarrow> None
                         | Some (x, rest) \<Rightarrow> Some (d # x, rest))))
          else if byte c < 0x20 then None
          else
            (case parse_str (drop (snd (decode_rune s) - 1) t) of None \<Rightarrow> None
             | Some (x, rest) \<Rightarrow> Some (encode_rune (fst (decode_rune s)) @ x, rest)))"
  by pat_completeness auto
termination
  by (relation "measure length") (auto dest: unicode_escape_length)

declare parse_str.simps [simp del]

text \<open>A number literal: \<open>-?(0|[1-9][0-9]*)([.][0-9]+)?([eE][+-]?[0-9]+)?\<close>.\<close>

definition scan_digits :: "string \<Rightarrow> (string \<times> string) option" where
  "scan_digits s = (if takeWhile is_digit s = [] then None
     else Some (takeWhile is_digit s, dropWhile is_digit s))"

definition scan_int :: "string \<Rightarrow> (string \<times> string) option" where
  "scan_int s = (case s of [] \<Rightarrow> None
     | c # t \<Rightarrow> if c = CHR ''0'' then Some ([c], t) else scan_digits s)"

definition scan_fraction :: "string \<Rightarrow> (string \<times> string) option" where
  "scan_fraction s = (case s of [] \<Rightarrow> Some ([], s)
     | c # t \<Rightarrow> if c = CHR ''.''
         then do { (d, u) \<leftarrow> scan_digits t; Some (c # d, u) } else Some ([], s))"

definition scan_exponent :: "string \<Rightarrow> (string \<times> string) option" where
  "scan_exponent s = (case s of [] \<Rightarrow> Some ([], s)
     | c # t \<Rightarrow> if c = CHR ''e'' \<or> c = CHR ''E''
         then (case t of [] \<Rightarrow> None
               | g # u \<Rightarrow> if g = CHR ''+'' \<or> g = CHR ''-''
                   then do { (d, v) \<leftarrow> scan_digits u; Some (c # g # d, v) }
                   else do { (d, v) \<leftarrow> scan_digits t; Some (c # d, v) })
         else Some ([], s))"

definition parse_number :: "string \<Rightarrow> (string \<times> string) option" where
  "parse_number s =
     do { (m, s1) \<leftarrow> Some (case s of [] \<Rightarrow> ([], s)
                          | c # t \<Rightarrow> if c = CHR ''-'' then ([c], t) else ([], s));
          (i, s2) \<leftarrow> scan_int s1;
          (f, s3) \<leftarrow> scan_fraction s2;
          (e, s4) \<leftarrow> scan_exponent s3;
          Some (m @ i @ f @ e, s4) }"

subsection \<open>Values\<close>

text \<open>
  \<open>n\<close> bounds the number of nested calls, \<open>d\<close> is the nesting depth still allowed
  (\<open>maxNestingDepth\<close> is 10000). \<open>parse_fuel\<close> below shows that the fuel of \<open>json_first\<close> never
  runs out.
\<close>

fun parse_value :: "nat \<Rightarrow> nat \<Rightarrow> string \<Rightarrow> (json \<times> string) option"
and parse_elems :: "nat \<Rightarrow> nat \<Rightarrow> string \<Rightarrow> (json list \<times> string) option"
and parse_members :: "nat \<Rightarrow> nat \<Rightarrow> string \<Rightarrow> ((string \<times> json) list \<times> string) option"
where
  "parse_value 0 d s = None"
| "parse_value (Suc n) d s =
     (case skip_ws s of
        [] \<Rightarrow> None
      | c # t \<Rightarrow>
          if c = CHR ''{'' then
            (if d = 0 then None
             else case expect (CHR ''}'') t of
                    Some u \<Rightarrow> Some (JObj [], u)
                  | None \<Rightarrow> do { (ms, u) \<leftarrow> parse_members n (d - 1) t; Some (JObj ms, u) })
          else if c = CHR ''['' then
            (if d = 0 then None
             else case expect (CHR '']'') t of
                    Some u \<Rightarrow> Some (JArr [], u)
                  | None \<Rightarrow> do { (xs, u) \<leftarrow> parse_elems n (d - 1) t; Some (JArr xs, u) })
          else if c = CHR 0x22 then do { (x, u) \<leftarrow> parse_str t; Some (JStr x, u) }
          else if has_prefix (c # t) ''true'' then Some (JBool True, drop 3 t)
          else if has_prefix (c # t) ''false'' then Some (JBool False, drop 4 t)
          else if has_prefix (c # t) ''null'' then Some (JNull, drop 3 t)
          else do { (x, u) \<leftarrow> parse_number (c # t); Some (JNum x, u) })"
| "parse_elems 0 d s = None"
| "parse_elems (Suc n) d s =
     do { (j, t) \<leftarrow> parse_value n d s;
          (case expect (CHR '']'') t of
             Some u \<Rightarrow> Some ([j], u)
           | None \<Rightarrow> do { u \<leftarrow> expect (CHR '','') t;
                          (js, v) \<leftarrow> parse_elems n d u;
                          Some (j # js, v) }) }"
| "parse_members 0 d s = None"
| "parse_members (Suc n) d s =
     do { t \<leftarrow> expect (CHR 0x22) s;
          (k, u) \<leftarrow> parse_str t;
          v \<leftarrow> expect (CHR '':'') u;
          (j, w) \<leftarrow> parse_value n d v;
          (case expect (CHR ''}'') w of
             Some x \<Rightarrow> Some ([(k, j)], x)
           | None \<Rightarrow> do { x \<leftarrow> expect (CHR '','') w;
                          (ms, y) \<leftarrow> parse_members n d x;
                          Some ((k, j) # ms, y) }) }"

definition max_nesting :: nat where
  "max_nesting = 10000"

definition json_first :: "string \<Rightarrow> json option" where
  "json_first s = map_option fst (parse_value (2 * length s + 1) max_nesting s)"

definition json_parse :: "string \<Rightarrow> json option" where
  "json_parse s =
     (case parse_value (2 * length s + 1) max_nesting s of
        None \<Rightarrow> None
      | Some (j, rest) \<Rightarrow> if skip_ws rest = [] then Some j else None)"

subsection \<open>The fuel is enough\<close>

lemma skip_ws_length: "length (skip_ws s) \<le> length s"
  by (simp add: skip_ws_def length_dropWhile_le)

lemma expect_length: "expect c s = Some t \<Longrightarrow> length t < length s"
  using skip_ws_length [of s] by (auto simp: expect_def split: list.splits if_splits)

lemma parse_str_length: "parse_str s = Some (x, t) \<Longrightarrow> length t < length s"
proof (induction s arbitrary: x t rule: parse_str.induct)
  case (1 s)
  note IH = "1.IH"
  show ?case
  proof (cases s)
    case Nil
    with "1.prems" show ?thesis by (simp add: parse_str.simps)
  next
    case s: (Cons c u)
    consider "c = CHR 0x22" | "c \<noteq> CHR 0x22" "c = CHR 0x5C" | "c \<noteq> CHR 0x22" "c \<noteq> CHR 0x5C"
      by blast
    then show ?thesis
    proof cases
      case 1
      with "1.prems" s show ?thesis by (simp add: parse_str.simps)
    next
      case c: 2
      then obtain e v where u: "u = e # v"
        using "1.prems" s by (cases u) (simp_all add: parse_str.simps [of "[CHR 0x5C]"])
      show ?thesis
      proof (cases "e = CHR ''u''")
        case True
        then obtain r w y where "unicode_escape v = Some (r, w)" "parse_str w = Some (y, t)"
          using "1.prems" c unfolding parse_str.simps [of s] unfolding s u
          by (auto split: option.splits)
        with IH(1) [OF s c u True] unicode_escape_length [of v r w] show ?thesis
          by (simp add: s u) (metis (no_types, lifting) less_SucI less_trans)
      next
        case False
        then obtain d y where "simple_escape e = Some d" "parse_str v = Some (y, t)"
          using "1.prems" c unfolding parse_str.simps [of s] unfolding s u
          by (auto split: option.splits)
        with IH(2) [OF s c u False] show ?thesis by (simp add: s u less_Suc_eq)
      qed
    next
      case c: 3
      then obtain y where "parse_str (drop (snd (decode_rune s) - 1) u) = Some (y, t)"
        and ge: "\<not> byte c < 0x20"
        using "1.prems" c unfolding parse_str.simps [of s]
        by (auto simp: s split: option.splits if_splits simp del: decode_rune.simps)
      with IH(3) [OF s c ge] show ?thesis by (fastforce simp: s simp del: decode_rune.simps)
    qed
  qed
qed

lemma scan_digits_length: "scan_digits s = Some (x, t) \<Longrightarrow> length t < length s"
  by (cases s) (auto simp: scan_digits_def length_dropWhile_le le_imp_less_Suc split: if_splits)

lemma scan_int_length: "scan_int s = Some (x, t) \<Longrightarrow> length t < length s"
  by (auto simp: scan_int_def dest: scan_digits_length split: list.splits if_splits)

lemma scan_fraction_length: "scan_fraction s = Some (x, t) \<Longrightarrow> length t \<le> length s"
  by (auto simp: scan_fraction_def bind_eq_Some_conv dest!: scan_digits_length
      split: list.splits if_splits)

lemma scan_exponent_length: "scan_exponent s = Some (x, t) \<Longrightarrow> length t \<le> length s"
  by (auto simp: scan_exponent_def bind_eq_Some_conv dest!: scan_digits_length
      split: list.splits if_splits)

lemma parse_number_length: "parse_number s = Some (x, t) \<Longrightarrow> length t < length s"
  by (cases s)
     (fastforce simp: parse_number_def bind_eq_Some_conv
        dest!: scan_int_length scan_fraction_length scan_exponent_length split: if_splits)+

lemmas parse_lengths = expect_length parse_str_length parse_number_length

lemma parse_value_length:
  "parse_value n d s = Some (j, t) \<Longrightarrow> length t < length s"
  "parse_elems n d s = Some (js, t) \<Longrightarrow> length t < length s"
  "parse_members n d s = Some (ms, t) \<Longrightarrow> length t < length s"
proof (induction n d s and n d s and n d s arbitrary: j t and js t and ms t
    rule: parse_value_parse_elems_parse_members.induct)
  case (2 n d s)
  then show ?case
    using skip_ws_length [of s]
    by (auto simp: bind_eq_Some_conv dest!: parse_lengths split: list.splits if_splits option.splits)
      (fastforce dest!: parse_lengths)+
next
  case (4 n d s)
  obtain j u where v: "parse_value n d s = Some (j, u)"
    using "4.prems" by (auto simp: bind_eq_Some_conv)
  note u = "4.IH"(1) [OF v]
  show ?case
  proof (cases "expect (CHR '']'') u")
    case None
    then obtain w ks where w: "expect (CHR '','') u = Some w" "parse_elems n d w = Some (ks, t)"
      using "4.prems" v by (auto simp: bind_eq_Some_conv)
    with "4.IH"(2) [OF v refl None w(1)] u show ?thesis
      by (auto dest!: expect_length)
  next
    case (Some w)
    then show ?thesis using "4.prems" v u by (auto dest!: expect_length)
  qed
next
  case (6 n d s)
  obtain s1 k s2 s3 j u where e: "expect (CHR 0x22) s = Some s1" "parse_str s1 = Some (k, s2)"
    "expect (CHR '':'') s2 = Some s3" and v: "parse_value n d s3 = Some (j, u)"
    using "6.prems" by (auto simp: bind_eq_Some_conv)
  note u = "6.IH"(1) [OF e(1,2) refl e(3) v] e(1,3) [THEN expect_length]
    e(2) [THEN parse_str_length]
  show ?case
  proof (cases "expect (CHR ''}'') u")
    case None
    then obtain w ks where w: "expect (CHR '','') u = Some w" "parse_members n d w = Some (ks, t)"
      using "6.prems" e v by (auto simp: bind_eq_Some_conv)
    with "6.IH"(2) [OF e(1,2) refl e(3) v refl None w(1)] u show ?thesis
      by (auto dest!: expect_length)
  next
    case (Some w)
    then show ?thesis using "6.prems" e v u by (auto dest!: expect_length)
  qed
qed simp_all

lemma parse_fuel_step:
  "2 * length s + 1 \<le> n \<Longrightarrow> parse_value (Suc n) d s = parse_value n d s"
  "2 * length s + 2 \<le> n \<Longrightarrow> parse_elems (Suc n) d s = parse_elems n d s"
  "2 * length s + 1 \<le> n \<Longrightarrow> parse_members (Suc n) d s = parse_members n d s"
proof (induction n arbitrary: d s)
  case 0
  {
    case 1
    then show ?case by simp
  next
    case 2
    then show ?case by simp
  next
    case 3
    then show ?case by simp
  }
next
  case (Suc m)
  {
    case 1
    show ?case
    proof (cases "skip_ws s")
      case (Cons c t)
      then have "length t < length s" using skip_ws_length [of s] by simp
      then have "parse_elems (Suc m) e t = parse_elems m e t"
        "parse_members (Suc m) e t = parse_members m e t" for e
        using Suc.IH(2,3) [of t] 1 by simp_all
      then show ?thesis
        by (simp add: Cons del: parse_elems.simps parse_members.simps cong: option.case_cong)
    qed simp
  next
    case 2
    have v: "parse_value (Suc m) d s = parse_value m d s" using Suc.IH(1) 2 by simp
    have "parse_elems (Suc m) d u = parse_elems m d u"
      if "parse_value m d s = Some (j, t)" "expect (CHR '','') t = Some u" for j t u
      using parse_value_length(1) [OF that(1)] expect_length [OF that(2)] 2
      by (intro Suc.IH(2)) simp
    then show ?case
      unfolding parse_elems.simps(2) [of "Suc m" d s] parse_elems.simps(2) [of m d s] v
      by (auto simp del: parse_value.simps parse_elems.simps intro!: Option.bind_cong
          split: option.splits prod.splits)
  next
    case 3
    have v: "parse_value (Suc m) d u = parse_value m d u" if "length u < length s" for u
      using that 3 by (intro Suc.IH(1)) simp
    have w: "parse_members (Suc m) d u = parse_members m d u" if "length u < length s" for u
      using that 3 by (intro Suc.IH(3)) simp
    note unf = parse_members.simps(2) [of "Suc m" d s] parse_members.simps(2) [of m d s]
    show ?case
    proof (cases "expect (CHR 0x22) s")
      case a: (Some a)
      show ?thesis
      proof (cases "parse_str a")
        case b: (Some kb)
        obtain k b where kb: "kb = (k, b)" by fastforce
        show ?thesis
        proof (cases "expect (CHR '':'') b")
          case t: (Some t)
          have lt: "length t < length s"
            using expect_length [OF a] parse_str_length [OF b [unfolded kb]] expect_length [OF t]
            by linarith
          show ?thesis
          proof (cases "parse_value m d t")
            case j: (Some ju)
            obtain j u where ju: "ju = (j, u)" by fastforce
            have "parse_members (Suc m) d x = parse_members m d x"
              if "expect (CHR '','') u = Some x" for x
              using parse_value_length(1) [OF j [unfolded ju]] expect_length [OF that] lt
              by (intro w) linarith
            then show ?thesis using a b kb t j ju lt unfolding unf
              by (auto simp add: v simp del: parse_value.simps parse_members.simps
                  intro!: Option.bind_cong split: option.split)
          qed (use a b kb t lt in \<open>simp add: v del: parse_value.simps\<close>)
        qed (use a b kb in simp)
      qed (use a in simp)
    qed simp
  }
qed

theorem parse_fuel:
  assumes "2 * length s + 1 \<le> n"
  shows "parse_value n d s = parse_value (2 * length s + 1) d s"
  using assms by (induction n rule: dec_induct) (simp_all only: parse_fuel_step(1))

subsection \<open>Storing a value into a Go variable\<close>

text \<open>
  A decoder takes the JSON value and the variable's current value and returns the new value and
  whether no \<open>UnmarshalTypeError\<close> was recorded. A type error skips the value and decoding goes
  on, so what was stored before and after it stays. \<open>null\<close> leaves a non-pointer untouched.
\<close>

type_synonym 'a decoder = "json \<Rightarrow> 'a \<Rightarrow> 'a \<times> bool"

definition dec_string :: "string decoder" where
  "dec_string j x = (case j of JStr s \<Rightarrow> (s, True) | JNull \<Rightarrow> (x, True) | _ \<Rightarrow> (x, False))"

definition dec_bool :: "bool decoder" where
  "dec_bool j x = (case j of JBool b \<Rightarrow> (b, True) | JNull \<Rightarrow> (x, True) | _ \<Rightarrow> (x, False))"

fun digits_value :: "nat \<Rightarrow> string \<Rightarrow> nat option" where
  "digits_value acc [] = Some acc"
| "digits_value acc (c # s) =
     (if is_digit c then digits_value (acc * 10 + (byte c - 48)) s else None)"

definition parse_int64 :: "string \<Rightarrow> int option" where
  "parse_int64 s =
     (let neg = has_prefix s ''-'';
          sign = neg \<or> has_prefix s ''+'';
          ds = (if sign then drop 1 s else s) in
      if ds = [] then None
      else case digits_value 0 ds of
             None \<Rightarrow> None
           | Some n \<Rightarrow>
               if neg then (if n \<le> 2 ^ 63 then Some (- int n) else None)
               else (if n < 2 ^ 63 then Some (int n) else None))"

definition dec_int64 :: "int decoder" where
  "dec_int64 j x =
     (case j of JNum l \<Rightarrow> (case parse_int64 l of Some n \<Rightarrow> (n, True) | None \<Rightarrow> (x, False))
      | JNull \<Rightarrow> (x, True) | _ \<Rightarrow> (x, False))"

definition dec_ptr :: "'a decoder \<Rightarrow> 'a \<Rightarrow> 'a option decoder" where
  "dec_ptr d zero j p =
     (if j = JNull then (None, True)
      else let (x, ok) = d j (case p of None \<Rightarrow> zero | Some x \<Rightarrow> x) in (Some x, ok))"

definition dec_slice :: "'a decoder \<Rightarrow> 'a \<Rightarrow> 'a list decoder" where
  "dec_slice d zero j xs =
     (case j of
        JNull \<Rightarrow> ([], True)
      | JArr js \<Rightarrow> let rs = map (\<lambda>j. d j zero) js in (map fst rs, list_all snd rs)
      | _ \<Rightarrow> (xs, False))"

text \<open>\<open>json.RawMessage\<close> keeps the value for a later \<open>Unmarshal\<close>.\<close>

definition dec_raw :: "json option decoder" where
  "dec_raw j x = (Some j, True)"

definition dec_field :: "('r \<Rightarrow> 'a) \<Rightarrow> ('a \<Rightarrow> 'r \<Rightarrow> 'r) \<Rightarrow> 'a decoder \<Rightarrow> 'r decoder" where
  "dec_field sel set_to d j r = (let (x, ok) = d j (sel r) in (set_to x r, ok))"

text \<open>
  Keys match a field name exactly or else after case folding; U+017F and U+212A are the only
  runes outside ASCII that fold to an ASCII letter.
\<close>

definition fold_rune :: "nat \<Rightarrow> nat" where
  "fold_rune r = (if 97 \<le> r \<and> r \<le> 122 then r - 32
     else if r = 0x17F then 83 else if r = 0x212A then 75 else r)"

definition fold_name :: "string \<Rightarrow> nat list" where
  "fold_name s = map fold_rune (runes s)"

definition find_field :: "(string \<times> 'r decoder) list \<Rightarrow> string \<Rightarrow> 'r decoder option" where
  "find_field fields k =
     (case map_of fields k of
        Some d \<Rightarrow> Some d
      | None \<Rightarrow> map_option snd (find (\<lambda>f. fold_name (fst f) = fold_name k) fields))"

definition dec_member :: "(string \<times> 'r decoder) list \<Rightarrow> string \<times> json \<Rightarrow> 'r \<times> bool \<Rightarrow> 'r \<times> bool"
  where
  "dec_member fields m acc =
     (case find_field fields (fst m) of
        None \<Rightarrow> acc
      | Some d \<Rightarrow> (let (r, ok) = d (snd m) (fst acc) in (r, ok \<and> snd acc)))"

definition dec_struct :: "(string \<times> 'r decoder) list \<Rightarrow> 'r decoder" where
  "dec_struct fields j r =
     (case j of
        JObj ms \<Rightarrow> fold (dec_member fields) ms (r, True)
      | JNull \<Rightarrow> (r, True)
      | _ \<Rightarrow> (r, False))"

text \<open>The two entry points: the error result (\<open>None\<close>) covers syntax and type errors alike.\<close>

definition decode_result :: "'a decoder \<Rightarrow> 'a \<Rightarrow> json option \<Rightarrow> 'a option" where
  "decode_result d zero j =
     (case j of None \<Rightarrow> None
      | Some j \<Rightarrow> let (x, ok) = d j zero in if ok then Some x else None)"

definition decode_first :: "'a decoder \<Rightarrow> 'a \<Rightarrow> string \<Rightarrow> 'a option" where
  "decode_first d zero s = decode_result d zero (json_first s)"

definition unmarshal :: "'a decoder \<Rightarrow> 'a \<Rightarrow> string \<Rightarrow> 'a option" where
  "unmarshal d zero s = decode_result d zero (json_parse s)"

text \<open>\<open>Decode\<close> with its error ignored: what was stored before the error.\<close>

definition decode_lossy :: "'a decoder \<Rightarrow> 'a \<Rightarrow> string \<Rightarrow> 'a" where
  "decode_lossy d zero s = (case json_first s of None \<Rightarrow> zero | Some j \<Rightarrow> fst (d j zero))"

subsection \<open>Writing\<close>

definition hex_digit :: "nat \<Rightarrow> char" where
  "hex_digit n = byte_char (if n < 10 then 48 + n else 87 + n)"

definition escape_ascii :: "char \<Rightarrow> string" where
  "escape_ascii c =
     (if c = CHR 0x22 \<or> c = CHR 0x5C then [CHR 0x5C, c]
      else if c = CHR 0x08 then [CHR 0x5C, CHR ''b'']
      else if c = CHR 0x0C then [CHR 0x5C, CHR ''f'']
      else if c = CHR 0x0A then [CHR 0x5C, CHR ''n'']
      else if c = CHR 0x0D then [CHR 0x5C, CHR ''r'']
      else if c = CHR 0x09 then [CHR 0x5C, CHR ''t'']
      else if byte c < 0x20 \<or> c \<in> {CHR ''<'', CHR ''>'', CHR ''&''} then
        [CHR 0x5C, CHR ''u'', CHR ''0'', CHR ''0'', hex_digit (byte c div 16),
         hex_digit (byte c mod 16)]
      else [c])"

definition escape_rune :: "nat \<Rightarrow> string" where
  "escape_rune r =
     (if r < 0x80 then escape_ascii (byte_char r)
      else if r = 0x2028 then CHR 0x5C # ''u2028''
      else if r = 0x2029 then CHR 0x5C # ''u2029''
      else encode_rune r)"

text \<open>
  An ill-formed byte is written as the escape of U+FFFD, a well-formed U+FFFD as its bytes.
\<close>

definition escape_str :: "string \<Rightarrow> string" where
  "escape_str s =
     concat (map (\<lambda>(r, bs). if r = rune_error \<and> length bs = 1 then CHR 0x5C # ''ufffd''
                            else escape_rune r) (segments s))"

definition quote_str :: "string \<Rightarrow> string" where
  "quote_str s = [CHR 0x22] @ escape_str s @ [CHR 0x22]"

fun json_text :: "json \<Rightarrow> string" where
  "json_text JNull = ''null''"
| "json_text (JBool b) = (if b then ''true'' else ''false'')"
| "json_text (JNum l) = l"
| "json_text (JStr s) = quote_str s"
| "json_text (JArr js) = ''['' @ join_str '','' (map json_text js) @ '']''"
| "json_text (JObj ms) =
     ''{'' @ join_str '','' (map (\<lambda>m. quote_str (fst m) @ '':'' @ json_text (snd m)) ms) @ ''}''"

text \<open>A \<open>map[string]string\<close> is written with its keys sorted bytewise.\<close>

definition json_string_map :: "(string \<times> string) list \<Rightarrow> json" where
  "json_string_map m =
     JObj (map (\<lambda>kv. (fst kv, JStr (snd kv))) (sort_key (\<lambda>kv. map byte (fst kv)) m))"

end
