(* ===== verification/Go_Json_Roundtrip.thy ===== *)
theory Go_Json_Roundtrip
  imports Go_Json
begin

text \<open>
  What \<open>Marshal\<close> writes, \<open>Unmarshal\<close> and \<open>Decode\<close> read back: for values whose strings are
  well-formed UTF-8, whose number literals are canonical and whose nesting is within the limit.
\<close>

subsection \<open>Strings\<close>

definition utf8_ok :: "string \<Rightarrow> bool" where
  "utf8_ok s \<longleftrightarrow> (\<exists>rs. (\<forall>r \<in> set rs. valid_rune r) \<and> s = encode_runes rs)"

lemma hex_value_digit: "n < 16 \<Longrightarrow> hex_value (hex_digit n) = Some n"
  by (auto simp: hex_value_def hex_digit_def)

lemma hex_value_consts:
  "hex_value (CHR ''0'') = Some 0" "hex_value (CHR ''2'') = Some 2" "hex_value (CHR ''8'') = Some 8"
  "hex_value (CHR ''9'') = Some 9"
  by (simp_all add: hex_value_def)

lemma parse_str_quote: "parse_str (CHR 0x22 # rest) = Some ([], rest)"
  by (simp add: parse_str.simps [of "CHR 0x22 # rest"])

lemma parse_str_simple:
  assumes "simple_escape e = Some d" and "e \<noteq> CHR ''u''"
  shows "parse_str (CHR 0x5C # e # s) =
    (case parse_str s of None \<Rightarrow> None | Some (x, rest) \<Rightarrow> Some (d # x, rest))"
  using assms by (simp add: parse_str.simps [of "CHR 0x5C # e # s"])

lemma parse_str_unicode:
  assumes "unicode_escape s = Some (r, t)"
  shows "parse_str (CHR 0x5C # CHR ''u'' # s) =
    (case parse_str t of None \<Rightarrow> None | Some (x, rest) \<Rightarrow> Some (encode_rune r @ x, rest))"
  using assms by (simp add: parse_str.simps [of "CHR 0x5C # CHR ''u'' # s"])

lemma parse_str_plain:
  assumes "c \<noteq> CHR 0x22" and "c \<noteq> CHR 0x5C" and "\<not> byte c < 0x20"
    and "decode_rune (c # s @ t) = (r, Suc (length s))"
  shows "parse_str (c # s @ t) =
    (case parse_str t of None \<Rightarrow> None | Some (x, rest) \<Rightarrow> Some (encode_rune r @ x, rest))"
  using assms
  by (simp add: parse_str.simps [of "c # s @ t"] del: decode_rune.simps cong: option.case_cong)

lemma encode_valid_high:
  assumes "\<not> r < 0x80" and "valid_rune r"
  obtains c s where "encode_valid r = c # s" and "0xC0 \<le> byte c"
proof -
  have "r \<le> 0x10FFFF" using assms(2) by (simp add: valid_rune_def)
  then have "r < 0x800 \<Longrightarrow> r div 64 < 32" "r < 0x10000 \<Longrightarrow> r div 4096 < 16" "r div 262144 < 5"
    by linarith+
  then have "0xC0 \<le> byte (hd (encode_valid r))"
    using assms(1) by (auto simp: encode_valid_def)
  then show thesis using that [of "hd (encode_valid r)" "tl (encode_valid r)"] by simp
qed

lemma parse_str_ascii:
  assumes "byte c < 0x80"
  shows "parse_str (escape_ascii c @ t) =
    (case parse_str t of None \<Rightarrow> None | Some (x, rest) \<Rightarrow> Some (c # x, rest))"
proof -
  define S H where "S = {CHR 0x22, CHR 0x5C, CHR 0x08, CHR 0x0C, CHR 0x0A, CHR 0x0D, CHR 0x09}"
    and "H = {CHR ''<'', CHR ''>'', CHR ''&''}"
  consider (special) "c \<in> S" | (hex) "c \<notin> S" "byte c < 0x20 \<or> c \<in> H"
    | (plain) "c \<notin> S" "\<not> byte c < 0x20" "c \<notin> H"
    by blast
  then show ?thesis
  proof cases
    case special
    then show ?thesis
      by (auto simp: escape_ascii_def parse_str_simple simple_escape_def S_def)
  next
    case hex
    have b: "byte c div 16 < 16" "byte c mod 16 < 16" using byte_lt [of c] by linarith+
    have "unicode_escape (CHR ''0'' # CHR ''0'' # hex_digit (byte c div 16)
        # hex_digit (byte c mod 16) # t) = Some (byte c, t)"
      using assms b by (simp add: unicode_escape_def hex_value_consts hex_value_digit is_surrogate_def)
    moreover have "encode_rune (byte c) = [c]" using assms by (simp add: encode_rune_ascii)
    ultimately show ?thesis
      using hex unfolding S_def H_def by (simp add: escape_ascii_def parse_str_unicode cong: option.case_cong)
  next
    case plain
    have "parse_str (c # [] @ t) =
      (case parse_str t of None \<Rightarrow> None | Some (x, rest) \<Rightarrow> Some (encode_rune (byte c) @ x, rest))"
      by (rule parse_str_plain) (use plain assms in \<open>simp_all add: S_def decode_rune_ascii del: decode_rune.simps\<close>)
    moreover have "encode_rune (byte c) = [c]" using assms by (simp add: encode_rune_ascii)
    ultimately show ?thesis using plain unfolding S_def H_def by (simp add: escape_ascii_def cong: option.case_cong)
  qed
qed

lemma parse_str_rune:
  assumes "valid_rune r"
  shows "parse_str (escape_rune r @ t) =
    (case parse_str t of None \<Rightarrow> None | Some (x, rest) \<Rightarrow> Some (encode_rune r @ x, rest))"
proof -
  consider "r < 0x80" | "r = 0x2028 \<or> r = 0x2029" | "\<not> r < 0x80" "r \<noteq> 0x2028" "r \<noteq> 0x2029"
    by blast
  then show ?thesis
  proof cases
    case 1
    then show ?thesis
      using parse_str_ascii [of "byte_char r" t] 
      by (simp add: escape_rune_def encode_rune_ascii cong: option.case_cong)
  next
    case 2
    have "unicode_escape (''2028'' @ t) = Some (0x2028, t)"
      "unicode_escape (''2029'' @ t) = Some (0x2029, t)"
      by (simp_all add: unicode_escape_def hex_value_consts is_surrogate_def)
    with 2 show ?thesis
      by (auto simp: escape_rune_def parse_str_unicode)
  next
    case 3
    obtain c s where cs: "encode_valid r = c # s" "0xC0 \<le> byte c"
      using encode_valid_high [OF 3(1) assms] by blast
    have enc: "encode_rune r = c # s" using assms cs by (simp add: encode_rune_def)
    have ne: "c \<noteq> CHR 0x22" "c \<noteq> CHR 0x5C" using cs(2) by auto
    have "decode_rune (c # s @ t) = (r, Suc (length s))"
      using decode_encode_valid [OF assms, of t] cs(1) by (simp del: decode_rune.simps)
    from parse_str_plain [OF ne _ this] cs(2) show ?thesis
      using 3 enc by (simp add: escape_rune_def)
  qed
qed

lemma segments_encode_rune:
  assumes "valid_rune r"
  shows "segments (encode_rune r @ s) = (r, encode_rune r) # segments s"
  using assms decode_encode_valid [OF assms, of s]
  by (simp add: encode_rune_def segments.simps [of "encode_valid r @ s"] del: decode_rune.simps)

lemma escape_str_runes:
  assumes "\<forall>r \<in> set rs. valid_rune r"
  shows "escape_str (encode_runes rs) = concat (map escape_rune rs)"
  using assms
proof (induction rs)
  case (Cons r rs)
  have "length (encode_rune rune_error) = 3"
    by (simp add: rune_error_def encode_rune_def encode_valid_def valid_rune_def is_surrogate_def)
  then show ?case
    using Cons by (auto simp: escape_str_def segments_encode_rune)
qed (simp add: escape_str_def)

lemma parse_escaped_runes:
  "\<forall>r \<in> set rs. valid_rune r \<Longrightarrow>
   parse_str (concat (map escape_rune rs) @ CHR 0x22 # rest) = Some (encode_runes rs, rest)"
  by (induction rs) (simp_all add: parse_str_quote parse_str_rune)

theorem parse_quoted:
  assumes "utf8_ok s"
  shows "parse_str (escape_str s @ CHR 0x22 # rest) = Some (s, rest)"
  using assms escape_str_runes parse_escaped_runes by (auto simp: utf8_ok_def)

lemma utf8_ok_ascii: "\<forall>c \<in> set s. byte c < 0x80 \<Longrightarrow> utf8_ok s"
proof (induction s)
  case Nil
  show ?case unfolding utf8_ok_def by (intro exI [of _ "[]"]) simp
next
  case (Cons c s)
  then obtain rs where "\<forall>r \<in> set rs. valid_rune r" "s = encode_runes rs"
    by (auto simp: utf8_ok_def)
  moreover have "encode_rune (byte c) = [c]" "valid_rune (byte c)"
    using Cons.prems by (simp_all add: encode_rune_ascii valid_rune_def is_surrogate_def)
  ultimately show ?case unfolding utf8_ok_def by (intro exI [of _ "byte c # rs"]) simp
qed

lemma utf8_ok_append: "utf8_ok s \<Longrightarrow> utf8_ok t \<Longrightarrow> utf8_ok (s @ t)"
  unfolding utf8_ok_def by (metis Un_iff encode_runes_simps(3) set_append)

subsection \<open>Values\<close>

definition follow_ok :: "string \<Rightarrow> bool" where
  "follow_ok rest \<longleftrightarrow> (rest = [] \<or> hd rest \<in> {CHR '','', CHR '']'', CHR ''}'', CHR 0x0A})"

definition num_ok :: "string \<Rightarrow> bool" where
  "num_ok l \<longleftrightarrow> l \<noteq> [] \<and> (is_digit (hd l) \<or> hd l = CHR ''-'') \<and>
     (\<forall>rest. follow_ok rest \<longrightarrow> parse_number (l @ rest) = Some (l, rest))"

text \<open>The value can be written and read with nesting depth \<open>d\<close>.\<close>

fun json_fits :: "nat \<Rightarrow> json \<Rightarrow> bool" where
  "json_fits d JNull = True"
| "json_fits d (JBool b) = True"
| "json_fits d (JNum l) = num_ok l"
| "json_fits d (JStr s) = utf8_ok s"
| "json_fits d (JArr js) = (0 < d \<and> (\<forall>j \<in> set js. json_fits (d - 1) j))"
| "json_fits d (JObj ms) = (0 < d \<and> (\<forall>m \<in> set ms. utf8_ok (fst m) \<and> json_fits (d - 1) (snd m)))"

lemma expect_hit: "\<not> json_ws c \<Longrightarrow> expect c (c # t) = Some t"
  by (simp add: expect_def skip_ws_def)

lemma expect_miss: "\<not> json_ws x \<Longrightarrow> x \<noteq> c \<Longrightarrow> expect c (x # t) = None"
  by (simp add: expect_def skip_ws_def)

lemma json_ws_consts [simp]:
  "\<not> json_ws (CHR ''{'')" "\<not> json_ws (CHR ''}'')" "\<not> json_ws (CHR ''['')" "\<not> json_ws (CHR '']'')"
  "\<not> json_ws (CHR '','')" "\<not> json_ws (CHR '':'')" "\<not> json_ws (CHR 0x22)" "\<not> json_ws (CHR ''t'')"
  "\<not> json_ws (CHR ''f'')" "\<not> json_ws (CHR ''n'')"
  by (simp_all add: json_ws_def)

lemma digit_neq:
  "is_digit c \<or> c = CHR ''-'' \<Longrightarrow> \<not> json_ws c \<and>
    c \<notin> {CHR ''{'', CHR ''}'', CHR ''['', CHR '']'', CHR 0x22, CHR ''t'', CHR ''f'', CHR ''n''}"
  by (auto simp: is_digit_def json_ws_def)

lemma json_text_head:
  assumes "json_fits d j"
  obtains c t where "json_text j = c # t" "\<not> json_ws c" "c \<noteq> CHR '']''" "c \<noteq> CHR ''}''"
proof (cases j)
  case (JNum l)
  then have l: "l \<noteq> []" "is_digit (hd l) \<or> hd l = CHR ''-''" using assms by (auto simp: num_ok_def)
  show thesis using that [of "hd l" "tl l"] digit_neq [OF l(2)] l(1) JNum by simp
next
  case (JBool b)
  then show thesis by (cases b) (auto intro: that)
qed (use that in \<open>auto simp: quote_str_def\<close>)

lemma parse_scalar:
  assumes "follow_ok rest"
  shows "parse_value (Suc n) d (''null'' @ rest) = Some (JNull, rest)"
    and "parse_value (Suc n) d (''true'' @ rest) = Some (JBool True, rest)"
    and "parse_value (Suc n) d (''false'' @ rest) = Some (JBool False, rest)"
    and "num_ok l \<Longrightarrow> parse_value (Suc n) d (l @ rest) = Some (JNum l, rest)"
    and "utf8_ok s \<Longrightarrow> parse_value (Suc n) d (quote_str s @ rest) = Some (JStr s, rest)"
proof -
  show "parse_value (Suc n) d (''null'' @ rest) = Some (JNull, rest)"
    "parse_value (Suc n) d (''true'' @ rest) = Some (JBool True, rest)"
    "parse_value (Suc n) d (''false'' @ rest) = Some (JBool False, rest)"
    by (simp_all add: skip_ws_def has_prefix_def)
  show "utf8_ok s \<Longrightarrow> parse_value (Suc n) d (quote_str s @ rest) = Some (JStr s, rest)"
    by (simp add: skip_ws_def quote_str_def parse_quoted)
  assume l: "num_ok l"
  then obtain c t where ct: "l = c # t" "is_digit c \<or> c = CHR ''-''"
    by (cases l) (auto simp: num_ok_def)
  have "parse_number (l @ rest) = Some (l, rest)" using l assms by (simp add: num_ok_def)
  then show "parse_value (Suc n) d (l @ rest) = Some (JNum l, rest)"
    using digit_neq [OF ct(2)] ct(1) by (auto simp: skip_ws_def has_prefix_def)
qed

lemma follow_ok_Cons [simp]:
  "follow_ok (CHR '','' # t)" "follow_ok (CHR '']'' # t)" "follow_ok (CHR ''}'' # t)"
  "follow_ok (CHR 0x0A # t)" "follow_ok []"
  by (simp_all add: follow_ok_def)

lemma parse_elems_text:
  assumes "\<And>j rest n. j \<in> set js \<Longrightarrow> follow_ok rest \<Longrightarrow>
      2 * length (json_text j @ rest) + 1 \<le> n \<Longrightarrow> parse_value n d (json_text j @ rest) = Some (j, rest)"
    and "js \<noteq> []" and "2 * length (join_str '','' (map json_text js) @ CHR '']'' # rest) + 2 \<le> n"
  shows "parse_elems n d (join_str '','' (map json_text js) @ CHR '']'' # rest) = Some (js, rest)"
  using assms
proof (induction js arbitrary: n)
  case (Cons j js)
  obtain m where n: "n = Suc m" using Cons.prems(3) by (cases n) auto
  show ?case
  proof (cases js)
    case Nil
    have "parse_value m d (json_text j @ CHR '']'' # rest) = Some (j, CHR '']'' # rest)"
      using Cons.prems Nil n by simp
    then show ?thesis by (simp add: n Nil expect_hit del: parse_value.simps)
  next
    case (Cons j' js')
    let ?rest = "CHR '','' # join_str '','' (map json_text js) @ CHR '']'' # rest"
    have "parse_value m d (json_text j @ ?rest) = Some (j, ?rest)"
      using Cons.prems Cons n by (intro Cons.prems(1)) auto
    moreover have "parse_elems m d (join_str '','' (map json_text js) @ CHR '']'' # rest) = Some (js, rest)"
      using Cons.prems Cons n by (intro Cons.IH) auto
    ultimately show ?thesis
      by (simp add: n Cons expect_hit expect_miss del: parse_value.simps)
  qed
qed simp

abbreviation member_text :: "string \<times> json \<Rightarrow> string" where
  "member_text m \<equiv> quote_str (fst m) @ '':'' @ json_text (snd m)"

lemma parse_members_text:
  assumes "\<And>m rest n. m \<in> set ms \<Longrightarrow> follow_ok rest \<Longrightarrow>
      2 * length (json_text (snd m) @ rest) + 1 \<le> n \<Longrightarrow>
      parse_value n d (json_text (snd m) @ rest) = Some (snd m, rest)"
    and "\<forall>m \<in> set ms. utf8_ok (fst m)"
    and "ms \<noteq> []" and "2 * length (join_str '','' (map member_text ms) @ CHR ''}'' # rest) + 1 \<le> n"
  shows "parse_members n d (join_str '','' (map member_text ms) @ CHR ''}'' # rest) = Some (ms, rest)"
  using assms
proof (induction ms arbitrary: n)
  case (Cons m ms)
  obtain k where n: "n = Suc k" using Cons.prems(4) by (cases n) auto
  have str: "parse_str (escape_str (fst m) @ CHR 0x22 # t) = Some (fst m, t)" for t
    using Cons.prems(2) by (simp add: parse_quoted)
  show ?case
  proof (cases ms)
    case Nil
    have "parse_value k d (json_text (snd m) @ CHR ''}'' # rest) = Some (snd m, CHR ''}'' # rest)"
      using Cons.prems(4) Nil n by (intro Cons.prems(1)) (auto simp: quote_str_def)
    then show ?thesis
      by (simp add: n Nil expect_hit quote_str_def str del: parse_value.simps)
  next
    case (Cons m' ms')
    let ?rest = "CHR '','' # join_str '','' (map member_text ms) @ CHR ''}'' # rest"
    have "parse_value k d (json_text (snd m) @ ?rest) = Some (snd m, ?rest)"
      using Cons.prems(4) Cons n by (intro Cons.prems(1)) (auto simp: quote_str_def)
    moreover have "parse_members k d (join_str '','' (map member_text ms) @ CHR ''}'' # rest)
        = Some (ms, rest)"
      using Cons.prems Cons n by (intro Cons.IH) (auto simp: quote_str_def)
    ultimately show ?thesis
      by (simp add: n Cons expect_hit expect_miss quote_str_def [of "fst m"] str
          del: parse_value.simps)
  qed
qed simp

lemma parse_value_text:
  assumes "json_fits d j" and "follow_ok rest" and "2 * length (json_text j @ rest) + 1 \<le> n"
  shows "parse_value n d (json_text j @ rest) = Some (j, rest)"
  using assms
proof (induction d j arbitrary: rest n rule: json_fits.induct)
  case (1 d)
  then show ?case using parse_scalar(1) by (cases n) (simp_all del: parse_value.simps append_Cons)
next
  case (2 d b)
  then show ?case
    using parse_scalar(2,3) by (cases n; cases b) (simp_all del: parse_value.simps append_Cons)
next
  case (3 d l)
  then show ?case using parse_scalar(4) by (cases n) (simp_all del: parse_value.simps)
next
  case (4 d s)
  then show ?case using parse_scalar(5) by (cases n) (simp_all del: parse_value.simps)
next
  case (5 d js)
  obtain k where n: "n = Suc k" using "5.prems"(3) by (cases n) auto
  show ?case
  proof (cases js)
    case Nil
    then show ?thesis using "5.prems"(1) by (simp add: n skip_ws_def expect_hit)
  next
    case (Cons j js')
    have d: "0 < d" "json_fits (d - 1) j" using "5.prems"(1) Cons by auto
    obtain c t where ct: "json_text j = c # t" "\<not> json_ws c" "c \<noteq> CHR '']''"
      by (rule json_text_head [OF d(2)])
    have "\<exists>t'. join_str '','' (map json_text js) = c # t'"
      using Cons ct by (cases js') auto
    then have miss: "expect (CHR '']'') (join_str '','' (map json_text js) @ CHR '']'' # rest) = None"
      using ct expect_miss by auto
    have "parse_elems k (d - 1) (join_str '','' (map json_text js) @ CHR '']'' # rest) = Some (js, rest)"
      by (rule parse_elems_text) (use "5.IH" "5.prems" Cons n in auto)
    then show ?thesis
      using d miss by (simp add: n skip_ws_def del: parse_elems.simps)
  qed
next
  case (6 d ms)
  obtain k where n: "n = Suc k" using "6.prems"(3) by (cases n) auto
  show ?case
  proof (cases ms)
    case Nil
    then show ?thesis using "6.prems"(1) by (simp add: n skip_ws_def expect_hit)
  next
    case (Cons m ms')
    have d: "0 < d" using "6.prems"(1) by simp
    have "\<exists>t'. join_str '','' (map member_text ms) = CHR 0x22 # t'"
      using Cons by (cases ms') (auto simp: quote_str_def)
    then have miss: "expect (CHR ''}'') (join_str '','' (map member_text ms) @ CHR ''}'' # rest) = None"
      using expect_miss [of "CHR 0x22"] by auto
    have "parse_members k (d - 1) (join_str '','' (map member_text ms) @ CHR ''}'' # rest)
        = Some (ms, rest)"
    proof (rule parse_members_text)
      fix x r l
      assume "x \<in> set ms" "follow_ok r" "2 * length (json_text (snd x) @ r) + 1 \<le> l"
      with "6.prems"(1) show "parse_value l (d - 1) (json_text (snd x) @ r) = Some (snd x, r)"
        by (intro "6.IH") auto
    qed (use "6.prems" Cons n in auto)
    then show ?thesis
      using d miss by (simp add: n skip_ws_def del: parse_members.simps)
  qed
qed

theorem json_first_text:
  assumes "json_fits max_nesting j" and "follow_ok rest"
  shows "json_first (json_text j @ rest) = Some j"
  using parse_value_text [OF assms order_refl] by (simp add: json_first_def del: parse_value.simps)

theorem json_parse_text:
  assumes "json_fits max_nesting j"
  shows "json_parse (json_text j) = Some j"
  using parse_value_text [OF assms _ order_refl, of "[]"]
  by (simp add: json_parse_def skip_ws_def del: parse_value.simps)

lemma decode_first_text:
  assumes "json_fits max_nesting j" and "follow_ok rest"
  shows "decode_first d zero (json_text j @ rest) = decode_result d zero (Some j)"
  by (simp only: decode_first_def json_first_text [OF assms])

text \<open>Strings of unremarkable bytes are written as they are.\<close>

definition plain_json :: "string \<Rightarrow> bool" where
  "plain_json s \<longleftrightarrow> (\<forall>c \<in> set s. 0x20 \<le> byte c \<and> byte c < 0x7F \<and>
     c \<notin> {CHR 0x22, CHR 0x5C, CHR ''<'', CHR ''>'', CHR ''&''})"

lemma plain_json_utf8:
  assumes "plain_json s"
  shows "utf8_ok s"
proof (rule utf8_ok_ascii, rule ballI)
  fix c
  assume "c \<in> set s"
  with assms have "byte c < 0x7F" unfolding plain_json_def by blast
  then show "byte c < 0x80" by (rule less_trans) simp
qed

lemma byte_ge_neq: "\<not> byte c < n \<Longrightarrow> byte x < n \<Longrightarrow> c \<noteq> x"
  by (erule contrapos_nn) (simp only:)

lemma escape_ascii_plain:
  assumes "plain_json [c]"
  shows "escape_ascii c = [c]"
proof -
  have ge: "\<not> byte c < 0x20"
    and ne: "c \<noteq> CHR 0x22" "c \<noteq> CHR 0x5C" "c \<noteq> CHR ''<''" "c \<noteq> CHR ''>''" "c \<noteq> CHR ''&''"
    using assms by (simp_all add: plain_json_def)
  have "c \<noteq> CHR 0x08" "c \<noteq> CHR 0x0C" "c \<noteq> CHR 0x0A" "c \<noteq> CHR 0x0D" "c \<noteq> CHR 0x09"
    by (rule byte_ge_neq [OF ge], simp)+
  with ge ne show ?thesis by (simp only: escape_ascii_def if_False simp_thms insert_iff empty_iff)
qed

lemma quote_str_plain: "plain_json s \<Longrightarrow> quote_str s = [CHR 0x22] @ s @ [CHR 0x22]"
proof -
  assume "plain_json s"
  then have "escape_str s = s"
  proof (induction s)
    case (Cons c s)
    then have c: "plain_json [c]" "plain_json s" by (simp_all add: plain_json_def)
    have b: "byte c < 0x80" using c(1) by (simp add: plain_json_def)
    have "escape_rune (byte c) = [c]"
      using escape_ascii_plain [OF c(1)] b by (simp add: escape_rune_def)
    moreover have "byte c \<noteq> rune_error" using b by (simp add: rune_error_def)
    ultimately show ?case
      using Cons.IH [OF c(2)] b by (simp add: escape_str_def segments_ascii)
  qed (simp add: escape_str_def)
  then show ?thesis by (simp add: quote_str_def)
qed

text \<open>Decimal numbers without leading zeros are number literals.\<close>

lemma follow_not_number:
  assumes "follow_ok rest" and "rest = c # t"
  shows "\<not> is_digit c" "c \<noteq> CHR ''.''" "c \<noteq> CHR ''e''" "c \<noteq> CHR ''E''"
  using assms by (auto simp: follow_ok_def is_digit_def)

lemma num_ok_digits:
  assumes "l \<noteq> []" and "\<forall>c \<in> set l. is_digit c" and "l = ''0'' \<or> hd l \<noteq> CHR ''0''"
  shows "num_ok l"
proof -
  have digit: "is_digit (hd l)" using assms(1,2) by simp
  then have minus: "hd l \<noteq> CHR ''-''" by (auto simp: is_digit_def)
  have "parse_number (l @ rest) = Some (l, rest)" if "follow_ok rest" for rest
  proof -
    have stop: "takeWhile is_digit rest = [] \<and> dropWhile is_digit rest = rest \<and>
        scan_fraction rest = Some ([], rest) \<and> scan_exponent rest = Some ([], rest)"
    proof (cases rest)
      case (Cons c t)
      then show ?thesis
        using follow_not_number [OF that Cons] by (simp add: scan_fraction_def scan_exponent_def)
    qed (simp add: scan_fraction_def scan_exponent_def)
    have int: "scan_int (l @ rest) = Some (l, rest)"
    proof (cases "l = ''0''")
      case False
      then have "hd l \<noteq> CHR ''0''" using assms(3) by simp
      moreover have "takeWhile is_digit (l @ rest) = l" "dropWhile is_digit (l @ rest) = rest"
        using assms(2) stop by (simp_all add: takeWhile_append2 dropWhile_append2)
      ultimately show ?thesis
        using assms(1) by (cases l) (simp_all add: scan_int_def scan_digits_def)
    qed (simp add: scan_int_def)
    show ?thesis
      using int minus assms(1) stop by (cases l) (simp_all add: parse_number_def)
  qed
  then show ?thesis using assms(1) digit by (simp add: num_ok_def)
qed

lemma digit_char: "n < 10 \<Longrightarrow> is_digit (char_of (48 + n :: nat))"
  by (simp add: is_digit_def)

lemma dec_text_digits:
  "dec_text n \<noteq> [] \<and> (\<forall>c \<in> set (dec_text n). is_digit c) \<and>
     (0 < n \<longrightarrow> hd (dec_text n) \<noteq> CHR ''0'')"
proof (induction n rule: dec_text.induct)
  case (1 n)
  show ?case
  proof (cases "n < 10")
    case True
    have "char_of (48 + n) \<noteq> CHR ''0''" if "0 < n"
    proof
      assume "char_of (48 + n) = CHR ''0''"
      then have "of_char (char_of (48 + n) :: char) = (of_char (CHR ''0'') :: nat)" by simp
      then show False using True that by simp
    qed
    then show ?thesis using True digit_char [OF True] by (simp add: dec_text.simps [of n])
  next
    case False
    then show ?thesis
      using 1 [OF False] digit_char [of "n mod 10"] by (auto simp: dec_text.simps [of n])
  qed
qed

lemma num_ok_dec_text: "num_ok (dec_text n)"
proof (rule num_ok_digits)
  show "dec_text n = ''0'' \<or> hd (dec_text n) \<noteq> CHR ''0''"
    using dec_text_digits [of n] by (cases "n = 0") (simp_all add: dec_text.simps [of 0])
qed (use dec_text_digits [of n] in simp_all)

end
