(* ===== verification/Http_Types.thy ===== *)
theory Http_Types
  imports Go_Strings Go_Utf8
begin

text \<open>
  The parts of \<open>net/http\<close> and \<open>net/url\<close> the program uses: requests and responses of the server
  side, requests and responses of the client side with the client as a function that changes the
  world \<open>'w\<close> behind it, canonical header names, and query escaping.
\<close>

subsection \<open>Server side\<close>

text \<open>
  \<open>req_headers\<close> is keyed by canonical names; \<open>req_body\<close> is \<open>None\<close> when reading the body
  fails. \<open>req_path\<close> is the path of the URL.
\<close>

record response =
  res_status :: nat
  res_headers :: "(string \<times> string) list"
  res_body :: string

record request =
  req_method :: string
  req_path :: string
  req_headers :: "string \<rightharpoonup> string"
  req_remote :: string
  req_body :: "string option"

text \<open>\<open>textproto.CanonicalMIMEHeaderKey\<close>: unchanged unless every byte may occur in a name.\<close>

definition upper_char :: "char \<Rightarrow> char" where
  "upper_char c = (if 97 \<le> byte c \<and> byte c \<le> 122 then byte_char (byte c - 32) else c)"

definition token_char :: "char \<Rightarrow> bool" where
  "token_char c \<longleftrightarrow>
     (48 \<le> byte c \<and> byte c \<le> 57) \<or> (65 \<le> byte c \<and> byte c \<le> 90) \<or>
     (97 \<le> byte c \<and> byte c \<le> 122) \<or> c \<in> set ''!#$%&*+-.^_`|~'' \<or> byte c = 39"

fun canonical_chars :: "bool \<Rightarrow> string \<Rightarrow> string" where
  "canonical_chars up [] = []"
| "canonical_chars up (c # s) =
     (if up then upper_char c else lower_char c) # canonical_chars (c = CHR ''-'') s"

definition canonical_name :: "string \<Rightarrow> string" where
  "canonical_name s = (if list_all token_char s then canonical_chars True s else s)"

text \<open>\<open>r.Header.Get(name)\<close>.\<close>

definition req_header :: "request \<Rightarrow> string \<Rightarrow> string" where
  "req_header r name = (case req_headers r (canonical_name name) of None \<Rightarrow> [] | Some v \<Rightarrow> v)"

lemma canonical_consts [simp]:
  "canonical_name ''Authorization'' = ''Authorization''"
  "canonical_name ''Content-Encoding'' = ''Content-Encoding''"
  "canonical_name ''Content-Type'' = ''Content-Type''"
  "canonical_name ''X-Origin-Verify'' = ''X-Origin-Verify''"
  "canonical_name ''X-Actor-DID'' = ''X-Actor-Did''"
  "canonical_name ''CF-Connecting-IP'' = ''Cf-Connecting-Ip''"
  by code_simp+

text \<open>\<open>http.Error\<close>, a bare status, and a header set before.\<close>

definition http_error :: "string \<Rightarrow> nat \<Rightarrow> response" where
  "http_error text code =
     \<lparr>res_status = code,
      res_headers = [(''Content-Type'', ''text/plain; charset=utf-8''),
                     (''X-Content-Type-Options'', ''nosniff'')],
      res_body = text @ [CHR 0x0A]\<rparr>"

definition bare_status :: "nat \<Rightarrow> response" where
  "bare_status code = \<lparr>res_status = code, res_headers = [], res_body = []\<rparr>"

definition with_header :: "string \<Rightarrow> string \<Rightarrow> response \<Rightarrow> response" where
  "with_header k v res = res\<lparr>res_headers := (k, v) # res_headers res\<rparr>"

lemma status_simps [simp, handler_simps]:
  "res_status (http_error t c) = c" "res_status (bare_status c) = c"
  "res_status (with_header k v res) = res_status res"
  by (simp_all add: http_error_def bare_status_def with_header_def)

subsection \<open>Client side\<close>

record http_req =
  hq_method :: string
  hq_url :: string
  hq_headers :: "(string \<times> string) list"
  hq_body :: string

record http_resp =
  hp_status :: nat
  hp_body :: string

text \<open>The transport: a cause of failure or a response.\<close>

type_synonym 'w http_client = "http_req \<Rightarrow> 'w \<Rightarrow> 'w \<times> (string + http_resp)"

text \<open>
  The text of the error \<open>Client.Do\<close> returns (\<open>*url.Error\<close>): operation, quoted URL, cause. The
  operation is the method with one capital.
\<close>

definition url_error_text :: "(nat \<Rightarrow> bool) \<Rightarrow> string \<Rightarrow> string \<Rightarrow> string \<Rightarrow> string" where
  "url_error_text printable method url cause =
     canonical_chars True method @ '' '' @ go_quote printable url @ '': '' @ cause"

text \<open>
  The error of \<open>http.NewRequest\<close>, which is that of \<open>url.Parse\<close>. For a URL with a valid
  scheme and host it is a control byte before the fragment, or a percent sign that starts no
  escape in the path or in the fragment; the query is not checked.
\<close>

definition hex_char :: "char \<Rightarrow> bool" where
  "hex_char c \<longleftrightarrow> (48 \<le> byte c \<and> byte c \<le> 57) \<or> (65 \<le> byte c \<and> byte c \<le> 70) \<or>
     (97 \<le> byte c \<and> byte c \<le> 102)"

fun first_bad_escape :: "string \<Rightarrow> string option" where
  "first_bad_escape [] = None"
| "first_bad_escape (c # s) =
     (if c = CHR ''%'' then
        (case s of
           a # b # t \<Rightarrow> if hex_char a \<and> hex_char b then first_bad_escape t else Some [c, a, b]
         | _ \<Rightarrow> Some (c # s))
      else first_bad_escape s)"

definition url_parse_error :: "(nat \<Rightarrow> bool) \<Rightarrow> string \<Rightarrow> string option" where
  "url_parse_error printable u =
     (let (rest, frag, _) = cut_at (CHR ''#'') u; (path, _, _) = cut_at (CHR ''?'') rest;
          message = (\<lambda>text cause. ''parse '' @ go_quote printable text @ '': '' @ cause) in
      if \<exists>c \<in> set rest. byte c < 0x20 \<or> byte c = 0x7F
        then Some (message rest ''net/url: invalid control character in URL'')
      else case first_bad_escape path of
        Some e \<Rightarrow> Some (message rest (''invalid URL escape '' @ go_quote printable e))
      | None \<Rightarrow>
          (case first_bad_escape frag of
             Some e \<Rightarrow> Some (message u (''invalid URL escape '' @ go_quote printable e))
           | None \<Rightarrow> None))"

text \<open>\<open>url.QueryEscape\<close>.\<close>

definition unreserved_char :: "char \<Rightarrow> bool" where
  "unreserved_char c \<longleftrightarrow>
     (48 \<le> byte c \<and> byte c \<le> 57) \<or> (65 \<le> byte c \<and> byte c \<le> 90) \<or>
     (97 \<le> byte c \<and> byte c \<le> 122) \<or> c \<in> set ''-_.~''"

definition upper_hex :: "nat \<Rightarrow> char" where
  "upper_hex n = byte_char (if n < 10 then 48 + n else 55 + n)"

definition escape_query_char :: "char \<Rightarrow> string" where
  "escape_query_char c =
     (if unreserved_char c then [c]
      else if c = CHR '' '' then ''+''
      else [CHR ''%'', upper_hex (byte c div 16), upper_hex (byte c mod 16)])"

definition query_escape :: "string \<Rightarrow> string" where
  "query_escape s = concat (map escape_query_char s)"

text \<open>An escaped value cannot end its parameter: none of the bytes that structure a URL is left.\<close>

lemma upper_hex_unreserved: "n < 16 \<Longrightarrow> unreserved_char (upper_hex n)"
  by (auto simp: unreserved_char_def upper_hex_def)

lemma query_escape_safe:
  assumes "c \<in> set (query_escape s)"
  shows "unreserved_char c \<or> c = CHR ''+'' \<or> c = CHR ''%''"
proof -
  obtain x where x: "c \<in> set (escape_query_char x)"
    using assms by (auto simp: query_escape_def)
  have "byte x div 16 < 16" "byte x mod 16 < 16" using byte_lt [of x] by linarith+
  with x show ?thesis
    by (auto simp: escape_query_char_def upper_hex_unreserved split: if_splits)
qed

end
