(* ===== verification/Push_Senders.thy ===== *)
theory Push_Senders
  imports Push_Types Go_Json_Roundtrip Http_Types
begin

text \<open>
  The senders of \<open>internal/push\<close>: Expo, APNs, FCM and the router before them. The transport, the
  signing of the APNs provider token (\<open>golang-jwt\<close>) and the OAuth token source are fields of the
  environment; the clock is a sequence of readings in nanoseconds.
\<close>

datatype push_log =
    LogSent string string string
  | LogRouting string string
  | LogSkipped string
  | LogWebUnsupported string
  | LogPlatformUnsupported string string

record 'w push_state =
  ps_net :: 'w
  ps_apns_token :: string
  ps_apns_exp :: int
  ps_ticks :: nat
  ps_log :: "push_log list"

record 'w push_env =
  pe_client :: "'w http_client"
  pe_clock :: "nat \<Rightarrow> int"
  pe_debug :: bool
  pe_printable :: "nat \<Rightarrow> bool"
  pe_sign :: "string \<Rightarrow> string \<Rightarrow> string \<Rightarrow> int \<Rightarrow> string + string"
  pe_oauth :: "'w \<Rightarrow> 'w \<times> (string + string)"

record expo_sender =
  ex_access_token :: string
  ex_base_url :: string

record apns_sender =
  ap_key_id :: string
  ap_team_id :: string
  ap_key :: string
  ap_topic :: string
  ap_sandbox :: bool
  ap_base_url :: string

record fcm_sender =
  fc_project_id :: string
  fc_base_url :: string
  fc_data_only :: bool

record multi_sender =
  ms_expo :: expo_sender
  ms_apns :: "apns_sender option"
  ms_fcm :: "fcm_sender option"

definition minute :: int where
  "minute = 60 * 1000000000"

definition second :: int where
  "second = 1000000000"

definition new_expo_sender :: "string \<Rightarrow> expo_sender" where
  "new_expo_sender access = \<lparr>ex_access_token = access, ex_base_url = ''https://exp.host''\<rparr>"

definition new_multi_sender :: "string \<Rightarrow> multi_sender" where
  "new_multi_sender access = \<lparr>ms_expo = new_expo_sender access, ms_apns = None, ms_fcm = None\<rparr>"

subsection \<open>Tokens in log lines\<close>

definition truncate_token :: "string \<Rightarrow> nat \<Rightarrow> string" where
  "truncate_token token max_len =
     (if length token \<le> max_len then token else take max_len token @ ''...'')"

definition token_for_log :: "bool \<Rightarrow> string \<Rightarrow> string" where
  "token_for_log debug token = (if debug then truncate_token token 20 else ''[redacted]'')"

definition add_log :: "push_log \<Rightarrow> 'w push_state \<Rightarrow> 'w push_state" where
  "add_log l st = st\<lparr>ps_log := ps_log st @ [l]\<rparr>"

definition read_clock :: "'w push_env \<Rightarrow> 'w push_state \<Rightarrow> int \<times> 'w push_state" where
  "read_clock env st = (pe_clock env (ps_ticks st), st\<lparr>ps_ticks := Suc (ps_ticks st)\<rparr>)"

definition data_get :: "notification \<Rightarrow> string \<Rightarrow> string" where
  "data_get n k = (case map_of (n_data n) k of None \<Rightarrow> [] | Some v \<Rightarrow> v)"

definition data_member :: "(string \<times> string) list \<Rightarrow> (string \<times> json) list" where
  "data_member m = (if m = [] then [] else [(''data'', json_string_map m)])"

text \<open>One request: the URL is parsed when the request is made, then the client is run.\<close>

definition client_do ::
  "'w push_env \<Rightarrow> http_req \<Rightarrow> 'w push_state \<Rightarrow> 'w push_state \<times> (string + http_resp)" where
  "client_do env q st =
     (let (w, res) = pe_client env q (ps_net st) in
      (st\<lparr>ps_net := w\<rparr>,
       (case res of
          Inl cause \<Rightarrow> Inl (url_error_text (pe_printable env) (hq_method q) (hq_url q) cause)
        | Inr resp \<Rightarrow> Inr resp)))"

subsection \<open>Expo\<close>

definition expo_message :: "notification \<Rightarrow> json" where
  "expo_message n = JObj
     ([(''to'', JStr (n_token n)), (''title'', JStr (n_title n)), (''body'', JStr (n_body n))]
      @ data_member (n_data n)
      @ [(''sound'', JStr ''default''), (''mutableContent'', JBool True)])"

definition send_expo ::
  "'w push_env \<Rightarrow> expo_sender \<Rightarrow> notification \<Rightarrow> 'w push_state \<Rightarrow> 'w push_state \<times> send_error option"
  where
  "send_expo env e n st =
     (let url = ex_base_url e @ ''/--/api/v2/push/send'' in
      case url_parse_error (pe_printable env) url of
        Some err \<Rightarrow> (st, Some (SendFailed err))
      | None \<Rightarrow>
          let q = \<lparr>hq_method = ''POST'', hq_url = url,
                   hq_headers = (''Content-Type'', ''application/json'') #
                     (if ex_access_token e \<noteq> []
                      then [(''Authorization'', ''Bearer '' @ ex_access_token e)] else []),
                   hq_body = json_text (expo_message n)\<rparr> in
          (case client_do env q st of
             (st1, Inl err) \<Rightarrow> (st1, Some (SendFailed err))
           | (st1, Inr resp) \<Rightarrow>
               if hp_status resp \<noteq> 200
               then (st1, Some (SendFailed (''expo push API returned '' @ dec_text (hp_status resp))))
               else (add_log (LogSent ''expo'' (token_for_log (pe_debug env) (n_token n))
                        (data_get n ''reason'')) st1, None)))"

subsection \<open>APNs\<close>

text \<open>What the PEM and PKCS8 parsers make of the key bytes.\<close>

datatype p8_result = NoPemBlock | BadPrivateKey string | NotEcdsaKey | EcdsaKey string

definition new_apns_sender_from_bytes ::
  "(string \<Rightarrow> p8_result) \<Rightarrow> string \<Rightarrow> string \<Rightarrow> string \<Rightarrow> string \<Rightarrow> bool \<Rightarrow> string + apns_sender" where
  "new_apns_sender_from_bytes parse_p8 data key_id team topic sandbox =
     (case parse_p8 data of
        NoPemBlock \<Rightarrow> Inl ''failed to decode PEM block from APNs key''
      | BadPrivateKey err \<Rightarrow> Inl (''failed to parse APNs private key: '' @ err)
      | NotEcdsaKey \<Rightarrow> Inl ''APNs key is not an ECDSA key''
      | EcdsaKey k \<Rightarrow>
          Inr \<lparr>ap_key_id = key_id, ap_team_id = team, ap_key = k, ap_topic = topic,
               ap_sandbox = sandbox,
               ap_base_url = (if sandbox then ''https://api.sandbox.push.apple.com''
                              else ''https://api.push.apple.com'')\<rparr>)"

definition new_apns_sender ::
  "(string \<Rightarrow> string + string) \<Rightarrow> (string \<Rightarrow> p8_result) \<Rightarrow> string \<Rightarrow> string \<Rightarrow> string \<Rightarrow> string \<Rightarrow> bool
     \<Rightarrow> string + apns_sender" where
  "new_apns_sender read_file parse_p8 path key_id team topic sandbox =
     (case read_file path of
        Inl err \<Rightarrow> Inl (''failed to read APNs key file: '' @ err)
      | Inr data \<Rightarrow> new_apns_sender_from_bytes parse_p8 data key_id team topic sandbox)"

text \<open>
  The cached provider token is used again until five minutes before it expires, one hour after it
  was signed. \<open>iat\<close> is in seconds.
\<close>

definition get_token ::
  "'w push_env \<Rightarrow> apns_sender \<Rightarrow> 'w push_state \<Rightarrow> 'w push_state \<times> (string + string)" where
  "get_token env a st =
     (let (reuse, st1) =
        (if ps_apns_token st = [] then (False, st)
         else let (t, st') = read_clock env st in (t < ps_apns_exp st - 5 * minute, st')) in
      if reuse then (st1, Inr (ps_apns_token st1))
      else
        let (now, st2) = read_clock env st1 in
        (case pe_sign env (ap_key a) (ap_key_id a) (ap_team_id a) (now div second) of
           Inl err \<Rightarrow> (st2, Inl (''failed to sign APNs JWT: '' @ err))
         | Inr signed \<Rightarrow>
             (st2\<lparr>ps_apns_token := signed, ps_apns_exp := now + 60 * minute\<rparr>, Inr signed)))"

definition apns_payload :: "notification \<Rightarrow> json" where
  "apns_payload n = JObj
     ([(''aps'', JObj
         [(''alert'', JObj [(''title'', JStr (n_title n)), (''body'', JStr (n_body n))]),
          (''sound'', JStr ''default''), (''mutable-content'', JNum ''1'')])]
      @ data_member (n_data n))"

definition apns_reason_fields :: "(string \<times> string decoder) list" where
  "apns_reason_fields = [(''reason'', dec_string)]"

definition apns_device_url :: "apns_sender \<Rightarrow> string \<Rightarrow> string" where
  "apns_device_url a token = ap_base_url a @ ''/3/device/'' @ token"

definition apns_request :: "apns_sender \<Rightarrow> string \<Rightarrow> notification \<Rightarrow> http_req" where
  "apns_request a token n =
     \<lparr>hq_method = ''POST'', hq_url = apns_device_url a (n_token n),
      hq_headers = [(''Authorization'', ''bearer '' @ token), (''apns-topic'', ap_topic a),
        (''apns-push-type'', ''alert''), (''apns-priority'', ''10''),
        (''Content-Type'', ''application/json'')],
      hq_body = json_text (apns_payload n)\<rparr>"

definition apns_result :: "http_resp \<Rightarrow> send_error option" where
  "apns_result resp =
     (if hp_status resp = 200 then None
      else let reason = decode_lossy (dec_struct apns_reason_fields) [] (hp_body resp) in
        if hp_status resp = 410 \<or> reason = ''Unregistered'' \<or> reason = ''BadDeviceToken''
        then Some (TokenInvalid (''push token permanently invalid: APNs ''
               @ dec_text (hp_status resp) @ '' '' @ reason))
        else Some (SendFailed (''APNs returned '' @ dec_text (hp_status resp) @ '': '' @ reason)))"

definition send_apns ::
  "'w push_env \<Rightarrow> apns_sender \<Rightarrow> notification \<Rightarrow> 'w push_state \<Rightarrow> 'w push_state \<times> send_error option"
  where
  "send_apns env a n st =
     (case get_token env a st of
        (st1, Inl err) \<Rightarrow> (st1, Some (SendFailed err))
      | (st1, Inr token) \<Rightarrow>
          (case url_parse_error (pe_printable env) (apns_device_url a (n_token n)) of
             Some err \<Rightarrow> (st1, Some (SendFailed err))
           | None \<Rightarrow>
               (case client_do env (apns_request a token n) st1 of
                  (st2, Inl err) \<Rightarrow> (st2, Some (SendFailed (''APNs request failed: '' @ err)))
                | (st2, Inr resp) \<Rightarrow>
                    (case apns_result resp of
                       Some err \<Rightarrow> (st2, Some err)
                     | None \<Rightarrow>
                         (add_log (LogSent ''apns'' (token_for_log (pe_debug env) (n_token n))
                            (data_get n ''reason'')) st2, None)))))"

subsection \<open>FCM\<close>

definition set_data_only :: "bool \<Rightarrow> fcm_sender \<Rightarrow> fcm_sender" where
  "set_data_only enabled f = f\<lparr>fc_data_only := enabled\<rparr>"

definition project_fields :: "(string \<times> string decoder) list" where
  "project_fields = [(''project_id'', dec_string)]"

text \<open>\<open>google.CredentialsFromJSON\<close> is the argument \<open>creds\<close>: \<open>None\<close> when it accepts.\<close>

definition new_fcm_sender_from_bytes ::
  "(string \<Rightarrow> string option) \<Rightarrow> string \<Rightarrow> string + fcm_sender" where
  "new_fcm_sender_from_bytes creds data =
     (case unmarshal (dec_struct project_fields) [] data of
        None \<Rightarrow> Inl ''failed to parse FCM service account JSON''
      | Some project \<Rightarrow>
          if project = [] then Inl ''FCM service account JSON missing project_id''
          else (case creds data of
                  Some err \<Rightarrow> Inl (''failed to create FCM credentials: '' @ err)
                | None \<Rightarrow> Inr \<lparr>fc_project_id = project,
                    fc_base_url = ''https://fcm.googleapis.com'', fc_data_only = False\<rparr>))"

definition new_fcm_sender ::
  "(string \<Rightarrow> string + string) \<Rightarrow> (string \<Rightarrow> string option) \<Rightarrow> string \<Rightarrow> string + fcm_sender" where
  "new_fcm_sender read_file creds path =
     (case read_file path of
        Inl err \<Rightarrow> Inl (''failed to read FCM service account file: '' @ err)
      | Inr data \<Rightarrow> new_fcm_sender_from_bytes creds data)"

definition fcm_channel :: "notification \<Rightarrow> string" where
  "fcm_channel n = (if data_get n ''reason'' = [] then ''default'' else data_get n ''reason'')"

definition fcm_data :: "notification \<Rightarrow> (string \<times> string) list" where
  "fcm_data n =
     AList.update ''channelId'' (fcm_channel n)
       (AList.update ''body'' (n_body n) (AList.update ''title'' (n_title n) (n_data n)))"

definition fcm_message :: "fcm_sender \<Rightarrow> notification \<Rightarrow> json" where
  "fcm_message f n = JObj [(''message'',
     if fc_data_only f then JObj
       ([(''token'', JStr (n_token n))] @ data_member (fcm_data n)
        @ [(''android'', JObj [(''priority'', JStr ''high'')])])
     else JObj
       ([(''token'', JStr (n_token n)),
         (''notification'', JObj [(''title'', JStr (n_title n)), (''body'', JStr (n_body n))])]
        @ data_member (n_data n)
        @ [(''android'', JObj [(''priority'', JStr ''high''),
             (''notification'', JObj [(''channel_id'', JStr (fcm_channel n))])])]))]"

record fcm_error =
  fe_message :: string
  fe_status :: string

definition fcm_error_fields :: "(string \<times> fcm_error decoder) list" where
  "fcm_error_fields =
     [(''error'', dec_struct
        [(''message'', dec_field fe_message (\<lambda>x r. r\<lparr>fe_message := x\<rparr>) dec_string),
         (''status'', dec_field fe_status (\<lambda>x r. r\<lparr>fe_status := x\<rparr>) dec_string)])]"

definition fcm_result :: "http_resp \<Rightarrow> send_error option" where
  "fcm_result resp =
     (if hp_status resp = 200 then None
      else let e = decode_lossy (dec_struct fcm_error_fields) \<lparr>fe_message = [], fe_status = []\<rparr>
                     (hp_body resp) in
        if fe_status e = ''UNREGISTERED'' \<or> fe_status e = ''NOT_FOUND''
        then Some (TokenInvalid (''push token permanently invalid: FCM '' @ fe_status e @ '' ''
               @ fe_message e))
        else Some (SendFailed (''FCM returned '' @ dec_text (hp_status resp) @ '': '' @ fe_status e
               @ '' ('' @ fe_message e @ '')'')))"

definition send_fcm ::
  "'w push_env \<Rightarrow> fcm_sender \<Rightarrow> notification \<Rightarrow> 'w push_state \<Rightarrow> 'w push_state \<times> send_error option"
  where
  "send_fcm env f n st =
     (let (w, tok) = pe_oauth env (ps_net st); st1 = st\<lparr>ps_net := w\<rparr> in
      case tok of
        Inl err \<Rightarrow> (st1, Some (SendFailed (''failed to get FCM OAuth2 token: '' @ err)))
      | Inr access \<Rightarrow>
          let url = fc_base_url f @ ''/v1/projects/'' @ fc_project_id f @ ''/messages:send'' in
          (case url_parse_error (pe_printable env) url of
             Some err \<Rightarrow> (st1, Some (SendFailed err))
           | None \<Rightarrow>
               let q = \<lparr>hq_method = ''POST'', hq_url = url,
                        hq_headers = [(''Authorization'', ''Bearer '' @ access),
                          (''Content-Type'', ''application/json'')],
                        hq_body = json_text (fcm_message f n)\<rparr> in
               (case client_do env q st1 of
                  (st2, Inl err) \<Rightarrow> (st2, Some (SendFailed (''FCM request failed: '' @ err)))
                | (st2, Inr resp) \<Rightarrow>
                    (case fcm_result resp of
                       Some err \<Rightarrow> (st2, Some err)
                     | None \<Rightarrow>
                         (add_log (LogSent ''fcm'' (token_for_log (pe_debug env) (n_token n))
                            (data_get n ''reason'')) st2, None)))))"

subsection \<open>The router\<close>

definition is_expo_token :: "string \<Rightarrow> bool" where
  "is_expo_token token \<longleftrightarrow> has_prefix token ''ExponentPushToken[''"

definition multi_send :: "'w push_env \<Rightarrow> multi_sender \<Rightarrow> 'w push_state sender" where
  "multi_send env m n st =
     (if n_platform n = ''ios'' then
        (if is_expo_token (n_token n)
           then send_expo env (ms_expo m) n (add_log (LogRouting ''iOS'' ''Expo'') st)
         else case ms_apns m of
           Some a \<Rightarrow> send_apns env a n (add_log (LogRouting ''iOS'' ''APNs'') st)
         | None \<Rightarrow> (add_log (LogSkipped ''iOS'') st, None))
      else if n_platform n = ''android'' then
        (if is_expo_token (n_token n)
           then send_expo env (ms_expo m) n (add_log (LogRouting ''Android'' ''Expo'') st)
         else case ms_fcm m of
           Some f \<Rightarrow> send_fcm env f n (add_log (LogRouting ''Android'' ''FCM'') st)
         | None \<Rightarrow> (add_log (LogSkipped ''Android'') st, None))
      else if n_platform n = ''web'' then
        (add_log (LogWebUnsupported (token_for_log (pe_debug env) (n_token n))) st,
         Some (SendFailed ''web push not yet supported''))
      else
        (add_log (LogPlatformUnsupported (n_platform n)
            (token_for_log (pe_debug env) (n_token n))) st,
         Some (SendFailed (''unsupported platform: '' @ n_platform n))))"

end
