(* ===== verification/Relay_Store.thy ===== *)
theory Relay_Store
  imports Store
begin

text \<open>
  The interface \<open>relay.Store\<close>: the five operations the relay handler calls, as a record of
  functions on the store state \<open>'s\<close>, and the laws the relay relies on. \<open>look\<close> is the
  abstract view of the state: which device an endpoint id belongs to.
\<close>

record 's relay_store =
  rs_create :: "webpush_endpoint \<Rightarrow> 's \<Rightarrow> 's \<times> (store_error + string)"
  rs_get :: "string \<Rightarrow> 's \<Rightarrow> 's \<times> (store_error + webpush_endpoint)"
  rs_delete :: "string \<Rightarrow> 's \<Rightarrow> 's \<times> store_error option"
  rs_delete_device :: "string \<Rightarrow> string \<Rightarrow> 's \<Rightarrow> 's \<times> store_error option"
  rs_touch :: "string \<Rightarrow> 's \<Rightarrow> 's \<times> store_error option"

abbreviation device_of :: "webpush_endpoint \<Rightarrow> string \<times> string" where
  "device_of e \<equiv> (we_device e, we_app e)"

locale relay_store_laws =
  fixes ops :: "'s relay_store"
    and inv :: "'s \<Rightarrow> bool"
    and look :: "'s \<Rightarrow> string \<Rightarrow> webpush_endpoint option"
  assumes get_frame: "inv s \<Longrightarrow> rs_get ops i s = (s', r) \<Longrightarrow> inv s' \<and> look s' = look s"
    and get_found: "inv s \<Longrightarrow> rs_get ops i s = (s', Inr e) \<Longrightarrow> look s i = Some e"
    and get_missing: "inv s \<Longrightarrow> rs_get ops i s = (s', Inl EndpointNotFound) \<Longrightarrow> look s i = None"
    and create_found: "inv s \<Longrightarrow> rs_create ops e s = (s', Inr i) \<Longrightarrow> inv s' \<and> look s' i = Some e"
    and create_only: "inv s \<Longrightarrow> rs_create ops e s = (s', Inr i) \<Longrightarrow> look s' j = Some f \<Longrightarrow>
      f = e \<or> look s j = Some f \<and> device_of f \<noteq> device_of e"
    and create_others: "inv s \<Longrightarrow> rs_create ops e s = (s', Inr i) \<Longrightarrow> look s j = Some f \<Longrightarrow>
      device_of f \<noteq> device_of e \<Longrightarrow> look s' j = Some f"
    and create_failed: "inv s \<Longrightarrow> rs_create ops e s = (s', Inl err) \<Longrightarrow> inv s' \<and> look s' = look s"
    and delete_done: "inv s \<Longrightarrow> rs_delete ops i s = (s', None) \<Longrightarrow> inv s' \<and> look s' i = None"
    and delete_others: "inv s \<Longrightarrow> rs_delete ops i s = (s', None) \<Longrightarrow> look s' j = Some f \<Longrightarrow>
      look s j = Some f"
    and delete_failed: "inv s \<Longrightarrow> rs_delete ops i s = (s', Some err) \<Longrightarrow> inv s' \<and> look s' = look s"
    and delete_device_done: "inv s \<Longrightarrow> rs_delete_device ops d a s = (s', None) \<Longrightarrow>
      inv s' \<and> (\<forall>i. look s' i = (case look s i of None \<Rightarrow> None
        | Some e \<Rightarrow> if device_of e = (d, a) then None else Some e))"
    and delete_device_failed: "inv s \<Longrightarrow> rs_delete_device ops d a s = (s', Some err) \<Longrightarrow>
      inv s' \<and> look s' = look s"
    and touch_frame: "inv s \<Longrightarrow> inv (fst (rs_touch ops i s)) \<and>
      look (fst (rs_touch ops i s)) = look s"
begin

text \<open>A successful lookup right after a registration finds the registered device.\<close>

lemma get_after_create:
  assumes "inv s" and "rs_create ops e s = (s', Inr i)" and "rs_get ops i s' = (t, Inr f)"
  shows "f = e"
  using create_found [OF assms(1,2)] get_found [of s' i t f] assms(3) by auto

text \<open>One device has one endpoint: the older id of the same device is gone.\<close>

lemma older_id_gone:
  assumes "inv s" and "rs_create ops e s = (s', Inr i)"
    and "look s j = Some f" and "device_of f = device_of e" and "f \<noteq> e"
  shows "look s' j = None \<or> look s' j = Some e"
proof (cases "look s' j")
  case None
  then show ?thesis by simp
next
  case (Some g)
  then show ?thesis using create_only [OF assms(1,2) Some] assms(3,4) by auto
qed

text \<open>Nothing but a registration adds an endpoint.\<close>

lemma delete_device_others:
  assumes "inv s" and "rs_delete_device ops d a s = (s', None)" and "look s' j = Some f"
  shows "look s j = Some f" and "device_of f \<noteq> (d, a)"
  using delete_device_done [OF assms(1,2)] assms(3)
  by (auto split: option.splits if_splits dest: spec [of _ j])

end

end
