(* ===== verification/Go_Base64.thy ===== *)
theory Go_Base64
  imports Go_Strings
begin

text \<open>
  Go's \<open>encoding/base64\<close> (non-strict mode), which the gateway uses for endpoint ids, for
  the relayed ciphertext, for VAPID keys and for the parts of a JWT. An encoding is an alphabet
  of 64 characters and a padding flag; the four values of the package are \<open>RawURLEncoding\<close>,
  \<open>URLEncoding\<close>, \<open>RawStdEncoding\<close> and \<open>StdEncoding\<close>. The decoder skips CR and LF
  anywhere, ignores unused low bits of the last character, and requires full padding exactly
  when the encoding pads. The main results are the round trip for every encoding and the
  length and the alphabet of an encoded string.
\<close>

record base64_encoding =
  enc_alphabet :: string
  enc_padded :: bool

definition std_alphabet :: string where
  "std_alphabet = ''ABCDEFGHIJKLMNOPQRSTUVWXYZabcdefghijklmnopqrstuvwxyz0123456789+/''"

definition url_alphabet :: string where
  "url_alphabet = ''ABCDEFGHIJKLMNOPQRSTUVWXYZabcdefghijklmnopqrstuvwxyz0123456789-_''"

definition raw_url_encoding :: base64_encoding where
  "raw_url_encoding = \<lparr>enc_alphabet = url_alphabet, enc_padded = False\<rparr>"

definition url_encoding :: base64_encoding where
  "url_encoding = \<lparr>enc_alphabet = url_alphabet, enc_padded = True\<rparr>"

definition raw_std_encoding :: base64_encoding where
  "raw_std_encoding = \<lparr>enc_alphabet = std_alphabet, enc_padded = False\<rparr>"

definition std_encoding :: base64_encoding where
  "std_encoding = \<lparr>enc_alphabet = std_alphabet, enc_padded = True\<rparr>"

abbreviation byte_val :: "char \<Rightarrow> nat" where
  "byte_val c \<equiv> of_char c"

definition sextet_char :: "base64_encoding \<Rightarrow> nat \<Rightarrow> char" where
  "sextet_char e n = enc_alphabet e ! n"

definition char_sextet :: "base64_encoding \<Rightarrow> char \<Rightarrow> nat option" where
  "char_sextet e c = map_of (zip (enc_alphabet e) [0..<64]) c"

definition pad_to :: "base64_encoding \<Rightarrow> nat \<Rightarrow> string" where
  "pad_to e k = (if enc_padded e then replicate k CHR ''='' else [])"

fun b64_encode :: "base64_encoding \<Rightarrow> string \<Rightarrow> string" where
  "b64_encode e [] = []"
| "b64_encode e [a] =
     [sextet_char e (byte_val a div 4), sextet_char e ((byte_val a mod 4) * 16)] @ pad_to e 2"
| "b64_encode e [a, b] =
     [sextet_char e (byte_val a div 4),
      sextet_char e ((byte_val a mod 4) * 16 + byte_val b div 16),
      sextet_char e ((byte_val b mod 16) * 4)] @ pad_to e 1"
| "b64_encode e (a # b # c # s) =
     sextet_char e (byte_val a div 4)
     # sextet_char e ((byte_val a mod 4) * 16 + byte_val b div 16)
     # sextet_char e ((byte_val b mod 16) * 4 + byte_val c div 64)
     # sextet_char e (byte_val c mod 64)
     # b64_encode e s"

text \<open>
  Decoding of one group of four characters after the line breaks have been skipped. With
  sextets \<open>v w x y\<close> the three bytes are the digits of \<open>((v * 64 + w) * 64 + x) * 64 + y\<close>
  in base 256.
\<close>

definition bytes_of_sextets :: "nat \<Rightarrow> nat \<Rightarrow> nat \<Rightarrow> nat \<Rightarrow> string" where
  "bytes_of_sextets v w x y =
     [char_of (v * 4 + w div 16), char_of ((w mod 16) * 16 + x div 4),
      char_of ((x mod 4) * 64 + y)]"

fun b64_quanta :: "base64_encoding \<Rightarrow> string \<Rightarrow> string option" where
  "b64_quanta e [] = Some []"
| "b64_quanta e [a] = None"
| "b64_quanta e [a, b] =
     (if enc_padded e then None
      else (case (char_sextet e a, char_sextet e b) of
              (Some v, Some w) \<Rightarrow> Some (take 1 (bytes_of_sextets v w 0 0))
            | _ \<Rightarrow> None))"
| "b64_quanta e [a, b, c] =
     (if enc_padded e then None
      else (case (char_sextet e a, char_sextet e b, char_sextet e c) of
              (Some v, Some w, Some x) \<Rightarrow> Some (take 2 (bytes_of_sextets v w x 0))
            | _ \<Rightarrow> None))"
| "b64_quanta e (a # b # c # d # s) =
     (case (char_sextet e a, char_sextet e b) of
        (Some v, Some w) \<Rightarrow>
          (case (char_sextet e c, char_sextet e d) of
             (Some x, Some y) \<Rightarrow> map_option (\<lambda>r. bytes_of_sextets v w x y @ r) (b64_quanta e s)
           | (Some x, None) \<Rightarrow>
               (if enc_padded e \<and> d = CHR ''='' \<and> s = []
                then Some (take 2 (bytes_of_sextets v w x 0)) else None)
           | (None, _) \<Rightarrow>
               (if enc_padded e \<and> c = CHR ''='' \<and> d = CHR ''='' \<and> s = []
                then Some (take 1 (bytes_of_sextets v w 0 0)) else None))
      | _ \<Rightarrow> None)"

definition b64_decode :: "base64_encoding \<Rightarrow> string \<Rightarrow> string option" where
  "b64_decode e s = b64_quanta e (filter (\<lambda>c. c \<noteq> CHR 0x0A \<and> c \<noteq> CHR 0x0D) s)"

subsection \<open>Well-formed encodings\<close>

definition good_encoding :: "base64_encoding \<Rightarrow> bool" where
  "good_encoding e \<longleftrightarrow>
     length (enc_alphabet e) = 64 \<and> distinct (enc_alphabet e) \<and>
     CHR ''='' \<notin> set (enc_alphabet e) \<and>
     set (enc_alphabet e) \<inter> space_bytes = {} \<and>
     set (enc_alphabet e) \<inter> {CHR 0x0A, CHR 0x0D} = {}"

lemma good_std: "length std_alphabet = 64 \<and> distinct std_alphabet \<and>
     CHR ''='' \<notin> set std_alphabet \<and> set std_alphabet \<inter> space_bytes = {} \<and>
     set std_alphabet \<inter> {CHR 0x0A, CHR 0x0D} = {}"
  by (simp add: std_alphabet_def space_bytes_def space_encodings_def)

lemma good_url: "length url_alphabet = 64 \<and> distinct url_alphabet \<and>
     CHR ''='' \<notin> set url_alphabet \<and> set url_alphabet \<inter> space_bytes = {} \<and>
     set url_alphabet \<inter> {CHR 0x0A, CHR 0x0D} = {}"
  by (simp add: url_alphabet_def space_bytes_def space_encodings_def)

lemma good_encodings [simp]:
  "good_encoding raw_url_encoding" "good_encoding url_encoding"
  "good_encoding raw_std_encoding" "good_encoding std_encoding"
  using good_std good_url
  by (simp_all add: good_encoding_def raw_url_encoding_def url_encoding_def
      raw_std_encoding_def std_encoding_def)

lemma char_sextet_char:
  "good_encoding e \<Longrightarrow> n < 64 \<Longrightarrow> char_sextet e (sextet_char e n) = Some n"
  by (simp add: good_encoding_def char_sextet_def sextet_char_def map_of_zip_nth)

lemma sextet_char_in: "good_encoding e \<Longrightarrow> n < 64 \<Longrightarrow> sextet_char e n \<in> set (enc_alphabet e)"
  by (simp add: good_encoding_def sextet_char_def)

lemma char_sextet_pad: "good_encoding e \<Longrightarrow> char_sextet e CHR ''='' = None"
  by (auto simp: good_encoding_def char_sextet_def map_of_eq_None_iff dest: set_zip_leftD)

lemma byte_val_less [simp]: "byte_val c < 256"
  by (metis nat_of_char_less_256)

lemma sextet_bounds:
  "byte_val a div 4 < 64" "(byte_val a mod 4) * 16 + byte_val b div 16 < 64"
  "(byte_val b mod 16) * 4 + byte_val c div 64 < 64" "byte_val c mod 64 < 64"
  "(byte_val a mod 4) * 16 < 64" "(byte_val b mod 16) * 4 < 64"
  using byte_val_less [of a] byte_val_less [of b] byte_val_less [of c] by linarith+

lemma sextet_rejoin:
  assumes "m < 256"
  shows "n div 4 * 4 + (n mod 4 * 16 + m div 16) div 16 = (n :: nat)"
proof -
  have "m div 16 < 16" using assms by linarith
  then have "(n mod 4 * 16 + m div 16) div 16 = n mod 4" by simp
  then show ?thesis by simp
qed

lemma sextet_rejoin_mid:
  assumes "b < 256" and "k < 4"
  shows "(n * 16 + b div 16) mod 16 * 16 + (b mod 16 * 4 + k) div 4 = (b :: nat)"
proof -
  have "b div 16 < 16" using assms by linarith
  then have "(n * 16 + b div 16) mod 16 = b div 16" by simp
  moreover have "(b mod 16 * 4 + k) div 4 = b mod 16" using assms by simp
  ultimately show ?thesis by simp
qed

lemma sextet_rejoin_last:
  assumes "c < 256"
  shows "(n * 4 + c div 64) mod 4 * 64 + c mod 64 = (c :: nat)"
proof -
  have "c div 64 < 4" using assms by linarith
  then have "(n * 4 + c div 64) mod 4 = c div 64" by simp
  then show ?thesis by simp
qed

lemma bytes_of_sextets_group:
  "bytes_of_sextets (byte_val a div 4) ((byte_val a mod 4) * 16 + byte_val b div 16)
     ((byte_val b mod 16) * 4 + byte_val c div 64) (byte_val c mod 64) = [a, b, c]"
proof -
  have "byte_val a div 4 * 4 + (byte_val a mod 4 * 16 + byte_val b div 16) div 16 = byte_val a"
    by (rule sextet_rejoin) simp
  moreover have "(byte_val a mod 4 * 16 + byte_val b div 16) mod 16 * 16
      + (byte_val b mod 16 * 4 + byte_val c div 64) div 4 = byte_val b"
    using byte_val_less [of c] by (intro sextet_rejoin_mid) (simp, linarith)
  moreover have "(byte_val b mod 16 * 4 + byte_val c div 64) mod 4 * 64 + byte_val c mod 64
      = byte_val c"
    by (rule sextet_rejoin_last) simp
  ultimately show ?thesis by (simp add: bytes_of_sextets_def)
qed

lemma bytes_of_sextets_one:
  "take 1 (bytes_of_sextets (byte_val a div 4) ((byte_val a mod 4) * 16) 0 0) = [a]"
  by (simp add: bytes_of_sextets_def)

lemma bytes_of_sextets_two:
  "take 2 (bytes_of_sextets (byte_val a div 4) ((byte_val a mod 4) * 16 + byte_val b div 16)
     ((byte_val b mod 16) * 4) 0) = [a, b]"
proof -
  have "byte_val a div 4 * 4 + (byte_val a mod 4 * 16 + byte_val b div 16) div 16 = byte_val a"
    by (rule sextet_rejoin) simp
  moreover have "(byte_val a mod 4 * 16 + byte_val b div 16) mod 16 * 16
      + (byte_val b mod 16 * 4 + 0) div 4 = byte_val b"
    by (intro sextet_rejoin_mid) simp_all
  ultimately show ?thesis by (simp add: bytes_of_sextets_def numeral_2_eq_2)
qed

subsection \<open>Round trip, alphabet and length\<close>

lemma b64_quanta_encode:
  "good_encoding e \<Longrightarrow> b64_quanta e (b64_encode e s) = Some s"
proof (induction e s rule: b64_encode.induct)
  case (2 e a)
  then show ?case
    using bytes_of_sextets_one [of a]
    by (simp add: char_sextet_char char_sextet_pad sextet_bounds pad_to_def numeral_2_eq_2)
next
  case (3 e a b)
  then show ?case
    using bytes_of_sextets_two [of a b]
    by (simp add: char_sextet_char char_sextet_pad sextet_bounds pad_to_def)
next
  case (4 e a b c s)
  then show ?case
    by (simp add: char_sextet_char sextet_bounds bytes_of_sextets_group)
qed simp

lemma set_b64_encode:
  "good_encoding e \<Longrightarrow>
   set (b64_encode e s) \<subseteq> set (enc_alphabet e) \<union> (if enc_padded e then {CHR ''=''} else {})"
  by (induction e s rule: b64_encode.induct)
    (auto simp: sextet_char_in sextet_bounds pad_to_def)

lemma b64_encode_clean:
  assumes "good_encoding e"
  shows "set (b64_encode e s) \<inter> space_bytes = {}"
    and "set (b64_encode e s) \<inter> {CHR 0x0A, CHR 0x0D} = {}"
proof -
  have "CHR ''='' \<notin> space_bytes" by (simp add: space_bytes_def space_encodings_def)
  then show "set (b64_encode e s) \<inter> space_bytes = {}"
    and "set (b64_encode e s) \<inter> {CHR 0x0A, CHR 0x0D} = {}"
    using set_b64_encode [OF assms, of s] assms
    by (auto simp: good_encoding_def split: if_splits)
qed

lemma b64_decode_encode:
  assumes "good_encoding e"
  shows "b64_decode e (b64_encode e s) = Some s"
proof -
  have "filter (\<lambda>c. c \<noteq> CHR 0x0A \<and> c \<noteq> CHR 0x0D) (b64_encode e s) = b64_encode e s"
    using b64_encode_clean(2) [OF assms, of s] by (intro filter_True) auto
  with assms show ?thesis by (simp add: b64_decode_def b64_quanta_encode)
qed

lemma length_b64_encode_raw:
  "\<not> enc_padded e \<Longrightarrow> length (b64_encode e s) = (length s * 4 + 2) div 3"
  by (induction e s rule: b64_encode.induct) (simp_all add: pad_to_def)

lemma b64_encode_inj: "good_encoding e \<Longrightarrow> b64_encode e s = b64_encode e t \<longleftrightarrow> s = t"
  by (metis b64_decode_encode option.inject)

subsection \<open>Reading one encoding with another\<close>

text \<open>
  The two alphabets differ in two characters only, so a decoder of the package that accepts the
  text another one wrote reads the same bytes.
\<close>

definition alike :: "base64_encoding \<Rightarrow> base64_encoding \<Rightarrow> bool" where
  "alike e e' \<longleftrightarrow>
     (\<forall>n \<in> set [0..<64]. char_sextet e (sextet_char e' n) \<in> {None, Some n})"

definition package_encodings :: "base64_encoding list" where
  "package_encodings = [raw_url_encoding, url_encoding, raw_std_encoding, std_encoding]"

lemma package_good: "e \<in> set package_encodings \<Longrightarrow> good_encoding e"
  by (auto simp: package_encodings_def)

lemma alike_alphabets:
  "list_all (\<lambda>n. map_of (zip std_alphabet [0..<64]) (url_alphabet ! n) \<in> {None, Some n}) [0..<64]"
  "list_all (\<lambda>n. map_of (zip url_alphabet [0..<64]) (std_alphabet ! n) \<in> {None, Some n}) [0..<64]"
  by code_simp+

lemma alike_package:
  assumes "e \<in> set package_encodings" and "e' \<in> set package_encodings"
  shows "alike e e'"
proof (cases "enc_alphabet e = enc_alphabet e'")
  case True
  then show ?thesis
    using char_sextet_char [OF package_good [OF assms(1)]]
    by (simp add: alike_def sextet_char_def)
next
  case False
  then show ?thesis
    using assms alike_alphabets
    by (auto simp: package_encodings_def alike_def char_sextet_def sextet_char_def list_all_iff
        raw_url_encoding_def url_encoding_def raw_std_encoding_def std_encoding_def)
qed

lemma alikeD:
  assumes "alike e e'" and "n < 64"
  shows "char_sextet e (sextet_char e' n) = None \<or> char_sextet e (sextet_char e' n) = Some n"
  using assms unfolding alike_def by (metis atLeastLessThan_iff bot_nat_0.extremum empty_iff
      insert_iff set_upt)

lemma alikeD':
  assumes "alike e e'" and "n < 64" and "char_sextet e (sextet_char e' n) = Some m"
  shows "m = n"
  using alikeD [OF assms(1,2)] assms(3) by auto

lemma sextet_char_not_pad: "good_encoding e \<Longrightarrow> n < 64 \<Longrightarrow> sextet_char e n \<noteq> CHR ''=''"
  using sextet_char_in [of e n] by (auto simp: good_encoding_def)

lemma b64_quanta_alike:
  assumes "alike e e'" and "good_encoding e" and "good_encoding e'"
  shows "b64_quanta e (b64_encode e' s) = Some t \<Longrightarrow> t = s"
  using assms
proof (induction e' s arbitrary: t rule: b64_encode.induct)
  case (2 e' a)
  then show ?case
    using bytes_of_sextets_one [of a] char_sextet_pad [of e]
    by (auto simp: pad_to_def numeral_2_eq_2 sextet_bounds split: if_splits option.splits
        dest!: alikeD' [OF "2.prems"(2), rotated])
next
  case (3 e' a b)
  then show ?case
    using bytes_of_sextets_two [of a b] char_sextet_pad [of e]
      sextet_char_not_pad [OF "3.prems"(4), of "(byte_val b mod 16) * 4"]
    by (auto simp: pad_to_def sextet_bounds split: if_splits option.splits
        dest!: alikeD' [OF "3.prems"(2), rotated])
next
  case (4 e' a b c s)
  then show ?case
    using bytes_of_sextets_group [of a b c] sextet_char_not_pad [OF "4.prems"(4), of "byte_val c mod 64"]
    by (auto simp: sextet_bounds split: if_splits option.splits
        dest!: alikeD' [OF "4.prems"(2), rotated])
qed simp

lemma b64_decode_other:
  assumes "e \<in> set package_encodings" and "e' \<in> set package_encodings"
    and "b64_decode e (b64_encode e' s) = Some t"
  shows "t = s"
proof -
  have "filter (\<lambda>c. c \<noteq> CHR 0x0A \<and> c \<noteq> CHR 0x0D) (b64_encode e' s) = b64_encode e' s"
    using b64_encode_clean(2) [OF package_good [OF assms(2)], of s] by (intro filter_True) auto
  then show ?thesis
    using assms b64_quanta_alike [OF alike_package package_good package_good]
    by (simp add: b64_decode_def)
qed

end
