(* ===== verification/Web_Push_Store.thy ===== *)
theory Web_Push_Store
  imports Relay_Store Go_Base64
begin

text \<open>
  \<open>internal/store/webpush.go\<close>: the endpoint table of the web push relay. A relay URL ends in a
  random id; the table holds only its hash. The hash function (\<open>crypto/sha256\<close>) is the argument
  \<open>sha\<close> of the operations. A new id reads its 32 random bytes
  from \<open>rand_source\<close>; a source that ends before is a failed read.
\<close>

definition endpoint_id_bytes :: nat where
  "endpoint_id_bytes = 32"

definition webpush_platforms :: "string set" where
  "webpush_platforms = {''ios'', ''android''}"

definition new_endpoint_id :: "'a db_scheme \<Rightarrow> 'a db_scheme \<times> (store_error + string)" where
  "new_endpoint_id s =
     (let s1 = s\<lparr>rand_calls := Suc (rand_calls s)\<rparr> in
      case rand_source s (rand_calls s) of
        None \<Rightarrow> (s1, Inl RandFailed)
      | Some bytes \<Rightarrow>
          if length bytes < endpoint_id_bytes then (s1, Inl RandFailed)
          else (s1, Inr (b64_encode raw_url_encoding (take endpoint_id_bytes bytes))))"

definition hash_endpoint_id :: "(string \<Rightarrow> string) \<Rightarrow> string \<Rightarrow> string" where
  "hash_endpoint_id sha i = b64_encode raw_url_encoding (sha i)"

definition same_device :: "string \<Rightarrow> string \<Rightarrow> endpoint_row \<Rightarrow> bool" where
  "same_device d a r \<longleftrightarrow> we_device (er_endpoint r) = d \<and> we_app (er_endpoint r) = a"

definition create_webpush_endpoint ::
  "(string \<Rightarrow> string) \<Rightarrow> webpush_endpoint \<Rightarrow> 'a db_scheme \<Rightarrow> 'a db_scheme \<times> (store_error + string)"
  where
  "create_webpush_endpoint sha e s =
     (case new_endpoint_id s of
        (s0, Inl err) \<Rightarrow> (s0, Inl err)
      | (s0, Inr i) \<Rightarrow>
          (let (bad, s1) = db_call s0 in
           if bad then (s1, Inl DbError)
           else let (bad, s2) = db_call s1;
                    kept = filter (\<lambda>r. \<not> same_device (we_device e) (we_app e) r)
                             (endpoint_rows s2) in
           if bad then (s2, Inl DbError)
           else let (bad, s3) = db_call s2;
                    row = \<lparr>er_hash = hash_endpoint_id sha i, er_endpoint = e,
                           er_last_push = None\<rparr> in
           if bad then (s3, Inl DbError)
           else if we_platform e \<notin> webpush_platforms
                   \<or> (\<exists>r \<in> set kept. er_hash r = er_hash row)
             then (s3, Inl ConstraintFailed)
           else let (bad, s4) = db_call s3 in
           if bad then (s4, Inl DbError)
           else (s4\<lparr>endpoint_rows := kept @ [row]\<rparr>, Inr i)))"

definition get_webpush_endpoint ::
  "(string \<Rightarrow> string) \<Rightarrow> string \<Rightarrow> 'a db_scheme
     \<Rightarrow> 'a db_scheme \<times> (store_error + webpush_endpoint)" where
  "get_webpush_endpoint sha i s =
     (let (bad, s1) = db_call s in
      if bad then (s1, Inl DbError)
      else (case find (\<lambda>r. er_hash r = hash_endpoint_id sha i) (endpoint_rows s1) of
              None \<Rightarrow> (s1, Inl EndpointNotFound)
            | Some r \<Rightarrow> (s1, Inr (er_endpoint r))))"

definition delete_webpush_endpoint ::
  "(string \<Rightarrow> string) \<Rightarrow> string \<Rightarrow> 'a db_scheme \<Rightarrow> 'a db_scheme \<times> store_error option" where
  "delete_webpush_endpoint sha i s =
     (let (bad, s1) = db_call s in
      if bad then (s1, Some DbError)
      else (s1\<lparr>endpoint_rows :=
                 filter (\<lambda>r. er_hash r \<noteq> hash_endpoint_id sha i) (endpoint_rows s1)\<rparr>, None))"

definition delete_webpush_endpoints_for_device ::
  "string \<Rightarrow> string \<Rightarrow> 'a db_scheme \<Rightarrow> 'a db_scheme \<times> store_error option" where
  "delete_webpush_endpoints_for_device d a s =
     (let (bad, s1) = db_call s in
      if bad then (s1, Some DbError)
      else (s1\<lparr>endpoint_rows := filter (\<lambda>r. \<not> same_device d a r) (endpoint_rows s1)\<rparr>, None))"

definition touch_webpush_endpoint ::
  "(string \<Rightarrow> string) \<Rightarrow> string \<Rightarrow> 'a db_scheme \<Rightarrow> 'a db_scheme \<times> store_error option" where
  "touch_webpush_endpoint sha i s =
     (let (bad, s1) = db_call s in
      if bad then (s1, Some DbError)
      else (s1\<lparr>endpoint_rows := map (\<lambda>r. if er_hash r = hash_endpoint_id sha i
                 then r\<lparr>er_last_push := Some (db_clock s (db_calls s))\<rparr> else r)
               (endpoint_rows s1)\<rparr>, None))"

definition count_webpush_endpoints :: "'a db_scheme \<Rightarrow> 'a db_scheme \<times> nat" where
  "count_webpush_endpoints s =
     (let (bad, s1) = db_call s in (s1, if bad then 0 else length (endpoint_rows s1)))"

subsection \<open>The table as a map from ids to devices\<close>

definition endpoint_of :: "(string \<Rightarrow> string) \<Rightarrow> 'a db_scheme \<Rightarrow> string \<Rightarrow> webpush_endpoint option" where
  "endpoint_of sha s i =
     table_map er_hash er_endpoint (endpoint_rows s) (hash_endpoint_id sha i)"

definition endpoints_wf :: "'a db_scheme \<Rightarrow> bool" where
  "endpoints_wf s \<longleftrightarrow>
     distinct (map er_hash (endpoint_rows s)) \<and>
     distinct (map (\<lambda>r. (we_device (er_endpoint r), we_app (er_endpoint r))) (endpoint_rows s)) \<and>
     (\<forall>r \<in> set (endpoint_rows s). we_platform (er_endpoint r) \<in> webpush_platforms)"

lemma find_table_map:
  "map_option er_endpoint (find (\<lambda>r. er_hash r = h) rows) = table_map er_hash er_endpoint rows h"
  by (induction rows) (auto simp: table_map_def)

lemma get_webpush_endpoint_cases:
  "get_webpush_endpoint sha i s = (s\<lparr>db_calls := Suc (db_calls s)\<rparr>,
     if db_faults s (db_calls s) then Inl DbError
     else (case endpoint_of sha s i of None \<Rightarrow> Inl EndpointNotFound | Some e \<Rightarrow> Inr e))"
  using find_table_map [of "hash_endpoint_id sha i" "endpoint_rows s"]
  by (auto simp: get_webpush_endpoint_def db_call_def Let_def endpoint_of_def
      split: option.splits)

lemma new_endpoint_id_state: "fst (new_endpoint_id s) = s\<lparr>rand_calls := Suc (rand_calls s)\<rparr>"
  by (simp add: new_endpoint_id_def Let_def split: option.split)

lemma new_endpoint_id_length:
  assumes "snd (new_endpoint_id s) = Inr i"
  shows "\<exists>buf. length buf = 32 \<and> i = b64_encode raw_url_encoding buf"
proof (cases "rand_source s (rand_calls s)")
  case (Some bytes)
  with assms show ?thesis
    by (intro exI [of _ "take 32 bytes"])
      (simp add: new_endpoint_id_def endpoint_id_bytes_def Let_def split: if_splits)
qed (use assms in \<open>simp add: new_endpoint_id_def Let_def\<close>)

lemma create_effect:
  "(\<exists>n k err. create_webpush_endpoint sha e s =
      (s\<lparr>rand_calls := k, db_calls := n\<rparr>, Inl err)) \<or>
   (\<exists>n k i buf kept row. create_webpush_endpoint sha e s =
      (s\<lparr>rand_calls := k, db_calls := n, endpoint_rows := kept @ [row]\<rparr>, Inr i) \<and>
      length buf = 32 \<and> i = b64_encode raw_url_encoding buf \<and>
      kept = filter (\<lambda>r. \<not> same_device (we_device e) (we_app e) r) (endpoint_rows s) \<and>
      row = \<lparr>er_hash = hash_endpoint_id sha i, er_endpoint = e, er_last_push = None\<rparr> \<and>
      we_platform e \<in> webpush_platforms \<and> (\<forall>r \<in> set kept. er_hash r \<noteq> er_hash row))"
proof (cases "new_endpoint_id s")
  case (Pair s0 r)
  show ?thesis
  proof (cases r)
    case (Inl err)
    with Pair have "create_webpush_endpoint sha e s =
        (s\<lparr>rand_calls := Suc (rand_calls s), db_calls := db_calls s\<rparr>, Inl err)"
      using new_endpoint_id_state [of s] by (simp add: create_webpush_endpoint_def)
    then show ?thesis by blast
  next
    case (Inr i)
    with Pair obtain buf where "length buf = 32" "i = b64_encode raw_url_encoding buf"
      using new_endpoint_id_length [of s] by auto
    with Pair Inr new_endpoint_id_state [of s] show ?thesis
      by (auto simp: create_webpush_endpoint_def Let_def db_call_def)
  qed
qed

lemma endpoint_of_filter:
  assumes "distinct (map er_hash (endpoint_rows s))"
  shows "endpoint_of sha (s\<lparr>endpoint_rows := filter P (endpoint_rows s)\<rparr>) i = Some e \<longleftrightarrow>
    (\<exists>r \<in> set (endpoint_rows s). P r \<and> er_hash r = hash_endpoint_id sha i \<and> er_endpoint r = e)"
  using assms by (auto simp: endpoint_of_def table_map_Some_iff distinct_map_filter)

lemma endpoint_of_Some:
  assumes "distinct (map er_hash (endpoint_rows s))"
  shows "endpoint_of sha s i = Some e \<longleftrightarrow>
    (\<exists>r \<in> set (endpoint_rows s). er_hash r = hash_endpoint_id sha i \<and> er_endpoint r = e)"
  using assms by (auto simp: endpoint_of_def table_map_Some_iff)

lemma endpoint_of_upd [simp]:
  "endpoint_of sha (s\<lparr>db_calls := n\<rparr>) = endpoint_of sha s"
  "endpoint_of sha (s\<lparr>rand_calls := k\<rparr>) = endpoint_of sha s"
  by (simp_all add: endpoint_of_def fun_eq_iff)

lemma endpoints_wf_upd [simp]:
  "endpoints_wf (s\<lparr>db_calls := n\<rparr>) = endpoints_wf s"
  "endpoints_wf (s\<lparr>rand_calls := k\<rparr>) = endpoints_wf s"
  by (simp_all add: endpoints_wf_def)

subsection \<open>The contract of the five operations the relay uses\<close>

lemma create_wf:
  assumes "endpoints_wf s" and "create_webpush_endpoint sha e s = (s', r)"
  shows "endpoints_wf s'"
proof (cases r)
  case (Inl err)
  then show ?thesis
    using create_effect [of sha e s] assms by (auto simp: endpoints_wf_def)
next
  case (Inr i)
  obtain kept row where
    rows: "endpoint_rows s' = kept @ [row]"
    and kept: "kept = filter (\<lambda>r. \<not> same_device (we_device e) (we_app e) r) (endpoint_rows s)"
    and row: "row = \<lparr>er_hash = hash_endpoint_id sha i, er_endpoint = e, er_last_push = None\<rparr>"
    and plat: "we_platform e \<in> webpush_platforms"
    and fresh: "\<forall>r \<in> set kept. er_hash r \<noteq> er_hash row"
    using create_effect [of sha e s] assms(2) Inr by auto
  have "er_hash row \<notin> er_hash ` set kept" using fresh by auto
  moreover have "(we_device e, we_app e) \<notin>
      (\<lambda>r. (we_device (er_endpoint r), we_app (er_endpoint r))) ` set kept"
    by (auto simp: kept same_device_def)
  moreover have "distinct (map er_hash kept)"
    "distinct (map (\<lambda>r. (we_device (er_endpoint r), we_app (er_endpoint r))) kept)"
    "\<forall>r \<in> set kept. we_platform (er_endpoint r) \<in> webpush_platforms"
    using assms(1) by (simp_all add: endpoints_wf_def kept distinct_map_filter)
  ultimately show ?thesis
    using plat by (simp add: endpoints_wf_def rows row)
qed

lemma create_lookup:
  assumes "endpoints_wf s" and "create_webpush_endpoint sha e s = (s', Inr i)"
  shows "endpoint_of sha s' i = Some e"
    and "endpoint_of sha s' j = Some f \<Longrightarrow>
      f = e \<or> endpoint_of sha s j = Some f \<and> (we_device f, we_app f) \<noteq> (we_device e, we_app e)"
    and "endpoint_of sha s j = Some f \<Longrightarrow> (we_device f, we_app f) \<noteq> (we_device e, we_app e) \<Longrightarrow>
      endpoint_of sha s' j = Some f"
proof -
  obtain kept row where
    rows: "endpoint_rows s' = kept @ [row]"
    and kept: "kept = filter (\<lambda>r. \<not> same_device (we_device e) (we_app e) r) (endpoint_rows s)"
    and row: "row = \<lparr>er_hash = hash_endpoint_id sha i, er_endpoint = e, er_last_push = None\<rparr>"
    using create_effect [of sha e s] assms(2) by auto
  have d: "distinct (map er_hash (endpoint_rows s))" "distinct (map er_hash (endpoint_rows s'))"
    using assms(1) create_wf [OF assms] by (simp_all add: endpoints_wf_def)
  note look = endpoint_of_Some [OF d(1)] endpoint_of_Some [OF d(2)] rows kept row same_device_def
  show "endpoint_of sha s' i = Some e" by (simp add: look)
  show "endpoint_of sha s' j = Some f \<Longrightarrow>
      f = e \<or> endpoint_of sha s j = Some f \<and> (we_device f, we_app f) \<noteq> (we_device e, we_app e)"
    by (auto simp: look)
  show "endpoint_of sha s j = Some f \<Longrightarrow> (we_device f, we_app f) \<noteq> (we_device e, we_app e) \<Longrightarrow>
      endpoint_of sha s' j = Some f"
    by (auto simp: look)
qed

text \<open>An older id of the same device whose hash differs is gone after the registration.\<close>

lemma create_replaced:
  assumes "endpoints_wf s" and "create_webpush_endpoint sha e s = (s', Inr i)"
    and "endpoint_of sha s j = Some f" and "device_of f = device_of e"
    and "hash_endpoint_id sha j \<noteq> hash_endpoint_id sha i"
  shows "endpoint_of sha s' j = None"
proof -
  obtain kept row where
    rows: "endpoint_rows s' = kept @ [row]"
    and kept: "kept = filter (\<lambda>r. \<not> same_device (we_device e) (we_app e) r) (endpoint_rows s)"
    and row: "row = \<lparr>er_hash = hash_endpoint_id sha i, er_endpoint = e, er_last_push = None\<rparr>"
    using create_effect [of sha e s] assms(2) by auto
  have inj: "inj_on er_hash (set (endpoint_rows s))"
    using assms(1) by (simp add: endpoints_wf_def distinct_map)
  obtain r where r: "r \<in> set (endpoint_rows s)" "er_hash r = hash_endpoint_id sha j"
    "er_endpoint r = f"
    using assms(1,3) by (auto simp: endpoint_of_Some endpoints_wf_def)
  have "er_hash x \<noteq> hash_endpoint_id sha j" if "x \<in> set kept" for x
  proof
    assume "er_hash x = hash_endpoint_id sha j"
    with that r inj have "x = r" by (intro inj_onD [of er_hash]) (auto simp: kept)
    with that r(3) assms(4) show False by (simp add: kept same_device_def)
  qed
  then show ?thesis
    using assms(5) by (fastforce simp: endpoint_of_def table_map_None_iff rows row)
qed

lemma create_error_keeps:
  "create_webpush_endpoint sha e s = (s', Inl err) \<Longrightarrow> endpoint_rows s' = endpoint_rows s"
  using create_effect [of sha e s] by auto

lemma delete_contract:
  assumes "endpoints_wf s" and "delete_webpush_endpoint sha i s = (s', None)"
  shows "endpoints_wf s'" and "endpoint_of sha s' i = None"
    and "hash_endpoint_id sha j \<noteq> hash_endpoint_id sha i \<Longrightarrow> endpoint_of sha s' j = endpoint_of sha s j"
  using assms
  by (auto simp: delete_webpush_endpoint_def db_call_def Let_def endpoints_wf_def
      distinct_map_filter endpoint_of_def table_map_delete_key split: if_splits)

lemma delete_device_contract:
  assumes "endpoints_wf s" and "delete_webpush_endpoints_for_device d a s = (s', None)"
  shows "endpoints_wf s'"
    and "endpoint_of sha s' i = (case endpoint_of sha s i of None \<Rightarrow> None
      | Some e \<Rightarrow> if we_device e = d \<and> we_app e = a then None else Some e)"
proof -
  have s': "s' = s\<lparr>db_calls := Suc (db_calls s),
      endpoint_rows := filter (\<lambda>r. \<not> same_device d a r) (endpoint_rows s)\<rparr>"
    using assms(2)
    by (auto simp: delete_webpush_endpoints_for_device_def db_call_def Let_def split: if_splits)
  show "endpoints_wf s'"
    using assms(1) by (auto simp: s' endpoints_wf_def distinct_map_filter)
  have dist: "distinct (map er_hash (endpoint_rows s))"
    using assms(1) by (simp add: endpoints_wf_def)
  have "endpoint_of sha s' i = Some e \<longleftrightarrow>
      (endpoint_of sha s i = Some e \<and> \<not> (we_device e = d \<and> we_app e = a))" for e
    using endpoint_of_filter [OF dist, of sha "\<lambda>r. \<not> same_device d a r" i e]
      endpoint_of_Some [OF dist, of sha i e]
    by (auto simp: s' same_device_def endpoint_of_def)
  note iff = this
  show "endpoint_of sha s' i = (case endpoint_of sha s i of None \<Rightarrow> None
      | Some e \<Rightarrow> if we_device e = d \<and> we_app e = a then None else Some e)"
  proof (cases "endpoint_of sha s' i")
    case None
    then show ?thesis using iff by (auto split: option.splits)
  next
    case (Some e)
    then show ?thesis using iff [of e] by simp
  qed
qed

lemma touch_lookup:
  "endpoint_of sha (fst (touch_webpush_endpoint sha i s)) = endpoint_of sha s"
  by (auto simp: touch_webpush_endpoint_def db_call_def Let_def endpoint_of_def table_map_def
      o_def fun_eq_iff intro!: arg_cong [of _ _ "\<lambda>x. map_of x _"])

lemma touch_wf:
  assumes "endpoints_wf s"
  shows "endpoints_wf (fst (touch_webpush_endpoint sha i s))"
proof -
  let ?f = "\<lambda>r. if er_hash r = hash_endpoint_id sha i
                 then r\<lparr>er_last_push := Some (db_clock s (db_calls s))\<rparr> else r"
  have same: "er_hash (?f r) = er_hash r" "er_endpoint (?f r) = er_endpoint r" for r
    by simp_all
  have "endpoint_rows (fst (touch_webpush_endpoint sha i s)) =
      (if db_faults s (db_calls s) then endpoint_rows s else map ?f (endpoint_rows s))"
    by (simp add: touch_webpush_endpoint_def db_call_def Let_def)
  then show ?thesis
    using assms unfolding endpoints_wf_def by (auto simp: o_def same cong: if_cong)
qed

subsection \<open>The provider side of the relay's store interface\<close>

definition sqlite_relay_store :: "(string \<Rightarrow> string) \<Rightarrow> 'a db_scheme relay_store" where
  "sqlite_relay_store sha = \<lparr>rs_create = create_webpush_endpoint sha,
     rs_get = get_webpush_endpoint sha, rs_delete = delete_webpush_endpoint sha,
     rs_delete_device = delete_webpush_endpoints_for_device,
     rs_touch = touch_webpush_endpoint sha\<rparr>"

lemma get_keeps:
  "get_webpush_endpoint sha i s = (s', r) \<Longrightarrow> s' = s\<lparr>db_calls := Suc (db_calls s)\<rparr>"
  by (simp add: get_webpush_endpoint_cases)

lemma delete_error_keeps:
  "delete_webpush_endpoint sha i s = (s', Some err) \<Longrightarrow> s' = s\<lparr>db_calls := Suc (db_calls s)\<rparr>"
  "delete_webpush_endpoints_for_device d a s = (s', Some err) \<Longrightarrow>
     s' = s\<lparr>db_calls := Suc (db_calls s)\<rparr>"
  by (auto simp: delete_webpush_endpoint_def delete_webpush_endpoints_for_device_def
      db_call_def Let_def split: if_splits)

lemma delete_other:
  assumes "endpoints_wf s" and "delete_webpush_endpoint sha i s = (s', None)"
    and "endpoint_of sha s' j = Some f"
  shows "endpoint_of sha s j = Some f"
  using assms
  by (auto simp: delete_webpush_endpoint_def db_call_def Let_def endpoint_of_def
      table_map_delete_key split: if_splits)

lemma endpoint_of_cong:
  "endpoint_rows s' = endpoint_rows s \<Longrightarrow> endpoint_of sha s' = endpoint_of sha s"
  "endpoint_rows s' = endpoint_rows s \<Longrightarrow> endpoints_wf s' = endpoints_wf s"
  by (simp_all add: endpoint_of_def endpoints_wf_def fun_eq_iff)

interpretation sqlite: relay_store_laws "sqlite_relay_store sha" endpoints_wf "endpoint_of sha"
  for sha
proof (unfold_locales, goal_cases)
  case (1 s i s' r)
  then show ?case by (auto simp: sqlite_relay_store_def dest!: get_keeps)
next
  case (2 s i s' e)
  then show ?case
    by (auto simp: sqlite_relay_store_def get_webpush_endpoint_cases split: if_splits option.splits)
next
  case (3 s i s')
  then show ?case
    by (auto simp: sqlite_relay_store_def get_webpush_endpoint_cases split: if_splits option.splits)
next
  case (4 s e s' i)
  then show ?case
    using create_wf [of s sha e s' "Inr i"] create_lookup [of s sha e s' i]
    by (simp add: sqlite_relay_store_def)
next
  case (5 s e s' i j f)
  then show ?case
    using create_lookup(2) [of s sha e s' i j f] by (simp add: sqlite_relay_store_def)
next
  case (6 s e s' i j f)
  then show ?case
    using create_lookup(3) [of s sha e s' i j f] by (simp add: sqlite_relay_store_def)
next
  case (7 s e s' err)
  then show ?case
    using create_error_keeps [where sha = sha and e = e and s = s and s' = s' and err = err] endpoint_of_cong [of s' s]
    by (simp add: sqlite_relay_store_def)
next
  case (8 s i s')
  then show ?case
    using delete_contract(1,2) [of s sha i s'] by (simp add: sqlite_relay_store_def)
next
  case (9 s i s' j f)
  then show ?case
    using delete_other [of s sha i s' j f] by (simp add: sqlite_relay_store_def)
next
  case (10 s i s' err)
  then show ?case by (auto simp: sqlite_relay_store_def dest!: delete_error_keeps)
next
  case (11 s d a s')
  then show ?case
    using delete_device_contract [of s d a s']
    by (auto simp: sqlite_relay_store_def split: option.splits)
next
  case (12 s d a s' err)
  then show ?case by (auto simp: sqlite_relay_store_def dest!: delete_error_keeps)
next
  case (13 s i)
  then show ?case
    by (simp add: sqlite_relay_store_def touch_wf touch_lookup)
qed

subsection \<open>Properties\<close>

lemma create_id_shape:
  assumes "create_webpush_endpoint sha e s = (s', Inr i)"
  shows "\<exists>buf. length buf = 32 \<and> i = b64_encode raw_url_encoding buf"
  using create_effect [of sha e s] assms by auto

text \<open>
  The id handed out by CreateWebPushEndpoint finds exactly the device that was registered:
  right after the call a healthy GetWebPushEndpoint on it returns the stored endpoint, every
  older id of the same (device token, app) pair that has another hash is reported as not found,
  and every endpoint of another device is answered as before.\<close>

theorem endpoint_roundtrip:
  assumes "endpoints_wf s" and "healthy s'"
    and "create_webpush_endpoint sha e s = (s', Inr i)"
  shows "snd (get_webpush_endpoint sha i s') = Inr e \<and>
    (endpoint_of sha s j = Some f \<and> device_of f = device_of e
           \<and> hash_endpoint_id sha j \<noteq> hash_endpoint_id sha i \<longrightarrow>
         snd (get_webpush_endpoint sha j s') = Inl EndpointNotFound) \<and>
    (endpoint_of sha s j = Some f \<and> device_of f \<noteq> device_of e \<longrightarrow>
         snd (get_webpush_endpoint sha j s') = Inr f)"
proof (intro conjI)
  have ok: "\<not> db_faults s' (db_calls s')" using assms(2) by (simp add: healthy_def)
  show "snd (get_webpush_endpoint sha i s') = Inr e"
    using ok create_lookup(1) [OF assms(1,3)] by (simp add: get_webpush_endpoint_cases)
  show "endpoint_of sha s j = Some f \<and> device_of f \<noteq> device_of e \<longrightarrow>
         snd (get_webpush_endpoint sha j s') = Inr f"
    using ok create_lookup(3) [OF assms(1,3)] by (auto simp: get_webpush_endpoint_cases)
  show "endpoint_of sha s j = Some f \<and> device_of f = device_of e
           \<and> hash_endpoint_id sha j \<noteq> hash_endpoint_id sha i \<longrightarrow>
         snd (get_webpush_endpoint sha j s') = Inl EndpointNotFound"
    using ok create_replaced [OF assms(1,3), of j f]
    by (auto simp: get_webpush_endpoint_cases)
qed

definition demo_sha :: "string \<Rightarrow> string" where
  "demo_sha x = take 4 (rev x)"

definition demo_endpoint :: webpush_endpoint where
  "demo_endpoint = \<lparr>we_platform = ''ios'', we_device = ''dev'', we_app = ''app'',
     we_vapid = [], we_instance = ''mastodon.social''\<rparr>"

definition demo_random :: string where
  "demo_random = ''0123456789abcdef0123456789abcdef''"

definition demo_db :: db where
  "demo_db = \<lparr>push_tokens = [], block_rows = [], verif_rows = [], backfilled_rows = [],
     endpoint_rows = [\<lparr>er_hash = ''old'', er_endpoint = demo_endpoint, er_last_push = None\<rparr>],
     db_faults = (\<lambda>_. False), db_calls = 0, db_clock = (\<lambda>_. ''now''),
     rand_source = (\<lambda>_. Some demo_random), rand_calls = 0\<rparr>"

theorem endpoint_roundtrip_witness:
  "let (s', r) = create_webpush_endpoint demo_sha demo_endpoint demo_db in
     \<exists>i. r = Inr i \<and> length i = 43 \<and> snd (get_webpush_endpoint demo_sha i s') = Inr demo_endpoint"
proof -
  have wf: "endpoints_wf demo_db"
    by (simp add: endpoints_wf_def demo_db_def demo_endpoint_def webpush_platforms_def)
  have run: "\<exists>s' i. create_webpush_endpoint demo_sha demo_endpoint demo_db = (s', Inr i)
      \<and> healthy s' \<and> length i = 43"
    by (simp add: create_webpush_endpoint_def new_endpoint_id_def demo_db_def db_call_def
        demo_endpoint_def same_device_def webpush_platforms_def healthy_def pad_to_def
        raw_url_encoding_def demo_random_def endpoint_id_bytes_def)
  then obtain s' i where "create_webpush_endpoint demo_sha demo_endpoint demo_db = (s', Inr i)"
    "healthy s'" "length i = 43" by blast
  with endpoint_roundtrip [OF wf this(2,1)] show ?thesis by simp
qed

text \<open>
  Whatever statements fail, the relay's store calls keep the endpoint table well-formed (one
  row per hash, one endpoint per (device token, app), only iOS and Android rows), and a failed
  registration leaves every row in place: the old endpoint is not lost.\<close>

theorem endpoint_table_invariant:
  assumes "endpoints_wf s"
  shows "endpoints_wf (fst (create_webpush_endpoint sha e s)) \<and>
    endpoints_wf (fst (delete_webpush_endpoint sha i s)) \<and>
    endpoints_wf (fst (delete_webpush_endpoints_for_device d a s)) \<and>
    endpoints_wf (fst (touch_webpush_endpoint sha i s)) \<and>
    ((\<forall>i'. snd (create_webpush_endpoint sha e s) \<noteq> Inr i') \<longrightarrow>
       endpoint_rows (fst (create_webpush_endpoint sha e s)) = endpoint_rows s)"
proof (intro conjI)
  note laws = sqlite.create_found sqlite.create_failed sqlite.delete_done sqlite.delete_failed
    sqlite.delete_device_done sqlite.delete_device_failed
  note laws = laws [where sha = sha, unfolded sqlite_relay_store_def, simplified]
  show "endpoints_wf (fst (create_webpush_endpoint sha e s))"
    using create_wf [OF assms, of sha e] by (metis prod.collapse)
  show "endpoints_wf (fst (delete_webpush_endpoint sha i s))"
    using laws(3,4) [OF assms, of i] by (metis not_None_eq prod.collapse)
  show "endpoints_wf (fst (delete_webpush_endpoints_for_device d a s))"
    using laws(5,6) [OF assms, of d a] by (metis not_None_eq prod.collapse)
  show "endpoints_wf (fst (touch_webpush_endpoint sha i s))"
    by (rule touch_wf [OF assms])
  show "(\<forall>i'. snd (create_webpush_endpoint sha e s) \<noteq> Inr i') \<longrightarrow>
         endpoint_rows (fst (create_webpush_endpoint sha e s)) = endpoint_rows s"
    using create_error_keeps [of sha e s] by (metis prod.collapse sum.exhaust)
qed

theorem endpoint_table_invariant_witness:
  "endpoints_wf (fst (create_webpush_endpoint demo_sha demo_endpoint demo_db)) \<and>
   endpoints_wf (fst (delete_webpush_endpoints_for_device ''dev'' ''app'' demo_db))"
proof -
  have wf: "endpoints_wf demo_db"
    by (simp add: endpoints_wf_def demo_db_def demo_endpoint_def webpush_platforms_def)
  show ?thesis using endpoint_table_invariant [OF wf] by simp
qed

end
