(* ===== verification/Rate_Limiter.thy ===== *)
theory Rate_Limiter
  imports Gateway_Prelude
begin

text \<open>
  The fixed-window limiter of \<open>internal/relay/relay.go\<close>. The Go map of windows is an association
  list with distinct keys. Times are nanoseconds of the monotonic clock.
\<close>

record window =
  win_count :: nat
  win_start :: int

type_synonym windows = "(string \<times> window) list"

definition rate_window :: int where
  "rate_window = 60 * 1000000000"

definition rate_limit :: nat where
  "rate_limit = 60"

definition window_expired :: "int \<Rightarrow> window \<Rightarrow> bool" where
  "window_expired now w \<longleftrightarrow> now - win_start w > rate_window"

definition drop_expired :: "int \<Rightarrow> windows \<Rightarrow> windows" where
  "drop_expired now ws = filter (\<lambda>kv. \<not> window_expired now (snd kv)) ws"

definition fresh_window :: "string \<Rightarrow> int \<Rightarrow> windows \<Rightarrow> windows" where
  "fresh_window key now ws =
     AList.update key \<lparr>win_count = 1, win_start = now\<rparr>
       (if length ws > 10000 then drop_expired now ws else ws)"

definition allow :: "string \<Rightarrow> int \<Rightarrow> windows \<Rightarrow> bool \<times> windows" where
  "allow key now ws =
     (case map_of ws key of
        None \<Rightarrow> (True, fresh_window key now ws)
      | Some w \<Rightarrow>
          if window_expired now w then (True, fresh_window key now ws)
          else if win_count w \<ge> rate_limit then (False, ws)
          else (True, AList.update key (w\<lparr>win_count := win_count w + 1\<rparr>) ws))"

text \<open>A sequence of calls, each with its key and the clock reading, and the answers.\<close>

fun allow_all :: "(string \<times> int) list \<Rightarrow> windows \<Rightarrow> bool list" where
  "allow_all [] ws = []"
| "allow_all ((k, t) # evs) ws = (let (ok, ws') = allow k t ws in ok # allow_all evs ws')"

definition allowed_between :: "string \<Rightarrow> int \<Rightarrow> int \<Rightarrow> (string \<times> int) list \<Rightarrow> windows \<Rightarrow> nat" where
  "allowed_between k a b evs ws =
     length (filter (\<lambda>((k', t), ok). ok \<and> k' = k \<and> a \<le> t \<and> t \<le> b) (zip evs (allow_all evs ws)))"

subsection \<open>What a call does to the window of a key\<close>

definition windows_ok :: "windows \<Rightarrow> bool" where
  "windows_ok ws \<longleftrightarrow> distinct (map fst ws) \<and> (\<forall>kw \<in> set ws. 1 \<le> win_count (snd kw) \<and> win_count (snd kw) \<le> rate_limit)"

lemma windows_ok_Nil [simp]: "windows_ok []"
  by (simp add: windows_ok_def)

lemma windows_ok_update:
  "windows_ok ws \<Longrightarrow> 1 \<le> win_count w \<Longrightarrow> win_count w \<le> rate_limit \<Longrightarrow> windows_ok (AList.update k w ws)"
  using set_update_subset [of k w ws] distinct_update [of ws k w]
  by (auto simp: windows_ok_def)

lemma windows_ok_filter: "windows_ok ws \<Longrightarrow> windows_ok (filter P ws)"
  by (auto simp: windows_ok_def distinct_map_filter)

lemma map_of_drop_expired:
  assumes "distinct (map fst ws)"
  shows "map_of (drop_expired now ws) k =
    (case map_of ws k of None \<Rightarrow> None | Some w \<Rightarrow> if window_expired now w then None else Some w)"
  using assms
  by (induction ws)
     (auto simp: drop_expired_def map_of_eq_None_iff split: option.splits if_splits,
      (metis image_eqI fst_conv)?)

lemma allow_ok:
  assumes "windows_ok ws"
  shows "windows_ok (snd (allow k t ws))"
  using assms map_of_SomeD [of ws k]
  by (auto simp: allow_def fresh_window_def drop_expired_def rate_limit_def split: option.splits
      intro!: windows_ok_update windows_ok_filter)

text \<open>
  A call on another key leaves a live window alone and may drop an expired one; a call on the key
  itself counts in its live window or opens one.
\<close>

lemma allow_other:
  assumes "windows_ok ws" and "k' \<noteq> k"
  shows "map_of (snd (allow k' t ws)) k = map_of ws k \<or>
    (\<exists>w. map_of ws k = Some w \<and> window_expired t w \<and> map_of (snd (allow k' t ws)) k = None)"
  using assms map_of_drop_expired [of ws t k]
  by (auto simp: allow_def fresh_window_def windows_ok_def update_conv' split: option.splits if_splits)

lemma allow_same:
  "allow k t ws =
     (case map_of ws k of
        Some w \<Rightarrow> if window_expired t w then (True, fresh_window k t ws)
                  else if win_count w \<ge> rate_limit then (False, ws)
                  else (True, AList.update k (w\<lparr>win_count := win_count w + 1\<rparr>) ws)
      | None \<Rightarrow> (True, fresh_window k t ws))"
  by (simp add: allow_def split: option.splits)

lemma map_of_fresh [simp]:
  "map_of (fresh_window k t ws) k = Some \<lparr>win_count = 1, win_start = t\<rparr>"
  by (simp add: fresh_window_def update_conv')

subsection \<open>The bound\<close>

lemma allowed_between_Nil [simp]: "allowed_between k a b [] ws = 0"
  by (simp add: allowed_between_def)

lemma allowed_between_Cons:
  "allowed_between k a b ((k', t) # evs) ws =
     (if fst (allow k' t ws) \<and> k' = k \<and> a \<le> t \<and> t \<le> b then 1 else 0)
       + allowed_between k a b evs (snd (allow k' t ws))"
  by (simp add: allowed_between_def split: prod.splits)

lemma allowed_between_late:
  "\<forall>ev \<in> set evs. b < snd ev \<Longrightarrow> allowed_between k a b evs ws = 0"
  by (induction evs arbitrary: ws) (auto simp: allowed_between_Cons)

definition future_bound :: "int \<Rightarrow> window option \<Rightarrow> nat" where
  "future_bound a w =
     (case w of
        None \<Rightarrow> rate_limit
      | Some w \<Rightarrow> if win_start w < a then 2 * rate_limit - win_count w
                  else rate_limit - win_count w)"

lemma bound_from_a:
  assumes "windows_ok ws" and "sorted (map snd evs)" and "\<forall>ev \<in> set evs. a \<le> snd ev"
  shows "allowed_between k a (a + rate_window) evs ws \<le> future_bound a (map_of ws k)"
  using assms
proof (induction evs arbitrary: ws)
  case (Cons ev evs)
  obtain k' t where ev: "ev = (k', t)" by fastforce
  define ws' where "ws' = snd (allow k' t ws)"
  have ok: "windows_ok ws'" unfolding ws'_def by (rule allow_ok [OF Cons.prems(1)])
  have a: "a \<le> t" and later: "\<forall>ev \<in> set evs. t \<le> snd ev" using Cons.prems ev by auto
  have IH: "allowed_between k a (a + rate_window) evs ws' \<le> future_bound a (map_of ws' k)"
    using Cons.IH [OF ok] Cons.prems by simp
  have dead: "allowed_between k a (a + rate_window) (ev # evs) ws = 0" if "a + rate_window < t"
    by (rule allowed_between_late) (use that later ev in auto)
  have count: "win_count w \<le> rate_limit" if "map_of ws k = Some w" for w
    using Cons.prems(1) map_of_SomeD [OF that] by (auto simp: windows_ok_def)
  show ?case
  proof (cases "k' = k")
    case False
    then have "allowed_between k a (a + rate_window) (ev # evs) ws
        = allowed_between k a (a + rate_window) evs ws'"
      by (simp add: ev allowed_between_Cons ws'_def)
    then show ?thesis
      using allow_other [OF Cons.prems(1) False, of t] IH dead count
      by (fastforce simp: ws'_def future_bound_def window_expired_def split: if_splits)
  next
    case True
    show ?thesis
    proof (cases "map_of ws k")
      case None
      then have "map_of ws' k = Some \<lparr>win_count = 1, win_start = t\<rparr>"
        by (simp add: ws'_def True allow_same)
      then show ?thesis
        using IH a None unfolding ev allowed_between_Cons ws'_def [symmetric]
        by (simp add: future_bound_def rate_limit_def)
    next
      case (Some w)
      show ?thesis
      proof (cases "window_expired t w")
        case expired: True
        then have "map_of ws' k = Some \<lparr>win_count = 1, win_start = t\<rparr>"
          by (simp add: ws'_def True allow_same Some)
        then show ?thesis
          using IH a Some expired dead count [OF Some]
          unfolding ev allowed_between_Cons ws'_def [symmetric]
          by (auto simp: future_bound_def rate_limit_def window_expired_def)
      next
        case False
        then show ?thesis
          using IH Some count [OF Some]
          unfolding ev allowed_between_Cons ws'_def [symmetric]
          by (auto simp: future_bound_def ws'_def True allow_same update_conv')
      qed
    qed
  qed
qed simp

lemma allowed_between_bound:
  assumes "windows_ok ws" and "sorted (map snd evs)"
  shows "allowed_between k a (a + rate_window) evs ws \<le> 2 * rate_limit - 1"
  using assms
proof (induction evs arbitrary: ws)
  case (Cons ev evs)
  obtain k' t where ev: "ev = (k', t)" by fastforce
  show ?case
  proof (cases "a \<le> t")
    case True
    then have "\<forall>ev \<in> set (ev # evs). a \<le> snd ev" using Cons.prems ev by auto
    then have "allowed_between k a (a + rate_window) (ev # evs) ws \<le> future_bound a (map_of ws k)"
      by (rule bound_from_a [OF Cons.prems])
    also have "\<dots> \<le> 2 * rate_limit - 1"
      using Cons.prems(1) map_of_SomeD [of ws k]
      by (fastforce simp: future_bound_def rate_limit_def windows_ok_def split: option.splits)
    finally show ?thesis .
  next
    case False
    then show ?thesis
      using Cons.IH [OF allow_ok [OF Cons.prems(1)], of k' t] Cons.prems
      by (simp add: ev allowed_between_Cons)
  qed
qed simp

subsection \<open>Properties\<close>

text \<open>The worst case: one request opens the window, 59 come at its end and 60 right after it.\<close>

definition burst :: "string \<Rightarrow> (string \<times> int) list" where
  "burst k = (k, 0) # replicate 59 (k, rate_window) @ replicate 60 (k, rate_window + 1)"

text \<open>
  C29: Whatever requests on whatever endpoint ids arrive in whatever order, the limiter lets at
  most 119 pushes for one id through in any interval of one minute, twice the limit less one:
  the windows are fixed, not sliding, and dropping expired windows never resets a live count.
  The bound is reached.\<close>

theorem rate_limit_bound:
  assumes "sorted (map snd evs)"
  shows "allowed_between k a (a + rate_window) evs [] \<le> 2 * rate_limit - 1 \<and>
    allowed_between ''id'' rate_window (rate_window + rate_window) (burst ''id'') []
           = 2 * rate_limit - 1"
proof (intro conjI)
  show "allowed_between k a (a + rate_window) evs [] \<le> 2 * rate_limit - 1"
    by (rule allowed_between_bound [OF windows_ok_Nil assms])
  show "allowed_between ''id'' rate_window (rate_window + rate_window) (burst ''id'') []
          = 2 * rate_limit - 1"
    by code_simp
qed

theorem rate_limit_bound_witness:
  "allowed_between ''id'' 0 rate_window (burst ''id'') [] \<le> 119"
  using rate_limit_bound [of "burst ''id''" "''id''" 0]
  by (simp add: burst_def rate_limit_def rate_window_def sorted_append)

end
