(* ===== verification/Ec_Keys.thy ===== *)
theory Ec_Keys
  imports Go_Utf8
begin

text \<open>
  Elliptic curve public keys as the gateway builds them (\<open>crypto/ecdsa.PublicKey\<close>): a curve
  and two coordinates. The point checks of \<open>crypto/ecdh\<close> and the point decompression of
  \<open>crypto/elliptic\<close> on P-256 are written out; the arithmetic of the other curve
  (secp256k1) belongs to a third-party package and is a parameter where it is used.
\<close>

datatype curve = P256 | Secp256k1

record ec_key =
  ec_curve :: curve
  ec_x :: nat
  ec_y :: nat

text \<open>\<open>new(big.Int).SetBytes(b)\<close>: the big-endian value of a byte string.\<close>

definition be_value :: "string \<Rightarrow> nat" where
  "be_value s = foldl (\<lambda>n c. n * 256 + byte c) 0 s"

definition p256_p :: nat where
  "p256_p = 0xFFFFFFFF00000001000000000000000000000000FFFFFFFFFFFFFFFFFFFFFFFF"

definition p256_b :: nat where
  "p256_b = 0x5AC635D8AA3A93E7B3EBBD55769886BC651D06B0CC53B0F63BCE3C3E27D2604B"

text \<open>\<open>y * y = x * x * x - 3 * x + b\<close> modulo \<open>p\<close>.\<close>

definition p256_rhs :: "nat \<Rightarrow> nat" where
  "p256_rhs x = (x * x * x + (p256_p - 3) * x + p256_b) mod p256_p"

definition on_p256 :: "nat \<Rightarrow> nat \<Rightarrow> bool" where
  "on_p256 x y \<longleftrightarrow> x < p256_p \<and> y < p256_p \<and> y * y mod p256_p = p256_rhs x"

text \<open>\<open>ecdh.P256().NewPublicKey\<close> on an uncompressed point.\<close>

definition p256_uncompressed_ok :: "string \<Rightarrow> bool" where
  "p256_uncompressed_ok raw \<longleftrightarrow>
     length raw = 65 \<and> raw ! 0 = CHR 0x04 \<and>
     on_p256 (be_value (take 32 (drop 1 raw))) (be_value (drop 33 raw))"

fun power_mod :: "nat \<Rightarrow> nat \<Rightarrow> nat \<Rightarrow> nat" where
  "power_mod b e m =
     (if e = 0 then 1 mod m
      else (let h = power_mod (b * b mod m) (e div 2) m in
            if even e then h else h * b mod m))"

declare power_mod.simps [simp del]

text \<open>
  \<open>elliptic.UnmarshalCompressed\<close>: one parity byte (2 or 3) and the x coordinate; the square
  root is taken by raising to \<open>(p + 1) / 4\<close> and checked.
\<close>

definition p256_sqrt :: "nat \<Rightarrow> nat option" where
  "p256_sqrt v =
     (let r = power_mod v ((p256_p + 1) div 4) p256_p in
      if r * r mod p256_p = v mod p256_p then Some r else None)"

definition p256_decompress :: "string \<Rightarrow> (nat \<times> nat) option" where
  "p256_decompress raw =
     (if length raw \<noteq> 33 \<or> (raw ! 0 \<noteq> CHR 0x02 \<and> raw ! 0 \<noteq> CHR 0x03) then None
      else let x = be_value (drop 1 raw) in
        if x \<ge> p256_p then None
        else case p256_sqrt (p256_rhs x) of
               None \<Rightarrow> None
             | Some r \<Rightarrow>
                 let y = (if r mod 2 = byte (raw ! 0) mod 2 then r
                          else (p256_p - r) mod p256_p)
                 in Some (x, y))"

lemma power_mod_correct: "power_mod b e m = b ^ e mod m"
proof (induction b e m rule: power_mod.induct)
  case (1 b e m)
  show ?case
  proof (cases "e = 0")
    case False
    have h: "power_mod (b * b mod m) (e div 2) m = (b * b) ^ (e div 2) mod m"
      using 1 False by (simp add: power_mod)
    have sq: "(b * b) ^ (e div 2) = b ^ (2 * (e div 2))"
      by (simp add: power_mult power2_eq_square)
    show ?thesis
    proof (cases "even e")
      case True
      then show ?thesis using False h sq by (simp add: power_mod.simps [of b e m] Let_def)
    next
      case False
      then have "b ^ e = b ^ (2 * (e div 2)) * b"
        by (metis odd_two_times_div_two_succ power_add power_one_right)
      then show ?thesis
        using \<open>e \<noteq> 0\<close> False h sq by (simp add: power_mod.simps [of b e m] Let_def mod_mult_left_eq)
    qed
  qed (simp add: power_mod.simps)
qed

lemma be_value_append: "be_value (s @ t) = be_value s * 256 ^ length t + be_value t"
proof (induction t rule: rev_induct)
  case (snoc c t)
  have "be_value (s @ t @ [c]) = be_value (s @ t) * 256 + byte c" by (simp add: be_value_def)
  then show ?case
    using snoc by (simp add: be_value_def algebra_simps)
qed (simp add: be_value_def)

lemma be_value_less: "be_value s < 256 ^ length s"
proof (induction s rule: rev_induct)
  case (snoc c s)
  then have "be_value s * 256 + byte c < 256 ^ length s * 256"
    using byte_lt [of c] by linarith
  then show ?case by (simp add: be_value_def algebra_simps)
qed (simp add: be_value_def)

lemma mod_minus_square:
  assumes "r < (p::nat)" and "0 < p"
  shows "(p - r) mod p * ((p - r) mod p) mod p = r * r mod p"
proof (cases "r = 0")
  case False
  obtain q where q: "p = r + q" using assms(1) less_imp_add_positive by blast
  have "q * q + p * (2 * r) = r * r + p * p" by (simp add: q algebra_simps)
  then have "q * q mod p = r * r mod p" by (metis mod_mult_self2)
  moreover have "(p - r) mod p = q" using False q by simp
  ultimately show ?thesis by simp
qed (use assms in simp)

text \<open>Whatever the decompression returns is a point of the curve with the given x and parity.\<close>

lemma p256_decompress_sound:
  assumes "p256_decompress raw = Some (x, y)"
  shows "on_p256 x y" and "x = be_value (drop 1 raw)"
proof -
  have p: "0 < p256_p" by (simp add: p256_p_def)
  obtain r where x: "x = be_value (drop 1 raw)" "x < p256_p"
    and r: "p256_sqrt (p256_rhs x) = Some r"
    and y: "y = (if r mod 2 = byte (raw ! 0) mod 2 then r else (p256_p - r) mod p256_p)"
    using assms by (auto simp: p256_decompress_def Let_def not_le split: if_splits option.splits)
  have rp: "r < p256_p" and sq: "r * r mod p256_p = p256_rhs x"
    using r p by (auto simp: p256_sqrt_def power_mod_correct Let_def p256_rhs_def split: if_splits)
  show "x = be_value (drop 1 raw)" by (rule x)
  show "on_p256 x y"
    using x rp sq p mod_minus_square [OF rp p] by (auto simp: on_p256_def y)
qed

end
