(* ===== verification/Vapid.thy ===== *)
theory Vapid
  imports Go_Base64 Ec_Keys
begin

text \<open>
  \<open>internal/vapid/vapid.go\<close>: the Authorization header of a Web Push delivery. The JWT library
  (\<open>golang-jwt\<close>) is the argument \<open>jwt_parse\<close>: the accepted methods, the key and the token
  give the text of its error, or \<open>None\<close> when the token verifies.
\<close>

type_synonym jwt_parser = "string list \<Rightarrow> ec_key \<Rightarrow> string \<Rightarrow> string option"

datatype key_error = NotBase64 string | NotUncompressed nat | NotOnCurve

datatype vapid_error =
    VapidMissing
  | VapidNoScheme
  | VapidNoParams
  | VapidBadKey key_error
  | VapidKeyMismatch
  | VapidBadSignature string

record header =
  hd_token :: string
  hd_key :: string

definition parse_param :: "string \<Rightarrow> header \<Rightarrow> header" where
  "parse_param part h =
     (let (key, value, found) = cut_at (CHR ''='') (trim_space part) in
      if \<not> found then h
      else if trim_space key = ''t'' then h\<lparr>hd_token := trim_space value\<rparr>
      else if trim_space key = ''k'' then h\<lparr>hd_key := trim_space value\<rparr>
      else h)"

definition parse_header :: "string \<Rightarrow> vapid_error + header" where
  "parse_header authorization =
     (if authorization = [] then Inl VapidMissing
      else let rest = trim_space authorization in
        if length rest < 5 \<or> \<not> equal_fold (take 5 rest) ''vapid'' then Inl VapidNoScheme
        else let h = fold parse_param (split_on (CHR '','') (trim_space (drop 5 rest)))
                       \<lparr>hd_token = [], hd_key = []\<rparr> in
          if hd_token h = [] \<or> hd_key h = [] then Inl VapidNoParams else Inr h)"

definition truncate_key :: "string \<Rightarrow> string" where
  "truncate_key s = (if length s \<le> 16 then s else take 16 s @ [CHR 0xE2, CHR 0x80, CHR 0xA6])"

fun first_decoding :: "base64_encoding list \<Rightarrow> string \<Rightarrow> string option" where
  "first_decoding [] s = None"
| "first_decoding (e # es) s =
     (case b64_decode e s of Some b \<Rightarrow> Some b | None \<Rightarrow> first_decoding es s)"

definition decode_key :: "string \<Rightarrow> key_error + string" where
  "decode_key s =
     (let t = trim_space s in
      case first_decoding [raw_url_encoding, url_encoding, raw_std_encoding, std_encoding] t of
        Some b \<Rightarrow> Inr b
      | None \<Rightarrow> Inl (NotBase64 (truncate_key t)))"

definition same_key :: "string \<Rightarrow> string \<Rightarrow> bool" where
  "same_key offered pinned =
     (case (decode_key offered, decode_key pinned) of
        (Inr a, Inr b) \<Rightarrow> a = b
      | _ \<Rightarrow> False)"

definition parse_public_key :: "string \<Rightarrow> key_error + ec_key" where
  "parse_public_key encoded =
     (case decode_key encoded of
        Inl err \<Rightarrow> Inl err
      | Inr raw \<Rightarrow>
          if length raw \<noteq> 65 \<or> raw ! 0 \<noteq> CHR 0x04 then Inl (NotUncompressed (length raw))
          else if \<not> p256_uncompressed_ok raw then Inl NotOnCurve
          else Inr \<lparr>ec_curve = P256, ec_x = be_value (take 32 (drop 1 raw)),
                    ec_y = be_value (take 32 (drop 33 raw))\<rparr>)"

definition verify :: "jwt_parser \<Rightarrow> string \<Rightarrow> string \<Rightarrow> vapid_error option" where
  "verify jwt_parse authorization pinned =
     (case parse_header authorization of
        Inl err \<Rightarrow> Some err
      | Inr h \<Rightarrow>
          if pinned \<noteq> [] \<and> \<not> same_key (hd_key h) pinned then Some VapidKeyMismatch
          else (case parse_public_key (hd_key h) of
                  Inl err \<Rightarrow> Some (VapidBadKey err)
                | Inr pub \<Rightarrow>
                    (case jwt_parse [''ES256''] pub (hd_token h) of
                       Some err \<Rightarrow> Some (VapidBadSignature err)
                     | None \<Rightarrow> None)))"

subsection \<open>The diagnostic line\<close>

definition peek_claims :: "string \<Rightarrow> string" where
  "peek_claims token =
     (case split_on (CHR ''.'') token of
        [_, payload, _] \<Rightarrow>
          (case b64_decode raw_url_encoding payload of None \<Rightarrow> [] | Some raw \<Rightarrow> raw)
      | _ \<Rightarrow> [])"

definition vapid_error_text :: "vapid_error \<Rightarrow> string" where
  "vapid_error_text err =
     (case err of
        VapidMissing \<Rightarrow> ''vapid: missing Authorization header''
      | VapidNoScheme \<Rightarrow>
          ''vapid: malformed Authorization header: expected '' @ [CHR 0x22] @ ''vapid''
            @ [CHR 0x22] @ '' scheme''
      | VapidNoParams \<Rightarrow> ''vapid: malformed Authorization header: need both t and k''
      | VapidBadKey _ \<Rightarrow> ''vapid: malformed Authorization header''
      | VapidKeyMismatch \<Rightarrow> ''vapid: public key does not match pinned key''
      | VapidBadSignature e \<Rightarrow> ''vapid: JWT signature invalid: '' @ e)"

definition param_name :: "string \<Rightarrow> string list" where
  "param_name part =
     (let (key, _, found) = cut_at (CHR ''='') (trim_space part) in
      if found then [after_blank (trim_space key)] else [])"

definition describe :: "(nat \<Rightarrow> bool) \<Rightarrow> string \<Rightarrow> string" where
  "describe printable authorization =
     (if authorization = [] then ''no Authorization header''
      else
        let scheme = before_blank authorization;
            params = concat (map param_name (split_on (CHR '','') authorization));
            out = ''scheme='' @ go_quote printable scheme @ '' params=['' @ join_str '' '' params
                    @ '']'' in
        case parse_header authorization of
          Inl err \<Rightarrow> out @ '' parse='' @ vapid_error_text err
        | Inr h \<Rightarrow>
            out @
            (case decode_key (hd_key h) of
               Inr raw \<Rightarrow> '' k='' @ dec_text (length raw) @ '' bytes''
                 @ (if raw \<noteq> [] then '' prefix=0x'' @ hex_text 2 (byte (raw ! 0)) else [])
             | Inl _ \<Rightarrow> '' k=undecodable'')
            @ (if peek_claims (hd_token h) \<noteq> [] then '' claims='' @ peek_claims (hd_token h)
               else []))"

subsection \<open>Keys\<close>

lemma first_decoding_cases:
  assumes "first_decoding es s = Some b"
  shows "\<exists>e \<in> set es. b64_decode e s = Some b"
  using assms by (induction es) (auto split: option.splits)

lemma first_decoding_Some:
  "e \<in> set es \<Longrightarrow> b64_decode e s = Some b \<Longrightarrow> \<exists>b'. first_decoding es s = Some b'"
  by (induction es) (auto split: option.splits)

text \<open>A key written in any of the four encodings, with blanks around it, is read back.\<close>

lemma decode_key_encode:
  assumes "e \<in> set package_encodings"
  shows "decode_key (b64_encode e raw) = Inr raw"
proof -
  have trim: "trim_space (b64_encode e raw) = b64_encode e raw"
    by (rule trim_space_id) (rule b64_encode_clean(1) [OF package_good [OF assms]])
  obtain b where b: "first_decoding package_encodings (b64_encode e raw) = Some b"
    using first_decoding_Some [OF assms b64_decode_encode [OF package_good [OF assms]]] by blast
  obtain e' where "e' \<in> set package_encodings" "b64_decode e' (b64_encode e raw) = Some b"
    using first_decoding_cases [OF b] by blast
  then have "b = raw" using b64_decode_other assms by blast
  with b trim show ?thesis by (simp add: decode_key_def package_encodings_def)
qed

lemma same_key_iff:
  "same_key s t \<longleftrightarrow> (\<exists>raw. decode_key s = Inr raw \<and> decode_key t = Inr raw)"
  by (auto simp: same_key_def split: sum.splits)

lemma parse_public_key_Inr:
  "parse_public_key s = Inr k \<longleftrightarrow>
     (\<exists>raw. decode_key s = Inr raw \<and> p256_uncompressed_ok raw \<and>
        k = \<lparr>ec_curve = P256, ec_x = be_value (take 32 (drop 1 raw)),
             ec_y = be_value (take 32 (drop 33 raw))\<rparr>)"
  by (auto simp: parse_public_key_def p256_uncompressed_ok_def split: sum.splits)

lemma verify_None:
  "verify jwt a pinned = None \<longleftrightarrow>
     (\<exists>h k. parse_header a = Inr h \<and> (pinned = [] \<or> same_key (hd_key h) pinned) \<and>
        parse_public_key (hd_key h) = Inr k \<and> jwt [''ES256''] k (hd_token h) = None)"
  by (auto simp: verify_def split: sum.splits option.splits)

subsection \<open>Well-formed headers\<close>

text \<open>Values without blanks and commas, such as a compact JWT or a base64url key.\<close>

definition plain_value :: "string \<Rightarrow> bool" where
  "plain_value s \<longleftrightarrow> s \<noteq> [] \<and> set s \<inter> space_bytes = {} \<and> CHR '','' \<notin> set s"

lemma trim_space_blank: "trim_space (CHR '' '' # s) = trim_space s"
proof -
  have "find (\<lambda>e. e \<noteq> [] \<and> prefix e (CHR '' '' # s)) space_encodings = Some '' ''"
    by (simp add: space_encodings_def)
  then show ?thesis
    by (simp add: trim_space_def strip_front.simps [of space_encodings "CHR '' '' # s"])
qed

lemma not_space_bytes: "set ''vapidtk=,'' \<inter> space_bytes = {}"
  by (simp add: space_bytes_def space_encodings_def)

lemma trim_space_clean: "set s \<inter> space_bytes = {} \<Longrightarrow> trim_space s = s"
  by (rule trim_space_id)

lemma plain_trim: "plain_value s \<Longrightarrow> trim_space s = s"
  by (simp add: plain_value_def trim_space_id)

lemma plain_params:
  assumes "plain_value v" and "c = CHR ''t'' \<or> c = CHR ''k''"
  shows "trim_space (c # CHR ''='' # v) = c # CHR ''='' # v" and "trim_space [c] = [c]"
    and "CHR '','' \<notin> set (c # CHR ''='' # v)"
    and "cut_at (CHR ''='') (c # CHR ''='' # v) = ([c], v, True)"
proof -
  show "trim_space (c # CHR ''='' # v) = c # CHR ''='' # v" and "trim_space [c] = [c]"
    using assms not_space_bytes by (auto intro!: trim_space_id simp: plain_value_def)
  show "CHR '','' \<notin> set (c # CHR ''='' # v)" using assms by (auto simp: plain_value_def)
  show "cut_at (CHR ''='') (c # CHR ''='' # v) = ([c], v, True)"
    using assms(2) cut_at_append [of "CHR ''=''" "[c]" v] by auto
qed

definition vapid_header :: "string \<Rightarrow> string \<Rightarrow> string \<Rightarrow> string \<Rightarrow> string" where
  "vapid_header scheme blank t k = scheme @ blank @ ''t='' @ t @ '',k='' @ k"

definition is_scheme :: "string \<Rightarrow> bool" where
  "is_scheme w \<longleftrightarrow> length w = 5 \<and> equal_fold w ''vapid'' \<and> set w \<inter> space_bytes = {}"

text \<open>Blanks around a string whose first and last bytes belong to no space.\<close>

definition blanks :: "string \<Rightarrow> bool" where
  "blanks b \<longleftrightarrow> set b \<subseteq> {CHR '' '', CHR 0x09}"

lemma strip_front_blanks:
  assumes "blanks b" and "encs = space_encodings \<or> encs = map rev space_encodings"
  shows "strip_front encs (b @ s) = strip_front encs s"
  using assms(1)
proof (induction b)
  case (Cons c b)
  have one: "[c] \<in> set space_encodings" "c = CHR '' '' \<or> c = CHR 0x09"
    using Cons.prems by (auto simp: blanks_def space_encodings_def)
  have "find (\<lambda>e. e \<noteq> [] \<and> prefix e (c # b @ s)) encs = Some [c]"
    using assms(2) one(2) by (auto simp: space_encodings_def)
  then have "strip_front encs (c # b @ s) = strip_front encs (b @ s)"
    by (simp add: strip_front.simps [of encs "c # b @ s"])
  with Cons show ?case by (simp add: blanks_def)
qed simp

lemma strip_front_clean:
  assumes "x \<notin> space_bytes" and "encs = space_encodings \<or> encs = map rev space_encodings"
  shows "strip_front encs (x # s) = x # s"
proof (rule strip_front_stop)
  fix e
  assume "e \<in> set encs"
  then have "set e \<subseteq> space_bytes" using assms(2) by (force simp: space_bytes_def)
  with assms(1) show "e = [] \<or> \<not> prefix e (x # s)" by (cases e) auto
qed

lemma trim_space_blanks:
  assumes "blanks b" and "blanks b'" and "s \<noteq> []" and "hd s \<notin> space_bytes" and "last s \<notin> space_bytes"
  shows "trim_space (b @ s @ b') = s"
proof -
  have front: "strip_front space_encodings (b @ s @ b') = s @ b'"
    using strip_front_blanks [OF assms(1)] strip_front_clean [OF assms(4)] assms(3)
    by (cases s) auto
  have "rev s = last s # rev (butlast s)"
    using assms(3) by (metis append_butlast_last_id rev_eq_Cons_iff rev_rev_ident)
  moreover have "blanks (rev b')" using assms(2) by (simp add: blanks_def)
  ultimately have "strip_front (map rev space_encodings) (rev b' @ rev s) = rev s"
    using strip_front_blanks [of "rev b'"] strip_front_clean [OF assms(5)] by metis
  with front show ?thesis by (simp add: trim_space_def)
qed

lemma clean_ends:
  assumes "set s \<inter> space_bytes = {}" and "s \<noteq> []"
  shows "hd s \<notin> space_bytes" and "last s \<notin> space_bytes"
  using assms by (auto simp: disjoint_iff)

lemma trim_space_keep:
  assumes "set s \<inter> space_bytes = {}" and "s \<noteq> []" and "set t \<inter> space_bytes = {}" and "t \<noteq> []"
  shows "trim_space (s @ m @ t) = s @ m @ t"
  using trim_space_blanks [of "[]" "[]" "s @ m @ t"] clean_ends [OF assms(1,2)]
    clean_ends [OF assms(3,4)] assms(2,4)
  by (simp add: blanks_def)

text \<open>
  The grammar of a header: the scheme word, and parameters separated by commas, with blanks
  around the scheme, the names, the values and the commas.
\<close>

record header_param =
  par_before :: string
  par_name :: string
  par_mid :: string
  par_lead :: string
  par_value :: string
  par_after :: string

definition param_text :: "header_param \<Rightarrow> string" where
  "param_text p = par_before p @ par_name p @ par_mid p @ ''='' @ par_lead p @ par_value p @ par_after p"

definition param_ok :: "header_param \<Rightarrow> bool" where
  "param_ok p \<longleftrightarrow> blanks (par_before p) \<and> blanks (par_mid p) \<and> blanks (par_lead p) \<and>
     blanks (par_after p) \<and> plain_value (par_name p) \<and> CHR ''='' \<notin> set (par_name p) \<and>
     plain_value (par_value p)"

definition header_text :: "string \<Rightarrow> string \<Rightarrow> header_param list \<Rightarrow> string" where
  "header_text lead scheme ps = lead @ scheme @ join_str '','' (map param_text ps)"

text \<open>The value a name is given; the last one counts.\<close>

definition param_value :: "header_param list \<Rightarrow> string \<Rightarrow> string option" where
  "param_value ps = map_of (rev (map (\<lambda>p. (par_name p, par_value p)) ps))"

lemma blanks_no_comma: "blanks b \<Longrightarrow> CHR '','' \<notin> set b \<and> CHR ''='' \<notin> set b"
  by (auto simp: blanks_def)

lemma param_no_comma: "param_ok p \<Longrightarrow> CHR '','' \<notin> set (param_text p)"
  by (auto simp: param_ok_def param_text_def plain_value_def dest: blanks_no_comma)

lemma plain_ends: "plain_value s \<Longrightarrow> s \<noteq> [] \<and> hd s \<notin> space_bytes \<and> last s \<notin> space_bytes"
  using clean_ends [of s] by (simp add: plain_value_def)

lemma parse_param_text:
  assumes "param_ok p" and "blanks b" and "blanks b'"
  shows "parse_param (b @ par_name p @ par_mid p @ ''='' @ par_lead p @ par_value p @ b') h =
    (if par_name p = ''t'' then h\<lparr>hd_token := par_value p\<rparr>
     else if par_name p = ''k'' then h\<lparr>hd_key := par_value p\<rparr> else h)"
proof -
  let ?s = "par_name p @ par_mid p @ ''='' @ par_lead p @ par_value p"
  note ok = assms(1) [unfolded param_ok_def]
  note ends = plain_ends [of "par_name p"] plain_ends [of "par_value p"]
  have "trim_space (b @ ?s @ b') = ?s"
    using ok ends by (intro trim_space_blanks assms(2,3)) auto
  moreover have "cut_at (CHR ''='') ?s = (par_name p @ par_mid p, par_lead p @ par_value p, True)"
    using cut_at_append [of "CHR ''=''" "par_name p @ par_mid p" "par_lead p @ par_value p"] ok
      blanks_no_comma by auto
  moreover have "trim_space (par_name p @ par_mid p) = par_name p"
    using trim_space_blanks [of "[]" "par_mid p" "par_name p"] ok ends by (simp add: blanks_def)
  moreover have "trim_space (par_lead p @ par_value p) = par_value p"
    using trim_space_blanks [of "par_lead p" "[]" "par_value p"] ok ends by (simp add: blanks_def)
  ultimately show ?thesis by (simp add: parse_param_def)
qed

lemma params_fold:
  "\<forall>p \<in> set ps. param_ok p \<Longrightarrow>
   fold parse_param (map param_text ps) h = h\<lparr>
     hd_token := (case param_value ps ''t'' of None \<Rightarrow> hd_token h | Some v \<Rightarrow> v),
     hd_key := (case param_value ps ''k'' of None \<Rightarrow> hd_key h | Some v \<Rightarrow> v)\<rparr>"
proof (induction ps rule: rev_induct)
  case (snoc p ps)
  then have "parse_param (param_text p) h' =
      (if par_name p = ''t'' then h'\<lparr>hd_token := par_value p\<rparr>
       else if par_name p = ''k'' then h'\<lparr>hd_key := par_value p\<rparr> else h')" for h'
    using parse_param_text [of p "par_before p" "par_after p" h']
    by (simp add: param_text_def param_ok_def)
  with snoc show ?case by (simp add: param_value_def)
qed (simp add: param_value_def)

lemma split_params:
  "\<forall>p \<in> set ps. param_ok p \<Longrightarrow> ps \<noteq> [] \<Longrightarrow>
   split_on (CHR '','') (join_str '','' (map param_text ps)) = map param_text ps"
proof (induction ps rule: induct_list012)
  case (3 p q ps)
  then show ?case
    using split_on_append [OF param_no_comma [of p]] by simp
qed (simp_all add: split_on_notin param_no_comma)

text \<open>The blanks at the two ends of the parameters are trimmed with them.\<close>

definition unpadded :: "header_param list \<Rightarrow> header_param list" where
  "unpadded ps = (let qs = (hd ps)\<lparr>par_before := []\<rparr> # tl ps in
     butlast qs @ [(last qs)\<lparr>par_after := []\<rparr>])"

lemma join_str_front: "join_str c ((b @ x) # xs) = b @ join_str c (x # xs)"
  by (cases xs) simp_all

lemma join_str_back: "join_str c (xs @ [x @ b]) = join_str c (xs @ [x]) @ b"
  by (induction xs rule: induct_list012) simp_all

lemma join_str_hd: "x \<noteq> [] \<Longrightarrow> join_str c (x # xs) \<noteq> [] \<and> hd (join_str c (x # xs)) = hd x"
  by (cases xs) simp_all

lemma join_str_last: "x \<noteq> [] \<Longrightarrow> join_str c (xs @ [x]) \<noteq> [] \<and> last (join_str c (xs @ [x])) = last x"
  by (induction xs rule: induct_list012) auto

lemma unpadded_params:
  assumes "ps \<noteq> []" and "\<forall>p \<in> set ps. param_ok p"
  shows "\<forall>p \<in> set (unpadded ps). param_ok p" and "param_value (unpadded ps) = param_value ps"
    and "unpadded ps \<noteq> []" and "par_before (hd (unpadded ps)) = []" and "par_after (last (unpadded ps)) = []"
proof -
  obtain p ps' where ps: "ps = p # ps'" using assms(1) by (cases ps) auto
  define qs where "qs = p\<lparr>par_before := []\<rparr> # ps'"
  have qs: "\<forall>p \<in> set qs. param_ok p" "param_value qs = param_value ps" "qs \<noteq> []"
    using assms(2) by (auto simp: qs_def ps param_ok_def blanks_def param_value_def)
  have un: "unpadded ps = butlast qs @ [(last qs)\<lparr>par_after := []\<rparr>]"
    by (simp add: unpadded_def qs_def ps Let_def)
  have "param_ok (last qs)" using qs by simp
  then show "\<forall>p \<in> set (unpadded ps). param_ok p"
    using qs(1) by (auto simp: un param_ok_def blanks_def dest: in_set_butlastD)
  have "map f (butlast qs @ [last qs]) = map f qs" for f :: "header_param \<Rightarrow> string \<times> string"
    using qs(3) by simp
  from this [of "\<lambda>p. (par_name p, par_value p)"]
  show "param_value (unpadded ps) = param_value ps"
    unfolding qs(2) [symmetric] by (simp add: param_value_def un)
  show "unpadded ps \<noteq> []" "par_after (last (unpadded ps)) = []" by (simp_all add: un)
  show "par_before (hd (unpadded ps)) = []"
    by (cases ps') (simp_all add: un qs_def)
qed

lemma join_unpadded:
  assumes "ps \<noteq> []"
  shows "join_str '','' (map param_text ps) =
    par_before (hd ps) @ join_str '','' (map param_text (unpadded ps)) @ par_after (last ps)"
proof -
  obtain p ps' where ps: "ps = p # ps'" using assms by (cases ps) auto
  define qs where "qs = p\<lparr>par_before := []\<rparr> # ps'"
  have front: "param_text p = par_before p @ param_text (p\<lparr>par_before := []\<rparr>)"
    and rear: "param_text q = param_text (q\<lparr>par_after := []\<rparr>) @ par_after q" for q
    by (simp_all add: param_text_def)
  have "join_str '','' (map param_text ps) = par_before p @ join_str '','' (map param_text qs)"
    by (simp add: ps qs_def front join_str_front)
  moreover have "map param_text qs = map param_text (butlast qs) @
      [param_text ((last qs)\<lparr>par_after := []\<rparr>) @ par_after (last qs)]"
    unfolding rear [symmetric] using append_butlast_last_id [of qs] qs_def
    by (metis list.distinct(1) list.simps(8,9) map_append)
  moreover have "par_after (last qs) = par_after (last ps)" by (simp add: qs_def ps)
  ultimately show ?thesis
    by (simp add: unpadded_def ps Let_def join_str_back flip: qs_def)
qed

lemma parse_header_text:
  assumes "is_scheme w" and "blanks lead" and "ps \<noteq> []" and "\<forall>p \<in> set ps. param_ok p"
    and "param_value ps ''t'' = Some t" and "param_value ps ''k'' = Some k"
    and "t \<noteq> []" and "k \<noteq> []"
  shows "parse_header (header_text lead w ps) = Inr \<lparr>hd_token = t, hd_key = k\<rparr>"
proof -
  define sep where "sep = par_before (hd ps)"
  define tail where "tail = par_after (last ps)"
  define body where "body = join_str '','' (map param_text (unpadded ps))"
  note un = unpadded_params [OF assms(3,4)]
  have bl: "blanks sep" "blanks tail"
    using assms(3,4) by (auto simp: sep_def tail_def param_ok_def)
  have ok: "param_ok (hd (unpadded ps))" "param_ok (last (unpadded ps))" using un by auto
  have ne: "param_text p \<noteq> []" for p by (simp add: param_text_def)
  have hd_ok: "hd (param_text p) \<notin> space_bytes" if "param_ok p" "par_before p = []" for p
    using that plain_ends [of "par_name p"] by (auto simp: param_text_def param_ok_def)
  have last_ok: "last (param_text p) \<notin> space_bytes" if "param_ok p" "par_after p = []" for p
    using that plain_ends [of "par_value p"] by (auto simp: param_text_def param_ok_def)
  have "body \<noteq> [] \<and> hd body = hd (param_text (hd (unpadded ps)))"
    using join_str_hd [OF ne] un(3) unfolding body_def by (cases "unpadded ps") auto
  moreover have "last body = last (param_text (last (unpadded ps)))"
    using join_str_last [OF ne, of "'',''" "map param_text (butlast (unpadded ps))"] un(3)
    unfolding body_def by (metis append_butlast_last_id list.simps(8,9) map_append)
  ultimately have ends: "body \<noteq> []" "hd body \<notin> space_bytes" "last body \<notin> space_bytes"
    using hd_ok [OF ok(1) un(4)] last_ok [OF ok(2) un(5)] by auto
  have w: "length w = 5" "equal_fold w ''vapid''" "w \<noteq> []" "hd w \<notin> space_bytes"
    using assms(1) clean_ends(1) [of w] by (force simp: is_scheme_def)+
  have whole: "header_text lead w ps = lead @ (w @ sep @ body) @ tail"
    by (simp add: header_text_def join_unpadded [OF assms(3)] sep_def tail_def body_def)
  have trim: "trim_space (header_text lead w ps) = w @ sep @ body"
    unfolding whole using w ends by (intro trim_space_blanks assms(2) bl(2)) auto
  have rest: "trim_space (sep @ body) = body"
    using trim_space_blanks [OF bl(1), of "[]" body] ends by (simp add: blanks_def)
  have fold: "fold parse_param (split_on (CHR '','') body) \<lparr>hd_token = [], hd_key = []\<rparr> =
      \<lparr>hd_token = t, hd_key = k\<rparr>"
    unfolding body_def split_params [OF un(1,3)] params_fold [OF un(1)] un(2)
    by (simp add: assms(5,6))
  have "header_text lead w ps \<noteq> []" using w(3) by (simp add: whole)
  then show ?thesis using w assms(7,8) by (simp add: parse_header_def trim rest fold)
qed

lemma parse_vapid_header:
  assumes "is_scheme w" and "blank = [] \<or> blank = '' ''" and "plain_value t" and "plain_value k"
  shows "parse_header (vapid_header w blank t k) = Inr \<lparr>hd_token = t, hd_key = k\<rparr>"
proof -
  let ?ps = "[\<lparr>par_before = blank, par_name = ''t'', par_mid = [], par_lead = [], par_value = t, par_after = []\<rparr>,
    \<lparr>par_before = [], par_name = ''k'', par_mid = [], par_lead = [], par_value = k, par_after = []\<rparr>]"
  have "vapid_header w blank t k = header_text [] w ?ps"
    by (simp add: vapid_header_def header_text_def param_text_def)
  moreover have "plain_value ''t''" "plain_value ''k''"
    by (simp_all add: plain_value_def space_bytes_def space_encodings_def)
  then have "\<forall>p \<in> set ?ps. param_ok p" using assms(2-4) by (auto simp: param_ok_def blanks_def)
  ultimately show ?thesis
    using parse_header_text [OF assms(1), of "[]" ?ps t k] assms(3,4)
    by (simp add: param_value_def blanks_def plain_value_def)
qed

lemma plain_b64:
  assumes "e \<in> set package_encodings" and "raw \<noteq> []"
  shows "plain_value (b64_encode e raw)"
proof -
  have "CHR '','' \<notin> set std_alphabet" "CHR '','' \<notin> set url_alphabet"
    by (simp_all add: std_alphabet_def url_alphabet_def)
  then have "CHR '','' \<notin> set (b64_encode e raw)"
    using assms(1) set_b64_encode [OF package_good [OF assms(1)], of raw]
    by (auto simp: package_encodings_def raw_url_encoding_def url_encoding_def raw_std_encoding_def
        std_encoding_def split: if_splits)
  moreover have "b64_encode e raw \<noteq> []"
    using assms(2) by (cases "(e, raw)" rule: b64_encode.cases) simp_all
  ultimately show ?thesis
    using b64_encode_clean(1) [OF package_good [OF assms(1)], of raw] by (simp add: plain_value_def)
qed

lemma scheme_no_eq:
  assumes "is_scheme w"
  shows "CHR ''='' \<notin> set w" and "CHR '','' \<notin> set w" and "CHR '' '' \<notin> set w" and "CHR 0x09 \<notin> set w"
proof -
  have fixed: "lower_char (CHR ''='') = CHR ''=''" "lower_char (CHR '','') = CHR '',''"
    by (simp_all add: lower_char_def)
  have "map lower_char ''vapid'' = ''vapid''" by (simp add: lower_char_def)
  with assms have "map lower_char w = ''vapid''"
    by (simp only: is_scheme_def equal_fold_def simp_thms)
  then have img: "lower_char ` set w = set ''vapid''" by (simp only: set_map [symmetric])
  have notin: "c \<notin> set w" if "lower_char c = c" and "c \<notin> set ''vapid''" for c
    using that unfolding img [symmetric] by (metis imageI)
  show "CHR ''='' \<notin> set w" by (rule notin [OF fixed(1)]) simp
  show "CHR '','' \<notin> set w" by (rule notin [OF fixed(2)]) simp
  show "CHR '' '' \<notin> set w" "CHR 0x09 \<notin> set w"
    using assms by (auto simp: is_scheme_def space_bytes_def space_encodings_def)
qed

lemma vapid_params:
  assumes w: "is_scheme w" and "blank = [] \<or> blank = '' ''" and t: "plain_value t" and k: "plain_value k"
  shows "split_on (CHR '','') (vapid_header w blank t k) = [w @ blank @ ''t='' @ t, ''k='' @ k]"
    and "param_name (''k='' @ k) = [''k'']"
    and "param_name (w @ '' t='' @ t) = [''t'']"
proof -
  have comma: "CHR '','' \<notin> set (w @ blank @ ''t='' @ t)" "CHR '','' \<notin> set (''k='' @ k)"
    using assms scheme_no_eq [OF w] by (auto simp: plain_value_def)
  show "split_on (CHR '','') (vapid_header w blank t k) = [w @ blank @ ''t='' @ t, ''k='' @ k]"
    using split_on_append [OF comma(1), of "''k='' @ k"] split_on_notin [OF comma(2)]
    by (simp add: vapid_header_def)
  show "param_name (''k='' @ k) = [''k'']"
    using plain_params [OF k, of "CHR ''k''"] by (simp add: param_name_def after_blank_def)
  have trim: "trim_space (w @ '' '' @ ''t='' @ t) = w @ '' '' @ ''t='' @ t"
    using w t not_space_bytes
    by (intro trim_space_keep) (auto simp: plain_value_def is_scheme_def)
  have trim2: "trim_space (w @ '' '' @ ''t'') = w @ '' '' @ ''t''"
    using w not_space_bytes by (intro trim_space_keep) (auto simp: is_scheme_def)
  have cut: "cut_at (CHR ''='') (w @ '' t='' @ t) = (w @ '' t'', t, True)"
    using cut_at_append [of "CHR ''=''" "w @ '' t''" t] scheme_no_eq(1) [OF w] by simp
  have "dropWhile (\<lambda>c. c \<noteq> CHR '' '' \<and> c \<noteq> CHR 0x09) (w @ '' t'') = '' t''"
    using scheme_no_eq(3,4) [OF w] by (subst dropWhile_append2) auto
  then show "param_name (w @ '' t='' @ t) = [''t'']"
    using trim trim2 cut by (simp add: param_name_def after_blank_def)
qed

lemma vapid_header_neq_Nil [simp]: "vapid_header w blank t k \<noteq> []"
  by (simp add: vapid_header_def)

lemma describe_scheme:
  assumes "authorization \<noteq> []"
  shows "\<exists>rest. describe printable authorization =
    ''scheme='' @ go_quote printable (before_blank authorization) @ rest"
  using assms by (auto simp: describe_def Let_def split: sum.splits)

lemma before_blank_scheme:
  assumes "is_scheme w"
  shows "before_blank (vapid_header w '' '' t k) = w"
  using scheme_no_eq(3,4) [OF assms] unfolding before_blank_def vapid_header_def
  by (subst takeWhile_append2) auto

lemma before_blank_none:
  assumes "is_scheme w" and "plain_value t" and "plain_value k"
  shows "before_blank (vapid_header w [] t k) = vapid_header w [] t k"
proof -
  have "c \<noteq> CHR '' '' \<and> c \<noteq> CHR 0x09" if "c \<in> set t \<union> set k" for c
    using that assms(2,3) by (auto simp: plain_value_def space_bytes_def space_encodings_def)
  then show ?thesis
    using scheme_no_eq(3,4) [OF assms(1)] unfolding before_blank_def takeWhile_eq_all_conv
    by (auto simp: vapid_header_def)
qed

subsection \<open>Properties\<close>

text \<open>
  C6: Verify accepts a delivery for a pinned endpoint only when the key offered in the header
  decodes to the very bytes of the pinned key, these bytes are a point of P-256, and the JWT
  library accepts the offered token for that point under ES256 alone.\<close>

theorem verify_sound:
  assumes "verify jwt authorization pinned = None" and "pinned \<noteq> []"
  shows "\<exists>h raw. parse_header authorization = Inr h \<and> decode_key pinned = Inr raw \<and>
    decode_key (hd_key h) = Inr raw \<and> p256_uncompressed_ok raw \<and>
    jwt [''ES256''] \<lparr>ec_curve = P256, ec_x = be_value (take 32 (drop 1 raw)),
                     ec_y = be_value (take 32 (drop 33 raw))\<rparr> (hd_token h) = None"
  using assms by (auto simp: verify_None same_key_iff parse_public_key_Inr)

text \<open>
  C40: Verify on a well-formed header. The scheme word may have any case; the parameters may stand in
  any order, with blanks around the scheme, the commas, the equals signs and the whole header, next
  to parameters of other names, and the last one of a name counts; any of the four base64 variants
  may have written the offered and the pinned key. Then another key is a mismatch before anything
  else is looked at, the same key is checked for being a point of the curve, and last the token
  decides.\<close>

theorem verify_wellformed:
  assumes "is_scheme w" and "blanks lead" and "ps \<noteq> []" and "\<forall>p \<in> set ps. param_ok p"
    and "param_value ps ''t'' = Some t" and "param_value ps ''k'' = Some (b64_encode e raw)"
    and "e \<in> set package_encodings" and "e' \<in> set package_encodings" and "raw' \<noteq> []"
  shows "verify jwt (header_text lead w ps) (b64_encode e' raw') =
    (if raw \<noteq> raw' then Some VapidKeyMismatch
     else case parse_public_key (b64_encode e raw) of
            Inl err \<Rightarrow> Some (VapidBadKey err)
          | Inr k \<Rightarrow> map_option VapidBadSignature (jwt [''ES256''] k t))"
proof -
  have "plain_value v" if "param_value ps n = Some v" for n v
    using map_of_SomeD [OF that [unfolded param_value_def]] assms(4) by (auto simp: param_ok_def)
  then have "t \<noteq> []" "b64_encode e raw \<noteq> []" using assms(5,6) by (auto simp: plain_value_def)
  note parse = parse_header_text [OF assms(1-6) this]
  have "b64_encode e' raw' \<noteq> []"
    using plain_b64 [OF assms(8,9)] by (simp add: plain_value_def)
  then show ?thesis
    using decode_key_encode [OF assms(7), of raw] decode_key_encode [OF assms(8), of raw']
    by (auto simp: verify_def parse same_key_def split: sum.splits option.splits)
qed

text \<open>
  The diagnostic line does not depend on the signature of the token when a blank follows the
  scheme word: two headers that differ in the last part of the JWT only are described alike.\<close>

theorem describe_hides_signature:
  assumes "is_scheme w" and "plain_value k"
    and "plain_value (a @ ''.'' @ b @ ''.'' @ c)" and "plain_value (a @ ''.'' @ b @ ''.'' @ c')"
    and "CHR ''.'' \<notin> set (a @ b @ c @ c')"
  shows "describe printable (vapid_header w '' '' (a @ ''.'' @ b @ ''.'' @ c) k) =
         describe printable (vapid_header w '' '' (a @ ''.'' @ b @ ''.'' @ c') k)"
proof -
  have one: "describe printable (vapid_header w '' '' (a @ ''.'' @ b @ ''.'' @ x) k) =
     ''scheme='' @ go_quote printable w @ '' params=[t k]'' @
       (case decode_key k of
          Inr raw \<Rightarrow> '' k='' @ dec_text (length raw) @ '' bytes''
            @ (if raw \<noteq> [] then '' prefix=0x'' @ hex_text 2 (byte (raw ! 0)) else [])
        | Inl _ \<Rightarrow> '' k=undecodable'')
       @ (case b64_decode raw_url_encoding b of None \<Rightarrow> [] | Some [] \<Rightarrow> []
          | Some raw \<Rightarrow> '' claims='' @ raw)"
    if plain: "plain_value (a @ ''.'' @ b @ ''.'' @ x)" and dot: "CHR ''.'' \<notin> set (a @ b @ x)" for x
  proof -
    have parts: "split_on (CHR ''.'') (a @ ''.'' @ b @ ''.'' @ x) = [a, b, x]"
      using dot by (simp add: split_on_append split_on_notin)
    show ?thesis
      using parse_vapid_header [OF assms(1) _ plain assms(2), of "'' ''"]
        vapid_params [OF assms(1) _ plain assms(2), of "'' ''"]
        before_blank_scheme [OF assms(1)] parts
      by (simp add: describe_def Let_def peek_claims_def
          split: sum.splits option.splits list.splits)
  qed
  show ?thesis using one [of c] one [of c'] assms by simp
qed

text \<open>
  A header without a blank after the scheme word is accepted by ParseHeader all the same, and
  then the diagnostic line repeats the whole token: its scheme field is the entire header.\<close>

theorem describe_leaks_token:
  assumes "is_scheme w" and "plain_value t" and "plain_value k"
    and "\<forall>c \<in> set (w @ t @ k). 0x20 \<le> byte c \<and> byte c < 0x7F \<and> byte c \<noteq> 0x22 \<and> byte c \<noteq> 0x5C"
  shows "parse_header (vapid_header w [] t k) = Inr \<lparr>hd_token = t, hd_key = k\<rparr> \<and>
    contains_str (describe printable (vapid_header w [] t k)) t"
proof (intro conjI)
  show p: "parse_header (vapid_header w [] t k) = Inr \<lparr>hd_token = t, hd_key = k\<rparr>"
    by (rule parse_vapid_header [OF assms(1) _ assms(2,3)]) simp
  have "go_quote printable (vapid_header w [] t k) =
      [CHR 0x22] @ vapid_header w [] t k @ [CHR 0x22]"
    by (rule go_quote_plain) (use assms(4) in \<open>auto simp: vapid_header_def\<close>)
  then obtain rest where "describe printable (vapid_header w [] t k) =
      ''scheme='' @ ([CHR 0x22] @ vapid_header w [] t k @ [CHR 0x22]) @ rest"
    using describe_scheme [of "vapid_header w [] t k" printable] before_blank_none [OF assms(1-3)]
    by auto
  then have "describe printable (vapid_header w [] t k) =
      (''scheme='' @ [CHR 0x22] @ w @ ''t='') @ t @ ('',k='' @ k @ [CHR 0x22] @ rest)"
    by (simp add: vapid_header_def)
  then show "contains_str (describe printable (vapid_header w [] t k)) t"
    unfolding contains_str_def sublist_def by blast
qed

subsection \<open>The properties at a concrete key\<close>

text \<open>The point of P-256 with \<open>x = 0\<close>, and a parser that accepts one token.\<close>

definition demo_y :: string where
  "demo_y =
    [CHR 0x66, CHR 0x48, CHR 0x5C, CHR 0x78, CHR 0x0E, CHR 0x2F, CHR 0x83, CHR 0xD7,
     CHR 0x24, CHR 0x33, CHR 0xBD, CHR 0x5D, CHR 0x84, CHR 0xA0, CHR 0x6B, CHR 0xB6,
     CHR 0x54, CHR 0x1C, CHR 0x2A, CHR 0xF3, CHR 0x1D, CHR 0xAE, CHR 0x87, CHR 0x17,
     CHR 0x28, CHR 0xBF, CHR 0x85, CHR 0x6A, CHR 0x17, CHR 0x4F, CHR 0x93, CHR 0xF4]"

definition demo_point :: string where
  "demo_point = CHR 0x04 # replicate 32 (CHR 0x00) @ demo_y"

definition demo_jwt :: jwt_parser where
  "demo_jwt methods k token = (if token = ''a.b.c'' then None else Some ''bad token'')"

lemma demo_point_ok: "p256_uncompressed_ok demo_point"
proof -
  have y: "be_value demo_y = 46263761741508638697010950048709651021688891777877937875096931459006746039284"
    by (simp add: be_value_def demo_y_def)
  have "be_value demo_y * be_value demo_y =
      18484299446284197684144414341734473199757642899935467386529302760226016477115 * p256_p + p256_b"
    unfolding y p256_p_def p256_b_def by simp
  moreover have "be_value demo_y < p256_p" "0 < p256_p" "p256_b < p256_p"
    unfolding y p256_p_def p256_b_def by simp_all
  ultimately have "on_p256 0 (be_value demo_y)" by (simp add: on_p256_def p256_rhs_def)
  moreover have "be_value (replicate 32 (CHR 0x00)) = 0"
    by (simp add: be_value_def numeral_eq_Suc)
  moreover have "length demo_y = 32" by (simp add: demo_y_def)
  ultimately show ?thesis by (simp add: p256_uncompressed_ok_def demo_point_def)
qed

lemma demo_point_key: "\<exists>k. parse_public_key (b64_encode e demo_point) = Inr k"
  if "e \<in> set package_encodings"
  using demo_point_ok decode_key_encode [OF that] by (auto simp: parse_public_key_Inr)

lemma demo_plain:
  "plain_value ''a.b.c''" "plain_value ''a.b.d''" "plain_value ''key''"
  by (simp_all add: plain_value_def space_bytes_def space_encodings_def)

lemma demo_scheme: "is_scheme ''vapid''" "is_scheme ''VAPID''"
proof -
  have "equal_fold ''vapid'' ''vapid''" "equal_fold ''VAPID'' ''vapid''" by code_simp+
  then show "is_scheme ''vapid''" "is_scheme ''VAPID''"
    by (simp_all add: is_scheme_def space_bytes_def space_encodings_def)
qed

lemma demo_encodings:
  "raw_url_encoding \<in> set package_encodings" "std_encoding \<in> set package_encodings"
  by (simp_all add: package_encodings_def)

text \<open>\<open>  VAPID  k = ... , x=1,t=a.b.c \<close>: the parameters in the other order, with blanks.\<close>

definition demo_params :: "header_param list" where
  "demo_params =
    [\<lparr>par_before = ''  '', par_name = ''k'', par_mid = '' '', par_lead = '' '',
       par_value = b64_encode raw_url_encoding demo_point, par_after = '' ''\<rparr>,
     \<lparr>par_before = '' '', par_name = ''key'', par_mid = [], par_lead = [], par_value = ''key'',
       par_after = []\<rparr>,
     \<lparr>par_before = [], par_name = ''t'', par_mid = [], par_lead = [], par_value = ''a.b.c'',
       par_after = '' ''\<rparr>]"

theorem verify_wellformed_witness:
  "verify demo_jwt (header_text '' '' ''VAPID'' demo_params) (b64_encode std_encoding demo_point) = None \<and>
   verify demo_jwt (header_text '' '' ''VAPID'' demo_params) (b64_encode std_encoding ''other'')
     = Some VapidKeyMismatch"
proof -
  obtain k where k: "parse_public_key (b64_encode raw_url_encoding demo_point) = Inr k"
    using demo_point_key [OF demo_encodings(1)] by blast
  have ne: "demo_point \<noteq> []" "demo_point \<noteq> ''other''" by (simp_all add: demo_point_def)
  have "plain_value ''t''" "plain_value ''k''"
    by (simp_all add: plain_value_def space_bytes_def space_encodings_def)
  then have ok: "\<forall>p \<in> set demo_params. param_ok p"
    using demo_plain plain_b64 [OF demo_encodings(1) ne(1)]
    by (simp add: demo_params_def param_ok_def blanks_def)
  have "verify demo_jwt (header_text '' '' ''VAPID'' demo_params) (b64_encode std_encoding raw') =
    (if demo_point \<noteq> raw' then Some VapidKeyMismatch
     else case parse_public_key (b64_encode raw_url_encoding demo_point) of
            Inl err \<Rightarrow> Some (VapidBadKey err)
          | Inr k \<Rightarrow> map_option VapidBadSignature (demo_jwt [''ES256''] k ''a.b.c''))"
    if "raw' \<noteq> []" for raw'
    by (rule verify_wellformed [OF demo_scheme(2) _ _ ok _ _ demo_encodings that])
      (simp_all add: demo_params_def param_value_def blanks_def)
  from this [OF ne(1)] this [of "''other''"] ne k show ?thesis
    by (simp add: demo_jwt_def del: b64_encode.simps)
qed

theorem verify_sound_witness:
  "\<exists>h raw. parse_header (vapid_header ''vapid'' '' '' ''a.b.c'' (b64_encode raw_url_encoding demo_point))
       = Inr h \<and> decode_key (hd_key h) = Inr raw \<and> p256_uncompressed_ok raw"
proof -
  obtain k where k: "parse_public_key (b64_encode raw_url_encoding demo_point) = Inr k"
    using demo_point_key [OF demo_encodings(1)] by blast
  have "demo_point \<noteq> []" by (simp add: demo_point_def)
  note plain = plain_b64 [OF demo_encodings(1) this] plain_b64 [OF demo_encodings(2) this]
  have "verify demo_jwt
      (vapid_header ''vapid'' '' '' ''a.b.c'' (b64_encode raw_url_encoding demo_point))
      (b64_encode std_encoding demo_point) = None"
    using parse_vapid_header [OF demo_scheme(1) _ demo_plain(1) plain(1), of "'' ''"] k
      decode_key_encode [OF demo_encodings(1)] decode_key_encode [OF demo_encodings(2)]
    by (auto simp: verify_None same_key_iff demo_jwt_def)
  from verify_sound [OF this] plain(2) show ?thesis by (auto simp: plain_value_def)
qed

theorem describe_hides_signature_witness:
  "describe (\<lambda>_. True) (vapid_header ''vapid'' '' '' ''a.b.c'' ''key'') =
   describe (\<lambda>_. True) (vapid_header ''vapid'' '' '' ''a.b.d'' ''key'')"
  using describe_hides_signature [OF demo_scheme(1) demo_plain(3), of "''a''" "''b''" "''c''" "''d''"]
    demo_plain by simp

theorem describe_leaks_token_witness:
  "contains_str (describe (\<lambda>_. True) (vapid_header ''vapid'' [] ''a.b.c'' ''key'')) ''a.b.c''"
  using describe_leaks_token [OF demo_scheme(1) demo_plain(1,3)] by simp

end
