(* ===== verification/Relay.thy ===== *)
theory Relay
  imports Web_Push_Store Push_Types Rate_Limiter Vapid Go_Json Http_Types
begin

text \<open>
  \<open>internal/relay/relay.go\<close>: the three handlers of the Web Push relay. The state of a handler
  is the store behind the interface \<open>relay.Store\<close>, the limiter's windows, the once-flag of
  the first log line and the world of the sender; every log line is kept with its arguments.
\<close>

definition max_ciphertext_bytes :: nat where
  "max_ciphertext_bytes = 2800"

definition read_limit :: nat where
  "read_limit = 64 * 1024"

definition placeholder_title :: string where
  "placeholder_title = ''Fediverse''"

datatype relay_log =
    LogRegisterFailed store_error
  | LogRegistered string string string bool
  | LogUnregisterFailed store_error
  | LogUnregisteredByURL
  | LogUnregisterDeviceFailed store_error
  | LogUnregisteredDevice string string
  | LogUnknownEndpoint
  | LogLookupFailed store_error
  | LogRateLimited
  | LogFirstShape string string string string bool
  | LogFirstVapid string
  | LogUnpinnedBadVapid vapid_error
  | LogVapidFailed vapid_error string
  | LogBodyReadFailed
  | LogPushReceived nat string string
  | LogEmptyBody
  | LogOversized nat
  | LogBadEncoding string
  | LogTokenDead send_error
  | LogDeadTokenRemovalFailed store_error
  | LogDeliveryFailed send_error
  | LogTouchFailed store_error

record ('s, 'w) relay_state =
  rel_store :: 's
  rel_world :: 'w
  rel_windows :: windows
  rel_shape_done :: bool
  rel_log :: "relay_log list"

text \<open>
  What \<open>NewHandler\<close> is given, with the library code the handlers call: the JWT library, whose
  answer depends on the time, and the printable runes of \<open>%q\<close>.
\<close>

record ('s, 'w) relay_env =
  env_store :: "'s relay_store"
  env_sender :: "'w sender"
  env_base_url :: string
  env_jwt :: "int \<Rightarrow> jwt_parser"
  env_printable :: "nat \<Rightarrow> bool"

definition new_relay_env ::
  "'s relay_store \<Rightarrow> 'w sender \<Rightarrow> string \<Rightarrow> (int \<Rightarrow> jwt_parser) \<Rightarrow> (nat \<Rightarrow> bool)
     \<Rightarrow> ('s, 'w) relay_env"
  where
  "new_relay_env ops sender base jwt printable =
     \<lparr>env_store = ops, env_sender = sender, env_base_url = trim_right_char (CHR ''/'') base,
      env_jwt = jwt, env_printable = printable\<rparr>"

definition new_relay_state :: "'s \<Rightarrow> 'w \<Rightarrow> ('s, 'w) relay_state" where
  "new_relay_state s w = \<lparr>rel_store = s, rel_world = w, rel_windows = [],
     rel_shape_done = False, rel_log = []\<rparr>"

definition log_line :: "relay_log \<Rightarrow> ('s, 'w) relay_state \<Rightarrow> ('s, 'w) relay_state" where
  "log_line l st = st\<lparr>rel_log := rel_log st @ [l]\<rparr>"

definition truncate_device :: "string \<Rightarrow> string" where
  "truncate_device token =
     (if length token \<le> 12 then token else take 12 token @ [CHR 0xE2, CHR 0x80, CHR 0xA6])"

subsection \<open>Registration\<close>

record register_request =
  rr_device :: string
  rr_platform :: string
  rr_app :: string
  rr_vapid :: string
  rr_instance :: string

definition empty_register :: register_request where
  "empty_register = \<lparr>rr_device = [], rr_platform = [], rr_app = [], rr_vapid = [], rr_instance = []\<rparr>"

definition register_fields :: "(string \<times> register_request decoder) list" where
  "register_fields =
     [(''deviceToken'', dec_field rr_device (\<lambda>x r. r\<lparr>rr_device := x\<rparr>) dec_string),
      (''platform'', dec_field rr_platform (\<lambda>x r. r\<lparr>rr_platform := x\<rparr>) dec_string),
      (''appId'', dec_field rr_app (\<lambda>x r. r\<lparr>rr_app := x\<rparr>) dec_string),
      (''vapidPublicKey'', dec_field rr_vapid (\<lambda>x r. r\<lparr>rr_vapid := x\<rparr>) dec_string),
      (''instance'', dec_field rr_instance (\<lambda>x r. r\<lparr>rr_instance := x\<rparr>) dec_string)]"

text \<open>A failed read is a decoding error like any other.\<close>

definition decode_body :: "'a decoder \<Rightarrow> 'a \<Rightarrow> request \<Rightarrow> 'a option" where
  "decode_body d zero r =
     (case req_body r of None \<Rightarrow> None | Some body \<Rightarrow> decode_first d zero (take read_limit body))"

definition endpoint_url :: "string \<Rightarrow> string \<Rightarrow> string" where
  "endpoint_url base i = base @ ''/relay/'' @ i"

definition handle_register ::
  "('s, 'w) relay_env \<Rightarrow> request \<Rightarrow> ('s, 'w) relay_state \<Rightarrow> ('s, 'w) relay_state \<times> response"
  where
  "handle_register env r st =
     (case decode_body (dec_struct register_fields) empty_register r of
        None \<Rightarrow> (st, http_error ''invalid JSON body'' 400)
      | Some req \<Rightarrow>
          let platform = to_lower (trim_space (rr_platform req)) in
          if platform \<noteq> ''ios'' \<and> platform \<noteq> ''android''
            then (st, http_error (''platform must be '' @ [CHR 0x22] @ ''ios'' @ [CHR 0x22] @ '' or ''
                   @ [CHR 0x22] @ ''android'' @ [CHR 0x22]) 400)
          else if trim_space (rr_device req) = []
            then (st, http_error ''deviceToken is required'' 400)
          else if trim_space (rr_app req) = []
            then (st, http_error ''appId is required'' 400)
          else
            let e = \<lparr>we_platform = platform, we_device = trim_space (rr_device req),
                     we_app = trim_space (rr_app req), we_vapid = trim_space (rr_vapid req),
                     we_instance = trim_space (rr_instance req)\<rparr>;
                (s', res) = rs_create (env_store env) e (rel_store st);
                st' = st\<lparr>rel_store := s'\<rparr> in
            (case res of
               Inl err \<Rightarrow> (log_line (LogRegisterFailed err) st',
                            http_error ''failed to create endpoint'' 500)
             | Inr i \<Rightarrow>
                 (log_line (LogRegistered platform (truncate_device (rr_device req))
                              (rr_instance req) (rr_vapid req \<noteq> [])) st',
                  \<lparr>res_status = 201, res_headers = [(''Content-Type'', ''application/json'')],
                   res_body = json_text (JObj [(''endpoint'',
                     JStr (endpoint_url (env_base_url env) i))]) @ [CHR 0x0A]\<rparr>)))"

subsection \<open>Unregistration\<close>

record unregister_request =
  ur_endpoint :: string
  ur_device :: string
  ur_app :: string

definition empty_unregister :: unregister_request where
  "empty_unregister = \<lparr>ur_endpoint = [], ur_device = [], ur_app = []\<rparr>"

definition unregister_fields :: "(string \<times> unregister_request decoder) list" where
  "unregister_fields =
     [(''endpoint'', dec_field ur_endpoint (\<lambda>x r. r\<lparr>ur_endpoint := x\<rparr>) dec_string),
      (''deviceToken'', dec_field ur_device (\<lambda>x r. r\<lparr>ur_device := x\<rparr>) dec_string),
      (''appId'', dec_field ur_app (\<lambda>x r. r\<lparr>ur_app := x\<rparr>) dec_string)]"

definition id_of_url :: "string \<Rightarrow> string" where
  "id_of_url u = (case last_index (CHR ''/'') u of None \<Rightarrow> u | Some i \<Rightarrow> drop (i + 1) u)"

definition handle_unregister ::
  "('s, 'w) relay_env \<Rightarrow> request \<Rightarrow> ('s, 'w) relay_state \<Rightarrow> ('s, 'w) relay_state \<times> response"
  where
  "handle_unregister env r st =
     (case decode_body (dec_struct unregister_fields) empty_unregister r of
        None \<Rightarrow> (st, http_error ''invalid JSON body'' 400)
      | Some req \<Rightarrow>
          if trim_space (ur_endpoint req) \<noteq> [] then
            let (s', res) = rs_delete (env_store env) (id_of_url (ur_endpoint req)) (rel_store st);
                st' = st\<lparr>rel_store := s'\<rparr> in
            (case res of
               Some err \<Rightarrow> (log_line (LogUnregisterFailed err) st',
                             http_error ''failed to remove endpoint'' 500)
             | None \<Rightarrow> (log_line LogUnregisteredByURL st', bare_status 204))
          else if trim_space (ur_device req) \<noteq> [] \<and> trim_space (ur_app req) \<noteq> [] then
            let (s', res) = rs_delete_device (env_store env) (ur_device req) (ur_app req)
                              (rel_store st);
                st' = st\<lparr>rel_store := s'\<rparr> in
            (case res of
               Some err \<Rightarrow> (log_line (LogUnregisterDeviceFailed err) st',
                             http_error ''failed to remove endpoints'' 500)
             | None \<Rightarrow> (log_line (LogUnregisteredDevice (ur_app req)
                                     (truncate_device (ur_device req))) st', bare_status 204))
          else (st, http_error ''need endpoint, or deviceToken plus appId'' 400))"

subsection \<open>Delivery\<close>

definition log_shape_once ::
  "('s, 'w) relay_env \<Rightarrow> request \<Rightarrow> ('s, 'w) relay_state \<Rightarrow> ('s, 'w) relay_state" where
  "log_shape_once env r st =
     (if rel_shape_done st then st
      else log_line (LogFirstVapid (describe (env_printable env) (req_header r ''Authorization'')))
            (log_line (LogFirstShape (req_header r ''Content-Encoding'')
                (req_header r ''Content-Type'') (req_header r ''TTL'') (req_header r ''Urgency'')
                (req_header r ''Unsubscribe-URL'' \<noteq> []))
              (st\<lparr>rel_shape_done := True\<rparr>)))"

definition relay_notification :: "webpush_endpoint \<Rightarrow> string \<Rightarrow> notification" where
  "relay_notification e body =
     \<lparr>n_token = we_device e, n_platform = we_platform e, n_title = placeholder_title, n_body = [],
      n_data = [(''m'', b64_encode raw_url_encoding body), (''source'', ''webpush'')]\<rparr>"

text \<open>The checks of a body, in order; \<open>None\<close> lets the push through.\<close>

definition drop_reason :: "string \<Rightarrow> string \<Rightarrow> relay_log option" where
  "drop_reason body encoding =
     (if body = [] then Some LogEmptyBody
      else if length body > max_ciphertext_bytes then Some (LogOversized (length body))
      else if encoding \<noteq> [] \<and> encoding \<noteq> ''aes128gcm'' then Some (LogBadEncoding encoding)
      else None)"

definition deliver ::
  "('s, 'w) relay_env \<Rightarrow> string \<Rightarrow> webpush_endpoint \<Rightarrow> string \<Rightarrow> ('s, 'w) relay_state
     \<Rightarrow> ('s, 'w) relay_state \<times> response" where
  "deliver env i e body st =
     (let (w', res) = env_sender env (relay_notification e body) (rel_world st);
          st1 = st\<lparr>rel_world := w'\<rparr> in
      case res of
        Some (TokenInvalid msg) \<Rightarrow>
          let st2 = log_line (LogTokenDead (TokenInvalid msg)) st1;
              (s', derr) = rs_delete_device (env_store env) (we_device e) (we_app e) (rel_store st2);
              st3 = st2\<lparr>rel_store := s'\<rparr>;
              st4 = (case derr of None \<Rightarrow> st3
                     | Some err \<Rightarrow> log_line (LogDeadTokenRemovalFailed err) st3)
          in (st4, http_error ''Not Found'' 404)
      | Some err \<Rightarrow> (log_line (LogDeliveryFailed err) st1, http_error ''Bad Gateway'' 502)
      | None \<Rightarrow>
          let (s', terr) = rs_touch (env_store env) i (rel_store st1);
              st2 = st1\<lparr>rel_store := s'\<rparr>;
              st3 = (case terr of None \<Rightarrow> st2 | Some err \<Rightarrow> log_line (LogTouchFailed err) st2)
          in (st3, bare_status 201))"

definition accept_push ::
  "('s, 'w) relay_env \<Rightarrow> string \<Rightarrow> webpush_endpoint \<Rightarrow> request \<Rightarrow> ('s, 'w) relay_state
     \<Rightarrow> ('s, 'w) relay_state \<times> response" where
  "accept_push env i e r st =
     (case req_body r of
        None \<Rightarrow> (log_line LogBodyReadFailed st, http_error ''Internal Server Error'' 500)
      | Some full \<Rightarrow>
          let body = take read_limit full;
              encoding = req_header r ''Content-Encoding'';
              st1 = log_line (LogPushReceived (length body) encoding (we_platform e)) st in
          (case drop_reason body encoding of
             Some l \<Rightarrow> (log_line l st1, bare_status 202)
           | None \<Rightarrow> deliver env i e body st1))"

definition handle_push ::
  "('s, 'w) relay_env \<Rightarrow> int \<Rightarrow> string \<Rightarrow> request \<Rightarrow> ('s, 'w) relay_state
     \<Rightarrow> ('s, 'w) relay_state \<times> response" where
  "handle_push env now i r st =
     (let (s', found) = rs_get (env_store env) i (rel_store st);
          st1 = st\<lparr>rel_store := s'\<rparr> in
      case found of
        Inl EndpointNotFound \<Rightarrow> (log_line LogUnknownEndpoint st1, http_error ''Not Found'' 404)
      | Inl err \<Rightarrow> (log_line (LogLookupFailed err) st1, http_error ''Internal Server Error'' 500)
      | Inr e \<Rightarrow>
          let (ok, ws) = allow i now (rel_windows st1);
              st2 = st1\<lparr>rel_windows := ws\<rparr> in
          if \<not> ok then
            (log_line LogRateLimited st2,
             with_header ''Retry-After'' ''60'' (http_error ''Too Many Requests'' 429))
          else
            let st3 = log_shape_once env r st2;
                auth = req_header r ''Authorization'' in
            (case verify (env_jwt env now) auth (we_vapid e) of
               None \<Rightarrow> accept_push env i e r st3
             | Some err \<Rightarrow>
                 if we_vapid e = [] then accept_push env i e r (log_line (LogUnpinnedBadVapid err) st3)
                 else (log_line (LogVapidFailed err (describe (env_printable env) auth)) st3,
                       bare_status 202)))"

text \<open>The answer to \<open>GET /relay/{id}\<close>.\<close>

definition handle_probe :: response where
  "handle_probe = with_header ''Allow'' ''POST'' (http_error ''Method Not Allowed'' 405)"

text \<open>
  The routes under \<open>/relay/\<close>. The mux prefers the literal segments to \<open>{id}\<close>, a pattern for
  GET also matches HEAD, and another method on a known path is answered by the mux. The path is
  the one of the request line without percent escapes.
\<close>

datatype relay_route =
    ToRegister
  | ToUnregister
  | ToPush string
  | ToProbe
  | WrongMethod
  | NoRoute

definition relay_route_of :: "string \<Rightarrow> string \<Rightarrow> relay_route" where
  "relay_route_of method path =
     (case split_on (CHR ''/'') path of
        [root, dir, i] \<Rightarrow>
          if root \<noteq> [] \<or> dir \<noteq> ''relay'' \<or> i = [] then NoRoute
          else if method = ''POST'' then
            (if i = ''register'' then ToRegister
             else if i = ''unregister'' then ToUnregister
             else ToPush i)
          else if method = ''GET'' \<or> method = ''HEAD'' then ToProbe
          else WrongMethod
      | _ \<Rightarrow> NoRoute)"

definition relay_serve ::
  "('s, 'w) relay_env \<Rightarrow> int \<Rightarrow> request \<Rightarrow> ('s, 'w) relay_state \<Rightarrow> ('s, 'w) relay_state \<times> response"
  where
  "relay_serve env now r st =
     (case relay_route_of (req_method r) (req_path r) of
        ToRegister \<Rightarrow> handle_register env r st
      | ToUnregister \<Rightarrow> handle_unregister env r st
      | ToPush i \<Rightarrow> handle_push env now i r st
      | ToProbe \<Rightarrow> (st, handle_probe)
      | WrongMethod \<Rightarrow>
          (st, with_header ''Allow'' ''GET, HEAD, POST'' (http_error ''Method Not Allowed'' 405))
      | NoRoute \<Rightarrow> (st, http_error ''404 page not found'' 404))"

subsection \<open>The outcome of a push\<close>

text \<open>Mastodon cancels a subscription on these answers (the package comment).\<close>

definition destroys :: "nat \<Rightarrow> bool" where
  "destroys code \<longleftrightarrow> 400 \<le> code \<and> code \<le> 499 \<and> code \<notin> {408, 429}"

lemma log_line_fields [simp, handler_simps]:
  "rel_store (log_line l st) = rel_store st" "rel_world (log_line l st) = rel_world st"
  "rel_windows (log_line l st) = rel_windows st" "rel_log (log_line l st) = rel_log st @ [l]"
  by (simp_all add: log_line_def)

lemma log_shape_once_fields [simp, handler_simps]:
  "rel_store (log_shape_once env r st) = rel_store st"
  "rel_world (log_shape_once env r st) = rel_world st"
  "rel_windows (log_shape_once env r st) = rel_windows st"
  by (simp_all add: log_shape_once_def)

definition body_accepted :: "request \<Rightarrow> string \<Rightarrow> bool" where
  "body_accepted r body \<longleftrightarrow>
     req_body r = Some body \<and> body \<noteq> [] \<and> length body \<le> max_ciphertext_bytes \<and>
     req_header r ''Content-Encoding'' \<in> {[], ''aes128gcm''}"

lemma accept_push_outcome:
  assumes "accept_push env i e r st = (st', res)"
  shows "(rel_world st' = rel_world st \<and> rel_store st' = rel_store st \<and>
            res_status res \<in> {202, 500} \<and> \<not> (\<exists>body. body_accepted r body)) \<or>
         (\<exists>body st1. body_accepted r body \<and> rel_store st1 = rel_store st \<and>
            rel_world st1 = rel_world st \<and> rel_windows st1 = rel_windows st \<and>
            deliver env i e body st1 = (st', res))"
proof (cases "req_body r")
  case None
  then show ?thesis using assms by (auto simp: accept_push_def body_accepted_def)
next
  case (Some full)
  let ?body = "take read_limit full"
  have short: "length ?body \<le> max_ciphertext_bytes \<longleftrightarrow> length full \<le> max_ciphertext_bytes"
    by (auto simp: read_limit_def max_ciphertext_bytes_def)
  have same: "length full \<le> max_ciphertext_bytes \<Longrightarrow> ?body = full"
    by (simp add: read_limit_def max_ciphertext_bytes_def)
  have nil: "?body = [] \<longleftrightarrow> full = []" by (simp add: read_limit_def)
  show ?thesis
  proof (cases "drop_reason ?body (req_header r ''Content-Encoding'')")
    case (Some l)
    then have "\<not> body_accepted r full"
      using short nil \<open>req_body r = Some full\<close>
      by (auto simp: drop_reason_def body_accepted_def split: if_splits)
    then show ?thesis
      using assms Some \<open>req_body r = Some full\<close>
      by (auto simp: accept_push_def Let_def body_accepted_def)
  next
    case None
    then have "body_accepted r full" and "?body = full"
      using short same nil \<open>req_body r = Some full\<close>
      by (auto simp: drop_reason_def body_accepted_def split: if_splits)
    then show ?thesis
      using assms None \<open>req_body r = Some full\<close>
      by (auto simp: accept_push_def Let_def)
  qed
qed

lemma deliver_outcome:
  assumes "deliver env i e body st = (st', res)"
    and "env_sender env (relay_notification e body) (rel_world st) = (w', sres)"
  shows "rel_world st' = w'"
    and "sres = None \<Longrightarrow> res_status res = 201 \<and>
           rel_store st' = fst (rs_touch (env_store env) i (rel_store st))"
    and "sres = Some (TokenInvalid m) \<Longrightarrow> res_status res = 404 \<and>
           rel_store st' = fst (rs_delete_device (env_store env) (we_device e) (we_app e) (rel_store st))"
    and "sres = Some (SendFailed m) \<Longrightarrow> res_status res = 502 \<and> rel_store st' = rel_store st"
  using assms
  by (auto simp: deliver_def Let_def split: prod.splits option.splits send_error.splits)

definition authentic :: "('s, 'w) relay_env \<Rightarrow> int \<Rightarrow> webpush_endpoint \<Rightarrow> request \<Rightarrow> bool" where
  "authentic env now e r \<longleftrightarrow>
     we_vapid e = [] \<or> verify (env_jwt env now) (req_header r ''Authorization'') (we_vapid e) = None"

text \<open>Everything a push can do, by what the lookup found.\<close>

lemma handle_push_missing:
  assumes "handle_push env now i r st = (st', res)"
    and "rs_get (env_store env) i (rel_store st) = (s', Inl err)"
  shows "rel_world st' = rel_world st" and "rel_store st' = s'"
    and "rel_windows st' = rel_windows st"
    and "res_status res = (if err = EndpointNotFound then 404 else 500)"
  using assms by (cases err; force simp: handle_push_def Let_def)+

lemma handle_push_found:
  assumes "handle_push env now i r st = (st', res)"
    and "rs_get (env_store env) i (rel_store st) = (s', Inr e)"
  shows "(rel_world st' = rel_world st \<and> rel_store st' = s' \<and> res_status res \<in> {429, 202, 500}
           \<and> (\<not> authentic env now e r \<longrightarrow> res_status res \<in> {429, 202})) \<or>
         (\<exists>body st1. fst (allow i now (rel_windows st)) \<and> authentic env now e r \<and>
            body_accepted r body \<and> rel_store st1 = s' \<and> rel_world st1 = rel_world st \<and>
            rel_windows st1 = snd (allow i now (rel_windows st)) \<and>
            deliver env i e body st1 = (st', res))"
proof -
  obtain ok ws where al: "allow i now (rel_windows st) = (ok, ws)" by fastforce
  show ?thesis
  proof (cases ok)
    case False
    then show ?thesis
      using assms al by (auto simp: handle_push_def Let_def)
  next
    case True
    define st3 where "st3 = log_shape_once env r (st\<lparr>rel_store := s', rel_windows := ws\<rparr>)"
    have st3: "rel_store st3 = s'" "rel_world st3 = rel_world st" "rel_windows st3 = ws"
      by (simp_all add: st3_def)
    show ?thesis
    proof (cases "authentic env now e r")
      case False
      then show ?thesis
        using assms al True st3 unfolding authentic_def
        by (auto simp: handle_push_def Let_def simp flip: st3_def split: option.splits)
    next
      case auth: True
      obtain st4 where st4: "accept_push env i e r st4 = (st', res)"
        "rel_store st4 = s'" "rel_world st4 = rel_world st" "rel_windows st4 = ws"
        using assms al True auth st3 unfolding authentic_def
        by (auto simp: handle_push_def Let_def simp flip: st3_def split: option.splits if_splits)
      then show ?thesis
        using accept_push_outcome [OF st4(1)] al True auth by fastforce
    qed
  qed
qed

subsection \<open>What the relay promises on top of any store that keeps the contract\<close>

definition dead_device :: "('s, 'w) relay_env \<Rightarrow> webpush_endpoint \<Rightarrow> string \<Rightarrow> 'w \<Rightarrow> bool" where
  "dead_device env e body w \<longleftrightarrow>
     (\<exists>m. snd (env_sender env (relay_notification e body) w) = Some (TokenInvalid m))"

definition push_status :: "send_error option \<Rightarrow> nat" where
  "push_status res =
     (case res of None \<Rightarrow> 201 | Some (TokenInvalid _) \<Rightarrow> 404 | Some (SendFailed _) \<Rightarrow> 502)"

context relay_store_laws
begin

lemma push_cases:
  assumes "env_store env = ops" and "inv (rel_store st)"
    and "handle_push env now i r st = (st', res)"
  obtains
    (missing) "look (rel_store st) i = None" "res_status res = 404"
      "rel_world st' = rel_world st" "inv (rel_store st')" "look (rel_store st') = look (rel_store st)"
  | (failed) "res_status res = 500" "rel_world st' = rel_world st" "inv (rel_store st')"
      "look (rel_store st') = look (rel_store st)"
  | (held) e where "look (rel_store st) i = Some e" "res_status res \<in> {429, 202, 500}"
      "rel_world st' = rel_world st" "inv (rel_store st')" "look (rel_store st') = look (rel_store st)"
  | (sent) e body st1 where "look (rel_store st) i = Some e" "authentic env now e r"
      "body_accepted r body" "fst (allow i now (rel_windows st))"
      "inv (rel_store st1)" "look (rel_store st1) = look (rel_store st)"
      "rel_world st1 = rel_world st" "deliver env i e body st1 = (st', res)"
proof -
  obtain s' found where get: "rs_get ops i (rel_store st) = (s', found)" by fastforce
  have frame: "inv s'" "look s' = look (rel_store st)"
    using get_frame [OF assms(2) get] by auto
  show thesis
  proof (cases found)
    case (Inl err)
    show thesis
    proof (cases "err = EndpointNotFound")
      case True
      show thesis
        using handle_push_missing [OF assms(3), unfolded assms(1), OF get [unfolded Inl]] frame
          get_missing [OF assms(2)] get Inl True
        by (intro missing) auto
    next
      case False
      show thesis
        using handle_push_missing [OF assms(3), unfolded assms(1), OF get [unfolded Inl]] frame False
        by (intro failed) auto
    qed
  next
    case (Inr e)
    have found: "look (rel_store st) i = Some e"
      using get_found [OF assms(2)] get Inr by auto
    show thesis
      using handle_push_found [OF assms(3), unfolded assms(1), OF get [unfolded Inr]]
    proof (elim disjE exE conjE)
      assume "rel_store st' = s'" "rel_world st' = rel_world st" "res_status res \<in> {429, 202, 500}"
      then show thesis using held [OF found] frame by simp
    next
      fix body st1
      assume a: "authentic env now e r" "body_accepted r body" "fst (allow i now (rel_windows st))"
        "rel_store st1 = s'" "rel_world st1 = rel_world st" "deliver env i e body st1 = (st', res)"
      show thesis by (rule sent [OF found a(1-3) _ _ a(5,6)]) (simp_all add: a(4) frame)
    qed
  qed
qed

lemma deliver_contract:
  assumes "env_store env = ops" and "inv (rel_store st)"
    and "deliver env i e body st = (st', res)"
  shows "inv (rel_store st')" and "look (rel_store st') j = Some f \<Longrightarrow> look (rel_store st) j = Some f"
    and "\<not> dead_device env e body (rel_world st) \<Longrightarrow> look (rel_store st') = look (rel_store st)"
    and "rel_world st' = fst (env_sender env (relay_notification e body) (rel_world st))"
    and "res_status res = push_status (snd (env_sender env (relay_notification e body) (rel_world st)))"
proof -
  obtain w' sres where send: "env_sender env (relay_notification e body) (rel_world st) = (w', sres)"
    by fastforce
  obtain s' derr where del: "rs_delete_device ops (we_device e) (we_app e) (rel_store st) = (s', derr)"
    by fastforce
  have del': "inv s' \<and> (look s' j = Some f \<longrightarrow> look (rel_store st) j = Some f)" for j f
  proof (cases derr)
    case None
    with del have "rs_delete_device ops (we_device e) (we_app e) (rel_store st) = (s', None)" by simp
    from delete_device_done [OF assms(2) this] delete_device_others(1) [OF assms(2) this]
    show ?thesis by blast
  next
    case (Some err)
    with del delete_device_failed [OF assms(2), of "we_device e" "we_app e" s' err]
    show ?thesis by simp
  qed
  note out = deliver_outcome [OF assms(3) send, unfolded assms(1)]
  note touch = touch_frame [OF assms(2), of i]
  consider "sres = None" | m where "sres = Some (TokenInvalid m)" | m where "sres = Some (SendFailed m)"
    by (cases sres) (auto, metis send_error.exhaust)
  note kinds = this
  show "inv (rel_store st')"
    using kinds out assms(2) touch del del' by cases auto
  show "look (rel_store st') j = Some f \<Longrightarrow> look (rel_store st) j = Some f"
    using kinds out assms(2) touch del del' [of j f] by cases auto
  show "\<not> dead_device env e body (rel_world st) \<Longrightarrow> look (rel_store st') = look (rel_store st)"
    using kinds out touch send by cases (auto simp: dead_device_def)
  show "rel_world st' = fst (env_sender env (relay_notification e body) (rel_world st))"
    using out(1) send by simp
  show "res_status res = push_status (snd (env_sender env (relay_notification e body) (rel_world st)))"
    using kinds out send by cases (auto simp: push_status_def)
qed

lemma push_keeps:
  assumes "env_store env = ops" and "inv (rel_store st)"
    and "handle_push env now i r st = (st', res)"
  shows "inv (rel_store st')" and "look (rel_store st') j = Some f \<Longrightarrow> look (rel_store st) j = Some f"
proof (rule_tac [!] push_cases [OF assms])
  fix e body st1
  assume "inv (rel_store st1)" "look (rel_store st1) = look (rel_store st)"
    "deliver env i e body st1 = (st', res)"
  with deliver_contract(1,2) [OF assms(1) this(1,3)]
  show "inv (rel_store st')"
    and "look (rel_store st') j = Some f \<Longrightarrow> look (rel_store st) j = Some f" by simp_all
qed auto

lemma push_cancels:
  assumes "env_store env = ops" and "inv (rel_store st)"
    and "handle_push env now i r st = (st', res)" and "destroys (res_status res)"
  shows "look (rel_store st) i = None \<or>
    (\<exists>e body. look (rel_store st) i = Some e \<and> authentic env now e r \<and> body_accepted r body \<and>
       dead_device env e body (rel_world st))"
proof (rule push_cases [OF assms(1-3)])
  fix e body st1
  assume sent: "look (rel_store st) i = Some e" "authentic env now e r" "body_accepted r body"
    "inv (rel_store st1)" "rel_world st1 = rel_world st" "deliver env i e body st1 = (st', res)"
  have "dead_device env e body (rel_world st)"
    using deliver_contract(5) [OF assms(1) sent(4,6)] assms(4) sent(5)
    by (auto simp: push_status_def destroys_def dead_device_def
        split: option.splits send_error.splits)
  with sent show ?thesis by blast
qed (use assms(4) in \<open>auto simp: destroys_def\<close>)

lemma push_forged:
  assumes "env_store env = ops" and "inv (rel_store st)"
    and "handle_push env now i r st = (st', res)"
    and "look (rel_store st) i = Some e" and "\<not> authentic env now e r"
  shows "rel_world st' = rel_world st" and "look (rel_store st') = look (rel_store st)"
    and "res_status res \<in> {202, 429, 500}"
  by (rule push_cases [OF assms(1-3)]; use assms(4,5) in auto)+

lemma push_sends:
  assumes "env_store env = ops" and "inv (rel_store st)"
    and "handle_push env now i r st = (st', res)" and "rel_world st' \<noteq> rel_world st"
  shows "\<exists>e body. look (rel_store st) i = Some e \<and> authentic env now e r \<and> body_accepted r body \<and>
    rel_world st' = fst (env_sender env (relay_notification e body) (rel_world st)) \<and>
    res_status res = push_status (snd (env_sender env (relay_notification e body) (rel_world st)))"
proof (rule push_cases [OF assms(1-3)])
  fix e body st1
  assume sent: "look (rel_store st) i = Some e" "authentic env now e r" "body_accepted r body"
    "inv (rel_store st1)" "rel_world st1 = rel_world st" "deliver env i e body st1 = (st', res)"
  then show ?thesis using deliver_contract(4,5) [OF assms(1) sent(4,6)] by auto
qed (use assms(4) in auto)

end

subsection \<open>Registration and unregistration\<close>

definition registered_endpoint :: "register_request \<Rightarrow> webpush_endpoint" where
  "registered_endpoint req =
     \<lparr>we_platform = to_lower (trim_space (rr_platform req)), we_device = trim_space (rr_device req),
      we_app = trim_space (rr_app req), we_vapid = trim_space (rr_vapid req),
      we_instance = trim_space (rr_instance req)\<rparr>"

definition register_valid :: "register_request \<Rightarrow> bool" where
  "register_valid req \<longleftrightarrow>
     we_platform (registered_endpoint req) \<in> webpush_platforms \<and>
     we_device (registered_endpoint req) \<noteq> [] \<and> we_app (registered_endpoint req) \<noteq> []"

lemma handle_register_cases:
  assumes "handle_register env r st = (st', res)"
  shows "(\<exists>req i s'. decode_body (dec_struct register_fields) empty_register r = Some req \<and>
      register_valid req \<and>
      rs_create (env_store env) (registered_endpoint req) (rel_store st) = (s', Inr i) \<and>
      rel_store st' = s' \<and> res_status res = 201 \<and>
      res_body res = json_text (JObj [(''endpoint'', JStr (endpoint_url (env_base_url env) i))])
        @ [CHR 0x0A] \<and>
      rel_log st' = rel_log st @ [LogRegistered (we_platform (registered_endpoint req))
        (truncate_device (rr_device req)) (rr_instance req) (rr_vapid req \<noteq> [])]) \<or>
    (\<exists>req s' err. decode_body (dec_struct register_fields) empty_register r = Some req \<and>
      rs_create (env_store env) (registered_endpoint req) (rel_store st) = (s', Inl err) \<and>
      rel_store st' = s' \<and> res_status res = 500) \<or>
    rel_store st' = rel_store st \<and> res_status res = 400 \<and>
      (\<forall>req. decode_body (dec_struct register_fields) empty_register r = Some req \<longrightarrow>
         \<not> register_valid req)"
  using assms
  by (auto simp: handle_register_def registered_endpoint_def register_valid_def
      webpush_platforms_def Let_def split: option.splits prod.splits sum.splits if_splits)

lemma handle_register_world:
  "rel_world (fst (handle_register env r st)) = rel_world st"
  by (auto simp: handle_register_def Let_def split: option.splits prod.splits sum.splits)

lemma handle_unregister_url:
  assumes "decode_body (dec_struct unregister_fields) empty_unregister r = Some req"
    and "trim_space (ur_endpoint req) \<noteq> []"
    and "rs_delete (env_store env) (id_of_url (ur_endpoint req)) (rel_store st) = (s', err)"
  shows "rel_store (fst (handle_unregister env r st)) = s'"
    and "res_status (snd (handle_unregister env r st)) = (if err = None then 204 else 500)"
  using assms by (auto simp: handle_unregister_def Let_def split: option.splits)

lemma handle_unregister_device:
  assumes "decode_body (dec_struct unregister_fields) empty_unregister r = Some req"
    and "trim_space (ur_endpoint req) = []"
    and "trim_space (ur_device req) \<noteq> []" and "trim_space (ur_app req) \<noteq> []"
    and "rs_delete_device (env_store env) (ur_device req) (ur_app req) (rel_store st) = (s', err)"
  shows "rel_store (fst (handle_unregister env r st)) = s'"
    and "res_status (snd (handle_unregister env r st)) = (if err = None then 204 else 500)"
  using assms by (auto simp: handle_unregister_def Let_def split: option.splits)

lemma handle_unregister_store:
  obtains (none) "rel_store (fst (handle_unregister env r st)) = rel_store st"
  | (url) i where "rel_store (fst (handle_unregister env r st)) = fst (rs_delete (env_store env) i (rel_store st))"
  | (device) d a where "rel_store (fst (handle_unregister env r st))
      = fst (rs_delete_device (env_store env) d a (rel_store st))"
proof (cases "decode_body (dec_struct unregister_fields) empty_unregister r")
  case None
  then show thesis by (intro none) (simp add: handle_unregister_def)
next
  case (Some req)
  show thesis
  proof (cases "trim_space (ur_endpoint req) \<noteq> []")
    case True
    show thesis
      using handle_unregister_url(1) [OF Some True prod.collapse [symmetric]] by (rule url)
  next
    case ep: False
    show thesis
    proof (cases "trim_space (ur_device req) \<noteq> [] \<and> trim_space (ur_app req) \<noteq> []")
      case True
      show thesis
        using handle_unregister_device(1) [OF Some _ _ _ prod.collapse [symmetric]] ep True
        by (intro device) auto
    next
      case False
      then show thesis using Some ep by (intro none) (auto simp: handle_unregister_def)
    qed
  qed
qed

lemma relay_serve_cases:
  "fst (relay_serve env now r st) = st \<or>
   fst (relay_serve env now r st) = fst (handle_register env r st) \<or>
   fst (relay_serve env now r st) = fst (handle_unregister env r st) \<or>
   (\<exists>i. fst (relay_serve env now r st) = fst (handle_push env now i r st))"
  by (auto simp: relay_serve_def split: relay_route.split)

context relay_store_laws
begin

lemma register_keeps:
  assumes "env_store env = ops" and "inv (rel_store st)"
    and "handle_register env r st = (st', res)"
  shows "inv (rel_store st')"
  using handle_register_cases [OF assms(3)]
proof (elim disjE exE conjE)
  fix req i s'
  assume "rs_create (env_store env) (registered_endpoint req) (rel_store st) = (s', Inr i)"
    "rel_store st' = s'"
  then show ?thesis using create_found [OF assms(2)] assms(1) by simp
next
  fix req s' err
  assume "rs_create (env_store env) (registered_endpoint req) (rel_store st) = (s', Inl err)"
    "rel_store st' = s'"
  then show ?thesis using create_failed [OF assms(2)] assms(1) by simp
qed (use assms(2) in simp)

lemma unregister_keeps:
  assumes "env_store env = ops" and "inv (rel_store st)"
  shows "inv (rel_store (fst (handle_unregister env r st)))"
proof (rule handle_unregister_store [of env r st])
  fix i
  assume "rel_store (fst (handle_unregister env r st)) = fst (rs_delete (env_store env) i (rel_store st))"
  then show ?thesis
    using delete_done [OF assms(2), of i] delete_failed [OF assms(2), of i] assms(1)
    by (metis not_None_eq prod.collapse)
next
  fix d a
  assume "rel_store (fst (handle_unregister env r st))
    = fst (rs_delete_device (env_store env) d a (rel_store st))"
  then show ?thesis
    using delete_device_done [OF assms(2), of d a] delete_device_failed [OF assms(2), of d a] assms(1)
    by (metis not_None_eq prod.collapse)
qed (use assms(2) in simp)

lemma serve_keeps:
  assumes "env_store env = ops" and "inv (rel_store st)"
  shows "inv (rel_store (fst (relay_serve env now r st)))"
  using relay_serve_cases [of env now r st] register_keeps [OF assms prod.collapse [symmetric]]
    unregister_keeps [OF assms] push_keeps(1) [OF assms prod.collapse [symmetric]] assms(2)
  by metis

end

subsection \<open>How often one endpoint can be made to ring\<close>

lemma deliver_windows: "rel_windows (fst (deliver env i e body st)) = rel_windows st"
  by (auto simp: deliver_def Let_def split: prod.splits option.splits send_error.splits)

lemma accept_push_windows: "rel_windows (fst (accept_push env i e r st)) = rel_windows st"
  by (auto simp: accept_push_def Let_def deliver_windows split: option.splits)

lemma handle_push_windows:
  "rel_windows (fst (handle_push env now i r st)) =
     (case snd (rs_get (env_store env) i (rel_store st)) of
        Inl _ \<Rightarrow> rel_windows st
      | Inr _ \<Rightarrow> snd (allow i now (rel_windows st)))"
  by (auto simp: handle_push_def Let_def accept_push_windows split: prod.splits sum.splits
      store_error.splits option.splits)

lemma recording_step:
  assumes "env_sender env = recording_sender answer"
  shows "length (rel_world (fst (handle_push env now i r st))) \<le> length (rel_world st) +
     (case snd (rs_get (env_store env) i (rel_store st)) of
        Inl _ \<Rightarrow> 0
      | Inr _ \<Rightarrow> if fst (allow i now (rel_windows st)) then 1 else 0)"
proof -
  obtain s' found where get: "rs_get (env_store env) i (rel_store st) = (s', found)" by fastforce
  obtain st' res where run: "handle_push env now i r st = (st', res)" by fastforce
  show ?thesis
  proof (cases found)
    case (Inl err)
    then show ?thesis using handle_push_missing(1) [OF run get [unfolded Inl]] run get by simp
  next
    case (Inr e)
    show ?thesis
      using handle_push_found [OF run get [unfolded Inr]] run get Inr
    proof (elim disjE exE conjE)
      fix body st1
      assume "fst (allow i now (rel_windows st))" "rel_world st1 = rel_world st"
        "deliver env i e body st1 = (st', res)"
      then show ?thesis
        using deliver_outcome(1) [of env i e body st1 st' res] run get Inr
        by (simp add: assms recording_sender_def)
    qed simp
  qed
qed

fun push_all ::
  "('s, 'w) relay_env \<Rightarrow> string \<Rightarrow> (int \<times> request) list \<Rightarrow> ('s, 'w) relay_state \<Rightarrow> ('s, 'w) relay_state"
  where
  "push_all env i [] st = st"
| "push_all env i ((now, r) # evs) st = push_all env i evs (fst (handle_push env now i r st))"

lemma push_all_counted:
  assumes "env_sender env = recording_sender answer" and "sorted (map fst evs)"
    and "\<forall>ev \<in> set evs. a \<le> fst ev \<and> fst ev \<le> b"
  shows "\<exists>ts. sorted ts \<and> set ts \<subseteq> fst ` set evs \<and>
    length (rel_world (push_all env i evs st)) \<le>
      length (rel_world st) + allowed_between i a b (map (Pair i) ts) (rel_windows st)"
  using assms(2,3)
proof (induction evs arbitrary: st)
  case Nil
  show ?case by (intro exI [of _ "[]"]) simp
next
  case (Cons ev evs)
  obtain now r where ev: "ev = (now, r)" by fastforce
  define st' where "st' = fst (handle_push env now i r st)"
  obtain ts where ts: "sorted ts" "set ts \<subseteq> fst ` set evs"
    "length (rel_world (push_all env i evs st')) \<le>
       length (rel_world st') + allowed_between i a b (map (Pair i) ts) (rel_windows st')"
    using Cons.IH [of st'] Cons.prems by auto
  have now: "a \<le> now" "now \<le> b" "\<forall>t \<in> set ts. now \<le> t"
    using Cons.prems ts(2) ev by auto
  show ?case
  proof (cases "snd (rs_get (env_store env) i (rel_store st))")
    case (Inl err)
    then show ?thesis
      using ts recording_step [OF assms(1), of now i r st] handle_push_windows [of env now i r st]
      by (intro exI [of _ ts]) (auto simp: ev st'_def)
  next
    case (Inr e)
    have "allowed_between i a b (map (Pair i) (now # ts)) (rel_windows st) =
        (if fst (allow i now (rel_windows st)) then 1 else 0)
        + allowed_between i a b (map (Pair i) ts) (rel_windows st')"
      using now handle_push_windows [of env now i r st] Inr
      by (simp add: allowed_between_Cons st'_def)
    then show ?thesis
      using ts now recording_step [OF assms(1), of now i r st] Inr
      by (intro exI [of _ "now # ts"]) (auto simp: ev st'_def)
  qed
qed

end
