(* ===== verification/Relay_Theorems.thy ===== *)
theory Relay_Theorems
  imports Relay Go_Json_Roundtrip
begin

text \<open>
  What the relay promises when it runs on the gateway's own store (\<open>sqlite_relay_store\<close>):
  a subscription is cancelled only when its device is gone, a forged push has no effect, what is
  delivered is the ciphertext and nothing else, and the registration round trip.
\<close>

subsection \<open>Delivery\<close>

text \<open>
  C4: The status codes are the control the package comment describes: handlePush answers with a
  code that makes Mastodon destroy the subscription (a 4xx other than 408 and 429) only when the
  endpoint id is unknown to the store, or when an authentic push with an acceptable body was
  handed to the push service and that reported the device token as permanently invalid.\<close>

theorem push_never_cancels_live:
  assumes "endpoints_wf (rel_store st)" and "env_store env = sqlite_relay_store sha"
    and "handle_push env now i r st = (st', res)" and "destroys (res_status res)"
  shows "endpoint_of sha (rel_store st) i = None \<or>
    (\<exists>e body. endpoint_of sha (rel_store st) i = Some e \<and> authentic env now e r \<and>
       body_accepted r body \<and> dead_device env e body (rel_world st))"
  by (rule sqlite.push_cancels [OF assms(2,1,3,4)])

text \<open>
  C5: A push whose VAPID header does not verify against the key pinned for the endpoint reaches no
  push service, leaves every endpoint of the store in place, and is answered with 202 (or 429 over
  the limit, or 500 when the lookup fails), so it cannot cancel the subscription either.\<close>

theorem forged_push_harmless:
  assumes "endpoints_wf (rel_store st)" and "env_store env = sqlite_relay_store sha"
    and "handle_push env now i r st = (st', res)"
    and "endpoint_of sha (rel_store st) i = Some e" and "we_vapid e \<noteq> []"
    and "verify (env_jwt env now) (req_header r ''Authorization'') (we_vapid e) \<noteq> None"
  shows "rel_world st' = rel_world st \<and>
    endpoint_of sha (rel_store st') = endpoint_of sha (rel_store st) \<and>
    res_status res \<in> {202, 429, 500} \<and> \<not> destroys (res_status res)"
proof (intro conjI)
  have forged: "\<not> authentic env now e r" using assms(5,6) by (simp add: authentic_def)
  note facts = sqlite.push_forged [OF assms(2,1,3,4) forged]
  show "rel_world st' = rel_world st" by (rule facts)
  show "endpoint_of sha (rel_store st') = endpoint_of sha (rel_store st)" by (rule facts)
  show "res_status res \<in> {202, 429, 500}" by (rule facts)
  then show "\<not> destroys (res_status res)" by (auto simp: destroys_def)
qed

text \<open>
  C24: If a push changes the world of the push services at all, then it was sent for the endpoint's
  own device, exactly once, with the neutral title and no body text, and with the complete request
  body (at most 2800 bytes of it) as base64url, which decodes to it again; the answer is 201, 404
  for a dead token and 502 for any other failure.\<close>

theorem push_delivery:
  assumes "endpoints_wf (rel_store st)" and "env_store env = sqlite_relay_store sha"
    and "handle_push env now i r st = (st', res)" and "rel_world st' \<noteq> rel_world st"
  shows "\<exists>e body n. endpoint_of sha (rel_store st) i = Some e \<and> authentic env now e r \<and>
    req_body r = Some body \<and> body \<noteq> [] \<and> length body \<le> 2800 \<and>
    n = relay_notification e body \<and> n_token n = we_device e \<and> n_title n = ''Fediverse'' \<and>
    n_body n = [] \<and>
    (\<exists>m. map_of (n_data n) ''m'' = Some m \<and> b64_decode raw_url_encoding m = Some body) \<and>
    rel_world st' = fst (env_sender env n (rel_world st)) \<and>
    res_status res = push_status (snd (env_sender env n (rel_world st)))"
  using sqlite.push_sends [OF assms(2,1,3,4)]
  by (auto simp: body_accepted_def relay_notification_def placeholder_title_def
      max_ciphertext_bytes_def b64_decode_encode)

text \<open>
  C30: However many requests a sender aims at one endpoint within a minute, the relay hands at most
  119 notifications to the push services for them.\<close>

theorem endpoint_flood_bounded:
  assumes "env_sender env = recording_sender answer" and "windows_ok (rel_windows st)"
    and "sorted (map fst evs)" and "\<forall>ev \<in> set evs. a \<le> fst ev \<and> fst ev \<le> a + rate_window"
  shows "length (rel_world (push_all env i evs st)) \<le> length (rel_world st) + 119"
proof -
  obtain ts where ts: "sorted ts"
    "length (rel_world (push_all env i evs st)) \<le> length (rel_world st)
       + allowed_between i a (a + rate_window) (map (Pair i) ts) (rel_windows st)"
    using push_all_counted [OF assms(1,3,4)] by blast
  have "allowed_between i a (a + rate_window) (map (Pair i) ts) (rel_windows st) \<le> 2 * rate_limit - 1"
    by (rule allowed_between_bound [OF assms(2)]) (use ts(1) in \<open>simp add: o_def\<close>)
  then show ?thesis using ts(2) by (simp add: rate_limit_def)
qed

subsection \<open>The endpoint table\<close>

fun relay_run ::
  "('s, 'w) relay_env \<Rightarrow> (int \<times> request) list \<Rightarrow> ('s, 'w) relay_state \<Rightarrow> ('s, 'w) relay_state" where
  "relay_run env [] st = st"
| "relay_run env ((now, r) # rs) st = relay_run env rs (fst (relay_serve env now r st))"

text \<open>
  C35: Any sequence of requests to the relay, whatever statements of the database fail meanwhile,
  keeps the endpoint table well-formed: one live endpoint per device and app.\<close>

theorem relay_keeps_endpoints_wf:
  assumes "endpoints_wf (rel_store st)" and "env_store env = sqlite_relay_store sha"
  shows "endpoints_wf (rel_store (relay_run env rs st))"
  using assms(1)
proof (induction rs arbitrary: st)
  case (Cons nr rs)
  then show ?case
    using sqlite.serve_keeps [OF assms(2) Cons.prems] by (cases nr) simp
qed simp

lemma id_of_endpoint_url:
  assumes "CHR ''/'' \<notin> set i"
  shows "id_of_url (endpoint_url base i) = i"
proof -
  have "last_index (CHR ''/'') ((base @ ''/relay'') @ CHR ''/'' # i) = Some (length (base @ ''/relay''))"
    by (rule last_index_append [OF assms])
  then show ?thesis by (simp add: id_of_url_def endpoint_url_def)
qed

lemma encoded_id_no_slash: "CHR ''/'' \<notin> set (b64_encode raw_url_encoding buf)"
proof -
  have "enc_alphabet raw_url_encoding = url_alphabet" "\<not> enc_padded raw_url_encoding"
    by (simp_all add: raw_url_encoding_def)
  moreover have "CHR ''/'' \<notin> set url_alphabet" by (simp add: url_alphabet_def)
  ultimately show ?thesis using set_b64_encode [of raw_url_encoding buf] by auto
qed

lemma endpoint_url_not_blank: "trim_space (endpoint_url base i) \<noteq> []"
  by (rule trim_space_not_Nil [of "CHR ''/''"])
     (simp_all add: endpoint_url_def space_bytes_def space_encodings_def)

text \<open>What a successful registration has done.\<close>

lemma register_created:
  assumes "endpoints_wf (rel_store st)" and "env_store env = sqlite_relay_store sha"
    and "handle_register env r st = (st', res)" and "res_status res = 201"
  obtains req i where
    "decode_body (dec_struct register_fields) empty_register r = Some req"
    "res_body res = json_text (JObj [(''endpoint'', JStr (endpoint_url (env_base_url env) i))])
       @ [CHR 0x0A]"
    "endpoint_of sha (rel_store st') i = Some (registered_endpoint req)"
    "endpoints_wf (rel_store st')" "CHR ''/'' \<notin> set i"
    "rel_log st' = rel_log st @ [LogRegistered (we_platform (registered_endpoint req))
       (truncate_device (rr_device req)) (rr_instance req) (rr_vapid req \<noteq> [])]"
proof -
  obtain req i s' where
    req: "decode_body (dec_struct register_fields) empty_register r = Some req" and
    create: "create_webpush_endpoint sha (registered_endpoint req) (rel_store st) = (s', Inr i)" and
    rest: "rel_store st' = s'"
      "res_body res = json_text (JObj [(''endpoint'', JStr (endpoint_url (env_base_url env) i))])
       @ [CHR 0x0A]"
      "rel_log st' = rel_log st @ [LogRegistered (we_platform (registered_endpoint req))
       (truncate_device (rr_device req)) (rr_instance req) (rr_vapid req \<noteq> [])]"
    using handle_register_cases [OF assms(3)] assms(2,4)
    by (auto simp: sqlite_relay_store_def)
  have "CHR ''/'' \<notin> set i"
    using create_id_shape [OF create] encoded_id_no_slash by auto
  then show thesis
    using that [OF req rest(2)] create_wf [OF assms(1) create] create_lookup(1) [OF assms(1) create]
      rest by simp
qed

text \<open>
  C25: The registration round trip. A 201 answer carries an endpoint URL whose id finds the
  registered device, with every field trimmed; passing that URL back to unregister, with an answer
  of 204, removes exactly this id, so later pushes to it are told the endpoint is gone.\<close>

theorem register_unregister_roundtrip:
  assumes "endpoints_wf (rel_store st)" and "env_store env = sqlite_relay_store sha"
    and "handle_register env r st = (st1, res1)" and "res_status res1 = 201"
  shows "\<exists>req i. decode_body (dec_struct register_fields) empty_register r = Some req \<and>
    res_body res1 = json_text (JObj [(''endpoint'', JStr (endpoint_url (env_base_url env) i))])
      @ [CHR 0x0A] \<and>
    endpoint_of sha (rel_store st1) i = Some (registered_endpoint req) \<and>
    (\<forall>r2 req2 st2 res2.
       decode_body (dec_struct unregister_fields) empty_unregister r2 = Some req2 \<and>
       ur_endpoint req2 = endpoint_url (env_base_url env) i \<and>
       handle_unregister env r2 st1 = (st2, res2) \<and> res_status res2 = 204 \<longrightarrow>
       endpoint_of sha (rel_store st2) i = None \<and>
       (\<forall>j. hash_endpoint_id sha j \<noteq> hash_endpoint_id sha i \<longrightarrow>
          endpoint_of sha (rel_store st2) j = endpoint_of sha (rel_store st1) j))"
proof -
  obtain req i where req: "decode_body (dec_struct register_fields) empty_register r = Some req"
    and body: "res_body res1 = json_text (JObj [(''endpoint'',
       JStr (endpoint_url (env_base_url env) i))]) @ [CHR 0x0A]"
    and found: "endpoint_of sha (rel_store st1) i = Some (registered_endpoint req)"
    and wf: "endpoints_wf (rel_store st1)" and id: "CHR ''/'' \<notin> set i"
    by (rule register_created [OF assms])
  have "endpoint_of sha (rel_store st2) i = None \<and>
       (\<forall>j. hash_endpoint_id sha j \<noteq> hash_endpoint_id sha i \<longrightarrow>
          endpoint_of sha (rel_store st2) j = endpoint_of sha (rel_store st1) j)"
    if un: "decode_body (dec_struct unregister_fields) empty_unregister r2 = Some req2"
      and url: "ur_endpoint req2 = endpoint_url (env_base_url env) i"
      and run: "handle_unregister env r2 st1 = (st2, res2)" "res_status res2 = 204"
    for r2 req2 st2 res2
  proof -
    obtain s' err where del: "delete_webpush_endpoint sha i (rel_store st1) = (s', err)" by fastforce
    have "rel_store st2 = s'" "err = None"
      using handle_unregister_url [OF un, of env st1 s' err] url run del
        endpoint_url_not_blank id_of_endpoint_url [OF id] assms(2)
      by (auto simp: sqlite_relay_store_def split: if_splits)
    then show ?thesis using delete_contract [OF wf, of sha i s'] del by simp
  qed
  with req body found show ?thesis by blast
qed

text \<open>
  Unregistering by device compares the raw strings while registering trims them: a client that
  sends the same padded device token to both is told 204, and its endpoint is still there.\<close>

theorem unregister_device_misses_trimmed:
  assumes "endpoints_wf (rel_store st)" and "env_store env = sqlite_relay_store sha"
    and "handle_register env r st = (st1, res1)" and "res_status res1 = 201"
    and "decode_body (dec_struct register_fields) empty_register r = Some req"
    and "decode_body (dec_struct unregister_fields) empty_unregister r2 = Some req2"
    and "trim_space (ur_endpoint req2) = []" and "ur_device req2 = rr_device req"
    and "ur_app req2 = rr_app req" and "trim_space (rr_device req) \<noteq> rr_device req"
    and "handle_unregister env r2 st1 = (st2, res2)"
  shows "(\<exists>i. endpoint_of sha (rel_store st2) i = Some (registered_endpoint req)) \<and>
    (healthy (rel_store st1) \<longrightarrow> res_status res2 = 204)"
proof (intro conjI)
  obtain i where found: "endpoint_of sha (rel_store st1) i = Some (registered_endpoint req)"
    and wf: "endpoints_wf (rel_store st1)"
    by (rule register_created [OF assms(1-4)]) (use assms(5) in auto)
  have valid: "trim_space (rr_device req) \<noteq> []" "trim_space (rr_app req) \<noteq> []"
    using handle_register_cases [OF assms(3)] assms(4,5)
    by (auto simp: register_valid_def registered_endpoint_def)
  obtain s' err where del:
    "delete_webpush_endpoints_for_device (rr_device req) (rr_app req) (rel_store st1) = (s', err)"
    by fastforce
  have run: "rel_store st2 = s'" "res_status res2 = (if err = None then 204 else 500)"
    using handle_unregister_device [OF assms(6,7), of env st1 s' err] valid assms(2,8,9,11) del
    by (auto simp: sqlite_relay_store_def)
  have "endpoint_of sha s' i = Some (registered_endpoint req)"
  proof (cases err)
    case None
    then show ?thesis
      using delete_device_contract(2) [OF wf, of "rr_device req" "rr_app req" s' sha i] del found
        assms(10)
      by (simp add: registered_endpoint_def)
  next
    case (Some e)
    then show ?thesis using delete_error_keeps(2) del found by (metis endpoint_of_upd(1))
  qed
  then show "\<exists>i. endpoint_of sha (rel_store st2) i = Some (registered_endpoint req)"
    using run by blast
  show "healthy (rel_store st1) \<longrightarrow> res_status res2 = 204"
    using run(2) del
    by (auto simp: delete_webpush_endpoints_for_device_def db_call_def healthy_def Let_def
        split: if_splits)
qed

text \<open>
  A registration whose VAPID key consists of blanks is stored without a pinned key, so anyone
  who learns the URL can push, but the log reports it as pinned.\<close>

theorem blank_key_logged_as_pinned:
  assumes "endpoints_wf (rel_store st)" and "env_store env = sqlite_relay_store sha"
    and "handle_register env r st = (st', res)" and "res_status res = 201"
    and "decode_body (dec_struct register_fields) empty_register r = Some req"
    and "rr_vapid req \<noteq> []" and "trim_space (rr_vapid req) = []"
  shows "(\<exists>i e. endpoint_of sha (rel_store st') i = Some e \<and> we_vapid e = [] \<and>
      (\<forall>now r. authentic env now e r)) \<and>
    (\<exists>p t h. last (rel_log st') = LogRegistered p t h True)"
proof (intro conjI)
  obtain i where found: "endpoint_of sha (rel_store st') i = Some (registered_endpoint req)"
    and log: "rel_log st' = rel_log st @ [LogRegistered (we_platform (registered_endpoint req))
       (truncate_device (rr_device req)) (rr_instance req) (rr_vapid req \<noteq> [])]"
    by (rule register_created [OF assms(1-4)]) (use assms(5) in auto)
  show "\<exists>i e. endpoint_of sha (rel_store st') i = Some e \<and> we_vapid e = [] \<and> (\<forall>now r. authentic env now e r)"
    using assms(7) by (intro exI [of _ i] exI [of _ "registered_endpoint req"])
      (simp add: found authentic_def registered_endpoint_def)
  show "\<exists>p t h. last (rel_log st') = LogRegistered p t h True"
    using log assms(6) by simp
qed

text \<open>
  A sender that probes its endpoint with GET (or HEAD) is answered 405, which is one of the
  codes that make Mastodon destroy a subscription, although the comment at the route says that it
  keeps the subscription alive.\<close>

theorem probe_answer_cancels:
  assumes "req_method r = ''GET'' \<or> req_method r = ''HEAD''"
    and "req_path r = ''/relay/'' @ i" and "CHR ''/'' \<notin> set i" and "i \<noteq> []"
  shows "relay_serve env now r st = (st, handle_probe) \<and> destroys (res_status handle_probe)"
proof (intro conjI)
  have "split_on (CHR ''/'') (req_path r) = [[], ''relay'', i]"
    using assms(2,3) by (simp add: split_on_notin)
  then show "relay_serve env now r st = (st, handle_probe)"
    using assms(1,4) by (auto simp: relay_serve_def relay_route_of_def)
  show "destroys (res_status handle_probe)" by (simp add: handle_probe_def destroys_def)
qed

subsection \<open>The properties on a concrete relay\<close>

text \<open>
  One endpoint pinned to the key \<open>demo_point\<close>, one unpinned endpoint whose device is gone, and a
  sender that knows it.
\<close>

definition demo_rows :: "endpoint_row list" where
  "demo_rows =
     [\<lparr>er_hash = hash_endpoint_id demo_sha ''pinned'',
       er_endpoint = \<lparr>we_platform = ''ios'', we_device = ''dev1'', we_app = ''app'',
         we_vapid = b64_encode std_encoding demo_point, we_instance = ''mastodon.social''\<rparr>,
       er_last_push = None\<rparr>,
      \<lparr>er_hash = hash_endpoint_id demo_sha ''open'',
       er_endpoint = \<lparr>we_platform = ''android'', we_device = ''dead'', we_app = ''app'',
         we_vapid = [], we_instance = ''pixelfed.social''\<rparr>,
       er_last_push = None\<rparr>]"

definition demo_env :: "(db, notification list) relay_env" where
  "demo_env = new_relay_env (sqlite_relay_store demo_sha)
     (recording_sender (\<lambda>n. if n_token n = ''dead'' then Some (TokenInvalid ''gone'') else None))
     ''https://push.example/'' (\<lambda>_. demo_jwt) (\<lambda>_. True)"

definition demo_state :: "(db, notification list) relay_state" where
  "demo_state = new_relay_state (demo_db\<lparr>endpoint_rows := demo_rows\<rparr>) []"

definition demo_push :: "string \<Rightarrow> request" where
  "demo_push auth = \<lparr>req_method = ''POST'', req_path = ''/relay/x'',
     req_headers = [''Authorization'' \<mapsto> auth], req_remote = [], req_body = Some ''secret''\<rparr>"

lemma demo_hashes [simp]:
  "hash_endpoint_id demo_sha ''pinned'' = ''ZGVubg''" "hash_endpoint_id demo_sha ''open'' = ''bmVwbw''"
  by code_simp+

lemma demo_store_wf: "endpoints_wf (rel_store demo_state)"
  by (simp add: demo_state_def new_relay_state_def endpoints_wf_def demo_rows_def webpush_platforms_def)

lemma demo_env_store: "env_store demo_env = sqlite_relay_store demo_sha"
  by (simp add: demo_env_def new_relay_env_def)

lemma demo_lookup:
  "rs_get (env_store demo_env) ''open'' (rel_store demo_state) =
     ((rel_store demo_state)\<lparr>db_calls := 1\<rparr>, Inr (er_endpoint (demo_rows ! 1)))"
  "rs_get (env_store demo_env) ''pinned'' (rel_store demo_state) =
     ((rel_store demo_state)\<lparr>db_calls := 1\<rparr>, Inr (er_endpoint (demo_rows ! 0)))"
  by (simp_all add: demo_env_store sqlite_relay_store_def get_webpush_endpoint_def db_call_def
      demo_state_def new_relay_state_def demo_db_def demo_rows_def)

lemmas demo_run = handle_push_def accept_push_def deliver_def drop_reason_def Let_def allow_def
  demo_rows_def demo_push_def req_header_def read_limit_def max_ciphertext_bytes_def

lemma demo_dead_push:
  "res_status (snd (handle_push demo_env 0 ''open'' (demo_push []) demo_state)) = 404 \<and>
   rel_world (fst (handle_push demo_env 0 ''open'' (demo_push []) demo_state)) \<noteq> rel_world demo_state"
proof -
  have v: "verify jwt [] pinned = Some VapidMissing" for jwt pinned
    by (simp add: verify_def parse_header_def)
  have w: "rel_windows demo_state = []" by (simp add: demo_state_def new_relay_state_def)
  have send: "env_sender demo_env (relay_notification \<lparr>we_platform = p, we_device = ''dead'',
      we_app = a, we_vapid = k, we_instance = h\<rparr> body) sent
      = (sent @ [relay_notification \<lparr>we_platform = p, we_device = ''dead'',
      we_app = a, we_vapid = k, we_instance = h\<rparr> body], Some (TokenInvalid ''gone''))"
    for p a k h body sent
    by (simp add: demo_env_def new_relay_env_def recording_sender_def relay_notification_def)
  show ?thesis
    using demo_lookup(1) by (simp add: demo_run v w send split: prod.split option.split)
qed

lemma demo_body: "body_accepted (demo_push auth) body \<longleftrightarrow> body = ''secret''"
  by (auto simp: body_accepted_def demo_push_def req_header_def max_ciphertext_bytes_def)

lemma demo_open_endpoint:
  "endpoint_of demo_sha (rel_store demo_state) ''open'' = Some (er_endpoint (demo_rows ! 1))"
  by (simp add: endpoint_of_def table_map_def demo_state_def new_relay_state_def demo_rows_def)

theorem push_never_cancels_live_witness:
  "dead_device demo_env (er_endpoint (demo_rows ! 1)) ''secret'' (rel_world demo_state)"
proof -
  have "destroys (res_status (snd (handle_push demo_env 0 ''open'' (demo_push []) demo_state)))"
    by (simp add: demo_dead_push destroys_def)
  from push_never_cancels_live [OF demo_store_wf demo_env_store prod.collapse [symmetric] this]
  show ?thesis unfolding demo_open_endpoint demo_body by blast
qed

lemma demo_pinned_endpoint:
  "endpoint_of demo_sha (rel_store demo_state) ''pinned'' = Some (er_endpoint (demo_rows ! 0))"
  by (simp add: endpoint_of_def table_map_def demo_state_def new_relay_state_def demo_rows_def)

lemma demo_pinned_key: "we_vapid (er_endpoint (demo_rows ! 0)) = b64_encode std_encoding demo_point"
  by (simp add: demo_rows_def)

lemma demo_key_neq_Nil: "b64_encode std_encoding demo_point \<noteq> []"
  using plain_b64 [OF demo_encodings(2), of demo_point]
  by (simp add: demo_point_def plain_value_def)

theorem forged_push_harmless_witness:
  "rel_world (fst (handle_push demo_env 0 ''pinned'' (demo_push ''Bearer x'') demo_state)) = []"
proof -
  have "\<not> equal_fold ''Beare'' ''vapid''" by code_simp
  moreover have "trim_space ''Bearer x'' = ''Bearer x''"
    using trim_space_keep [of "''Bearer''" "''x''" "'' ''"]
    by (simp add: space_bytes_def space_encodings_def)
  ultimately have "verify (env_jwt demo_env 0) (req_header (demo_push ''Bearer x'') ''Authorization'')
      (we_vapid (er_endpoint (demo_rows ! 0))) \<noteq> None"
    by (simp add: verify_def parse_header_def demo_push_def req_header_def)
  from forged_push_harmless [OF demo_store_wf demo_env_store prod.collapse [symmetric]
      demo_pinned_endpoint _ this]
  show ?thesis
    by (simp add: demo_pinned_key demo_key_neq_Nil demo_state_def new_relay_state_def)
qed

theorem push_delivery_witness:
  "\<exists>e n. endpoint_of demo_sha (rel_store demo_state) ''open'' = Some e \<and>
     n = relay_notification e ''secret'' \<and>
     rel_world (fst (handle_push demo_env 0 ''open'' (demo_push []) demo_state)) =
       fst (env_sender demo_env n [])"
proof -
  have "rel_world demo_state = []" by (simp add: demo_state_def new_relay_state_def)
  then show ?thesis
    using push_delivery [OF demo_store_wf demo_env_store prod.collapse [symmetric],
        of 0 "''open''" "demo_push []"] demo_dead_push
    by (auto simp: demo_push_def)
qed

theorem endpoint_flood_bounded_witness:
  "length (rel_world (push_all demo_env ''open'' [(0, demo_push []), (1, demo_push [])] demo_state))
     \<le> 119"
  using endpoint_flood_bounded [of demo_env _ demo_state "[(0, demo_push []), (1, demo_push [])]" 0
      "''open''"]
  by (simp add: demo_env_def new_relay_env_def demo_state_def new_relay_state_def rate_window_def)

theorem relay_keeps_endpoints_wf_witness:
  "endpoints_wf (rel_store (relay_run demo_env
     [(0, demo_push []), (1, (demo_push [])\<lparr>req_path := ''/relay/open''\<rparr>)] demo_state))"
  by (rule relay_keeps_endpoints_wf [OF demo_store_wf demo_env_store])

theorem probe_answer_cancels_witness:
  "destroys (res_status (snd (relay_serve demo_env 0
     \<lparr>req_method = ''GET'', req_path = ''/relay/open'', req_headers = Map.empty, req_remote = [],
      req_body = Some []\<rparr> demo_state)))"
  using probe_answer_cancels [of "\<lparr>req_method = ''GET'', req_path = ''/relay/open'',
      req_headers = Map.empty, req_remote = [], req_body = Some []\<rparr>" "''open''" demo_env 0 demo_state]
  by simp

text \<open>A registration whose device token is padded and whose key is one blank.\<close>

definition demo_register_json :: json where
  "demo_register_json = JObj [(''deviceToken'', JStr '' tok''), (''platform'', JStr ''ios''),
     (''appId'', JStr ''app''), (''vapidPublicKey'', JStr '' '')]"

definition demo_post :: "json \<Rightarrow> request" where
  "demo_post j = \<lparr>req_method = ''POST'', req_path = ''/relay/register'', req_headers = Map.empty,
     req_remote = [], req_body = Some (json_text j)\<rparr>"

definition demo_register :: register_request where
  "demo_register = \<lparr>rr_device = '' tok'', rr_platform = ''ios'', rr_app = ''app'', rr_vapid = '' '',
     rr_instance = []\<rparr>"

lemma decode_demo:
  assumes "json_fits max_nesting j" and "length (json_text j) \<le> read_limit"
  shows "decode_body d zero (demo_post j) = decode_result d zero (Some j)"
  using decode_first_text [OF assms(1), of "[]" d zero] assms(2)
  by (simp add: decode_body_def demo_post_def)

lemma demo_register_text: "length (json_text demo_register_json) \<le> read_limit"
  by (simp add: demo_register_json_def read_limit_def quote_str_plain plain_json_def)

lemma demo_register_fits: "json_fits max_nesting demo_register_json"
  by (simp add: demo_register_json_def max_nesting_def plain_json_utf8 plain_json_def)

lemma demo_register_decode:
  "decode_body (dec_struct register_fields) empty_register (demo_post demo_register_json)
     = Some demo_register"
  unfolding decode_demo [OF demo_register_fits demo_register_text]
  by (simp add: demo_register_json_def decode_result_def dec_struct_def dec_member_def
      find_field_def register_fields_def dec_field_def dec_string_def empty_register_def
      demo_register_def)

lemma demo_new_hash:
  "hash_endpoint_id demo_sha (b64_encode raw_url_encoding demo_random)
     \<noteq> ''ZGVubg''"
  "hash_endpoint_id demo_sha (b64_encode raw_url_encoding demo_random)
     \<noteq> ''bmVwbw''"
  by code_simp+

lemma demo_random_length: "length demo_random = endpoint_id_bytes" "take endpoint_id_bytes demo_random = demo_random"
  by (simp_all add: demo_random_def endpoint_id_bytes_def)

lemma demo_trims:
  "trim_space '' tok'' = ''tok''" "trim_space ''ios'' = ''ios''" "trim_space ''app'' = ''app''"
  "trim_space '' '' = []" "to_lower ''ios'' = ''ios''"
  by code_simp+

lemma demo_registered:
  "res_status (snd (handle_register demo_env (demo_post demo_register_json) demo_state)) = 201"
  by (simp add: handle_register_def demo_register_decode demo_register_def demo_trims Let_def
      demo_env_store sqlite_relay_store_def create_webpush_endpoint_def new_endpoint_id_def
      demo_state_def new_relay_state_def demo_db_def db_call_def demo_rows_def same_device_def
      webpush_platforms_def demo_new_hash [symmetric] demo_random_length del: to_lower.simps)

theorem register_unregister_roundtrip_witness:
  "\<exists>i. endpoint_of demo_sha
      (rel_store (fst (handle_register demo_env (demo_post demo_register_json) demo_state))) i
    = Some \<lparr>we_platform = ''ios'', we_device = ''tok'', we_app = ''app'', we_vapid = [],
            we_instance = []\<rparr>"
  using register_unregister_roundtrip [OF demo_store_wf demo_env_store prod.collapse [symmetric]
      demo_registered]
  by (auto simp: demo_register_decode registered_endpoint_def demo_register_def demo_trims
      simp del: to_lower.simps)

theorem blank_key_logged_as_pinned_witness:
  "\<exists>p t h. last (rel_log (fst (handle_register demo_env (demo_post demo_register_json) demo_state)))
     = LogRegistered p t h True"
  by (rule blank_key_logged_as_pinned [OF demo_store_wf demo_env_store prod.collapse [symmetric]
        demo_registered demo_register_decode, THEN conjunct2])
     (simp_all add: demo_register_def demo_trims)

definition demo_unregister_json :: json where
  "demo_unregister_json = JObj [(''deviceToken'', JStr '' tok''), (''appId'', JStr ''app'')]"

lemma demo_unregister_decode:
  "decode_body (dec_struct unregister_fields) empty_unregister (demo_post demo_unregister_json)
     = Some \<lparr>ur_endpoint = [], ur_device = '' tok'', ur_app = ''app''\<rparr>"
proof -
  have fits: "json_fits max_nesting demo_unregister_json"
    by (simp add: demo_unregister_json_def max_nesting_def plain_json_utf8 plain_json_def)
  have short: "length (json_text demo_unregister_json) \<le> read_limit"
    by (simp add: demo_unregister_json_def read_limit_def quote_str_plain plain_json_def)
  show ?thesis
    unfolding decode_demo [OF fits short]
    by (simp add: demo_unregister_json_def decode_result_def dec_struct_def dec_member_def
        find_field_def unregister_fields_def dec_field_def dec_string_def empty_unregister_def)
qed

theorem unregister_device_misses_trimmed_witness:
  "\<exists>i. endpoint_of demo_sha (rel_store (fst (handle_unregister demo_env
      (demo_post demo_unregister_json)
      (fst (handle_register demo_env (demo_post demo_register_json) demo_state))))) i \<noteq> None"
proof -
  have "\<exists>i. endpoint_of demo_sha (rel_store (fst (handle_unregister demo_env
      (demo_post demo_unregister_json)
      (fst (handle_register demo_env (demo_post demo_register_json) demo_state))))) i
      = Some (registered_endpoint demo_register)"
    by (rule unregister_device_misses_trimmed [THEN conjunct1, OF demo_store_wf demo_env_store
          prod.collapse [symmetric] demo_registered demo_register_decode demo_unregister_decode
          _ _ _ _ prod.collapse [symmetric]])
       (simp_all add: demo_register_def demo_trims)
  then show ?thesis by blast
qed

end
