(* ===== verification/Push_Theorems.thy ===== *)
theory Push_Theorems
  imports Push_Senders Relay_Theorems
begin

text \<open>
  What the senders promise: where a notification goes, what a missing error and an invalid-token
  error mean, how old the APNs provider token can be, and how the relay behaves on top of them.
\<close>

subsection \<open>One request per notification\<close>

text \<open>A transport that keeps the requests it was given.\<close>

definition recording_client :: "(http_req \<Rightarrow> string + http_resp) \<Rightarrow> http_req list http_client" where
  "recording_client answer q sent = (sent @ [q], answer q)"

lemma add_log_fields [simp, handler_simps]:
  "ps_net (add_log l st) = ps_net st" "ps_apns_token (add_log l st) = ps_apns_token st"
  "ps_apns_exp (add_log l st) = ps_apns_exp st" "ps_ticks (add_log l st) = ps_ticks st"
  by (simp_all add: add_log_def)

lemma client_do_fields [simp, handler_simps]:
  "ps_apns_token (fst (client_do env q st)) = ps_apns_token st"
  "ps_apns_exp (fst (client_do env q st)) = ps_apns_exp st"
  "ps_ticks (fst (client_do env q st)) = ps_ticks st"
  by (simp_all add: client_do_def split: prod.splits)

lemma client_do_recorded:
  assumes "pe_client env = recording_client answer" and "client_do env q st = (st', Inr resp)"
  shows "ps_net st' = ps_net st @ [q] \<and> answer q = Inr resp"
  using assms by (auto simp: client_do_def recording_client_def split: sum.splits)

lemma get_token_net: "ps_net (fst (get_token env a st)) = ps_net st"
  by (auto simp: get_token_def read_clock_def Let_def split: sum.splits)

text \<open>The provider a request is for.\<close>

definition asked_expo :: "multi_sender \<Rightarrow> http_req \<Rightarrow> bool" where
  "asked_expo m q \<longleftrightarrow> hq_url q = ex_base_url (ms_expo m) @ ''/--/api/v2/push/send''"

definition asked_apns :: "multi_sender \<Rightarrow> notification \<Rightarrow> http_req \<Rightarrow> bool" where
  "asked_apns m n q \<longleftrightarrow> (\<exists>a. ms_apns m = Some a \<and> hq_url q = apns_device_url a (n_token n))"

definition asked_fcm :: "multi_sender \<Rightarrow> http_req \<Rightarrow> bool" where
  "asked_fcm m q \<longleftrightarrow> (\<exists>f. ms_fcm m = Some f \<and>
     hq_url q = fc_base_url f @ ''/v1/projects/'' @ fc_project_id f @ ''/messages:send'')"

definition provider_asked :: "multi_sender \<Rightarrow> notification \<Rightarrow> http_req \<Rightarrow> bool" where
  "provider_asked m n q \<longleftrightarrow>
     (if is_expo_token (n_token n) then asked_expo m q \<and> n_platform n \<in> {''ios'', ''android''}
      else if n_platform n = ''ios'' then asked_apns m n q
      else n_platform n = ''android'' \<and> asked_fcm m q)"

definition says_gone :: "notification \<Rightarrow> http_resp \<Rightarrow> bool" where
  "says_gone n resp \<longleftrightarrow> hp_status resp \<noteq> 200 \<and> \<not> is_expo_token (n_token n) \<and>
     (if n_platform n = ''ios'' then hp_status resp = 410 \<or>
        decode_lossy (dec_struct apns_reason_fields) [] (hp_body resp)
          \<in> {''Unregistered'', ''BadDeviceToken''}
      else fe_status (decode_lossy (dec_struct fcm_error_fields)
        \<lparr>fe_message = [], fe_status = []\<rparr> (hp_body resp)) \<in> {''UNREGISTERED'', ''NOT_FOUND''})"

definition unconfigured :: "multi_sender \<Rightarrow> notification \<Rightarrow> bool" where
  "unconfigured m n \<longleftrightarrow> \<not> is_expo_token (n_token n) \<and>
     (n_platform n = ''ios'' \<and> ms_apns m = None \<or> n_platform n = ''android'' \<and> ms_fcm m = None)"

lemma send_expo_verdict:
  assumes "pe_client env = recording_client answer" and "send_expo env e n st = (st', res)"
  shows "(\<exists>err. res = Some (SendFailed err)) \<or>
    (\<exists>q resp. res = None \<and> ps_net st' = ps_net st @ [q] \<and> answer q = Inr resp \<and>
       hp_status resp = 200 \<and> hq_url q = ex_base_url e @ ''/--/api/v2/push/send'')"
  using assms(2)
  by (auto simp: send_expo_def Let_def split: option.splits prod.splits sum.splits if_splits
      dest: client_do_recorded [OF assms(1)])

lemma send_apns_verdict:
  assumes "pe_client env = recording_client answer" and "send_apns env a n st = (st', res)"
  shows "(\<exists>err. res = Some (SendFailed err)) \<or>
    (\<exists>q resp. ps_net st' = ps_net st @ [q] \<and> answer q = Inr resp \<and> res = apns_result resp \<and>
       hq_url q = apns_device_url a (n_token n))"
proof -
  have url: "hq_url (apns_request a t n) = apns_device_url a (n_token n)" for t
    by (simp add: apns_request_def)
  obtain st1 tok where tok: "get_token env a st = (st1, tok)" by fastforce
  have net: "ps_net st1 = ps_net st" using get_token_net [of env a st] tok by simp
  show ?thesis
    using assms(2) tok net url
    by (auto simp: send_apns_def Let_def split: option.splits prod.splits
        sum.splits dest: client_do_recorded [OF assms(1)])
qed

lemma send_fcm_verdict:
  assumes "pe_client env = recording_client answer" and "\<And>w. fst (pe_oauth env w) = w"
    and "send_fcm env f n st = (st', res)"
  shows "(\<exists>err. res = Some (SendFailed err)) \<or>
    (\<exists>q resp. ps_net st' = ps_net st @ [q] \<and> answer q = Inr resp \<and> res = fcm_result resp \<and>
       hq_url q = fc_base_url f @ ''/v1/projects/'' @ fc_project_id f @ ''/messages:send'')"
proof -
  obtain tok where tok: "pe_oauth env (ps_net st) = (ps_net st, tok)"
    using assms(2) [of "ps_net st"] by (metis prod.collapse)
  show ?thesis
    using assms(3) tok
    by (auto simp: send_fcm_def Let_def split: option.splits prod.splits sum.splits
        dest: client_do_recorded [OF assms(1)])
qed

lemma apns_result_verdict:
  "apns_result resp = None \<longleftrightarrow> hp_status resp = 200"
  "apns_result resp = Some (TokenInvalid msg) \<Longrightarrow> hp_status resp \<noteq> 200 \<and> (hp_status resp = 410 \<or>
     decode_lossy (dec_struct apns_reason_fields) [] (hp_body resp)
       \<in> {''Unregistered'', ''BadDeviceToken''})"
  by (auto simp: apns_result_def Let_def split: if_splits)

lemma fcm_result_verdict:
  "fcm_result resp = None \<longleftrightarrow> hp_status resp = 200"
  "fcm_result resp = Some (TokenInvalid msg) \<Longrightarrow> hp_status resp \<noteq> 200 \<and>
     fe_status (decode_lossy (dec_struct fcm_error_fields)
        \<lparr>fe_message = [], fe_status = []\<rparr> (hp_body resp)) \<in> {''UNREGISTERED'', ''NOT_FOUND''}"
  by (auto simp: fcm_result_def Let_def split: if_splits)

text \<open>
  MultiSender returns no error only when exactly one request went out, to the provider the token
  and the platform call for, and was answered 200, or when the provider of a native token is not
  configured (then nothing is sent). It returns the invalid-token error only when APNs or FCM
  answered a request for this token with the status or reason that says so, and never for Expo.\<close>

theorem multi_send_verdicts:
  assumes "pe_client env = recording_client answer" and "\<And>w. fst (pe_oauth env w) = w"
    and "multi_send env m n st = (st', res)"
  shows "(res = None \<longrightarrow> unconfigured m n \<and> ps_net st' = ps_net st \<or>
      (\<exists>q resp. ps_net st' = ps_net st @ [q] \<and> provider_asked m n q \<and> answer q = Inr resp \<and>
        hp_status resp = 200)) \<and>
    (\<forall>msg. res = Some (TokenInvalid msg) \<longrightarrow>
      (\<exists>q resp. ps_net st' = ps_net st @ [q] \<and> provider_asked m n q \<and> answer q = Inr resp \<and>
        says_gone n resp))"
proof -
  consider (expo) "is_expo_token (n_token n)" "n_platform n \<in> {''ios'', ''android''}"
    | (ios) "\<not> is_expo_token (n_token n)" "n_platform n = ''ios''"
    | (android) "\<not> is_expo_token (n_token n)" "n_platform n = ''android''"
    | (other) "n_platform n \<notin> {''ios'', ''android''}" by auto
  then show ?thesis
  proof cases
    case expo
    then obtain l where "send_expo env (ms_expo m) n (add_log l st) = (st', res)"
      using assms(3) by (auto simp: multi_send_def)
    from send_expo_verdict [OF assms(1) this] expo show ?thesis
      by (auto simp: provider_asked_def asked_expo_def)
  next
    case ios
    show ?thesis
    proof (cases "ms_apns m")
      case None
      with ios assms(3) show ?thesis by (auto simp: multi_send_def unconfigured_def)
    next
      case (Some a)
      with ios assms(3) have "send_apns env a n (add_log (LogRouting ''iOS'' ''APNs'') st) = (st', res)"
        by (simp add: multi_send_def)
      from send_apns_verdict [OF assms(1) this] ios Some show ?thesis
        by (auto simp: provider_asked_def asked_apns_def says_gone_def apns_result_verdict(1)
            dest: apns_result_verdict(2))
    qed
  next
    case android
    show ?thesis
    proof (cases "ms_fcm m")
      case None
      with android assms(3) show ?thesis by (auto simp: multi_send_def unconfigured_def)
    next
      case (Some f)
      with android assms(3) have "send_fcm env f n (add_log (LogRouting ''Android'' ''FCM'') st) = (st', res)"
        by (simp add: multi_send_def)
      from send_fcm_verdict [OF assms(1,2) this] android Some show ?thesis
        by (auto simp: provider_asked_def asked_fcm_def says_gone_def fcm_result_verdict(1)
            dest: fcm_result_verdict(2))
    qed
  next
    case other
    with assms(3) show ?thesis by (auto simp: multi_send_def split: if_splits)
  qed
qed

subsection \<open>The APNs provider token\<close>

definition apns_signed_at :: "'w push_env \<Rightarrow> apns_sender \<Rightarrow> nat \<Rightarrow> string \<Rightarrow> bool" where
  "apns_signed_at env a k t \<longleftrightarrow>
     pe_sign env (ap_key a) (ap_key_id a) (ap_team_id a) (pe_clock env k div second) = Inr t"

definition apns_cached :: "'w push_env \<Rightarrow> apns_sender \<Rightarrow> 'w push_state \<Rightarrow> bool" where
  "apns_cached env a st \<longleftrightarrow> ps_apns_token st = [] \<or>
     (\<exists>k < ps_ticks st. ps_apns_exp st = pe_clock env k + 60 * minute \<and>
        apns_signed_at env a k (ps_apns_token st))"

definition same_cache :: "'w push_state \<Rightarrow> 'w push_state \<Rightarrow> bool" where
  "same_cache st st' \<longleftrightarrow> ps_apns_token st' = ps_apns_token st \<and>
     ps_apns_exp st' = ps_apns_exp st \<and> ps_ticks st' = ps_ticks st"

lemma apns_cached_cong: "same_cache st st' \<Longrightarrow> apns_cached env a st' = apns_cached env a st"
  by (simp add: same_cache_def apns_cached_def)

lemma same_cache_client: "client_do env q st = (st', res) \<Longrightarrow> same_cache st st'"
  using client_do_fields [of env q st] by (simp add: same_cache_def)

lemma same_cache_simps [simp]:
  "same_cache st st" "same_cache st (add_log l st') = same_cache st st'"
  "same_cache (add_log l st) st' = same_cache st st'"
  "same_cache (st\<lparr>ps_net := w\<rparr>) st' = same_cache st st'"
  "same_cache st (st'\<lparr>ps_net := w\<rparr>) = same_cache st st'"
  by (auto simp: same_cache_def)

lemma same_cache_senders:
  "send_expo env e n st = (st', res) \<Longrightarrow> same_cache st st'"
  "send_fcm env f n st = (st', res) \<Longrightarrow> same_cache st st'"
  by (auto simp: send_expo_def send_fcm_def Let_def split: option.splits prod.splits sum.splits
      if_splits dest: same_cache_client)

lemma same_cache_apns:
  "send_apns env a n st = (st', res) \<Longrightarrow> same_cache (fst (get_token env a st)) st'"
  by (auto simp: send_apns_def Let_def split: option.splits prod.splits sum.splits
      if_splits dest: same_cache_client)

lemma get_token_fresh:
  assumes "apns_cached env a st" and "get_token env a st = (st', Inr t)"
  shows "\<exists>k < ps_ticks st'. apns_signed_at env a k t \<and>
    pe_clock env (ps_ticks st' - 1) - pe_clock env k < 55 * minute"
proof -
  have m: "0 < minute" by (simp add: minute_def)
  consider (reused) "ps_apns_token st \<noteq> []" "pe_clock env (ps_ticks st) < ps_apns_exp st - 5 * minute"
      "ps_ticks st' = Suc (ps_ticks st)" "t = ps_apns_token st"
    | (signed) k where "ps_ticks st' = Suc k" "apns_signed_at env a k t"
    using assms(2)
    by (auto simp: get_token_def read_clock_def Let_def apns_signed_at_def
        split: if_splits sum.splits)
  then show ?thesis
  proof cases
    case reused
    with assms(1) obtain k where k: "k < ps_ticks st" "ps_apns_exp st = pe_clock env k + 60 * minute"
      "apns_signed_at env a k t" by (auto simp: apns_cached_def)
    then show ?thesis using reused by (intro exI [of _ k]) auto
  qed (use m in auto)
qed

lemma get_token_cached:
  assumes "apns_cached env a st"
  shows "apns_cached env a (fst (get_token env a st))"
  using assms
  by (auto simp: get_token_def read_clock_def Let_def apns_signed_at_def apns_cached_def
      less_Suc_eq split: if_splits sum.splits)

lemma multi_send_cached:
  assumes "apns_cached env a st" and "ms_apns m = Some a"
  shows "apns_cached env a (fst (multi_send env m n st))"
proof -
  obtain st' res where run: "multi_send env m n st = (st', res)" by fastforce
  then consider "same_cache st st'" | l where "same_cache (fst (get_token env a (add_log l st))) st'"
    using assms(2)
    by (auto simp: multi_send_def split: if_splits option.splits
        dest: same_cache_senders same_cache_apns)
  then show ?thesis
  proof cases
    case 1
    show ?thesis by (simp add: run apns_cached_cong [OF 1] assms(1))
  next
    case (2 l)
    have "apns_cached env a (add_log l st)"
      using assms(1) by (simp add: apns_cached_cong [of st "add_log l st"])
    from get_token_cached [OF this] show ?thesis by (simp add: run apns_cached_cong [OF 2])
  qed
qed

fun send_all ::
  "'w push_env \<Rightarrow> multi_sender \<Rightarrow> notification list \<Rightarrow> 'w push_state \<Rightarrow> 'w push_state" where
  "send_all env m [] st = st"
| "send_all env m (n # ns) st = send_all env m ns (fst (multi_send env m n st))"

lemma send_all_cached:
  "apns_cached env a st \<Longrightarrow> ms_apns m = Some a \<Longrightarrow> apns_cached env a (send_all env m ns st)"
  by (induction ns arbitrary: st) (auto intro: multi_send_cached)

text \<open>
  C36: After any sequence of notifications from a start with an empty cache, the provider token an
  APNs request is signed with was signed with the sender's key less than 55 minutes before the
  last reading of the clock, so it is never the expired one, whatever the clock did.\<close>

theorem apns_token_fresh:
  assumes "ps_apns_token st = []" and "ms_apns m = Some a"
    and "get_token env a (send_all env m ns st) = (st', Inr t)"
  shows "\<exists>k < ps_ticks st'.
    pe_sign env (ap_key a) (ap_key_id a) (ap_team_id a) (pe_clock env k div second) = Inr t \<and>
    pe_clock env (ps_ticks st' - 1) - pe_clock env k < 55 * minute"
proof -
  have "apns_cached env a (send_all env m ns st)"
    using assms(1,2) by (intro send_all_cached) (auto simp: apns_cached_def)
  from get_token_fresh [OF this assms(3)] show ?thesis by (simp add: apns_signed_at_def)
qed

subsection \<open>What failures reveal\<close>

definition plain_url :: "string \<Rightarrow> bool" where
  "plain_url s \<longleftrightarrow> (\<forall>c \<in> set s. 0x20 < byte c \<and> byte c < 0x7F \<and>
     byte c \<noteq> 0x22 \<and> byte c \<noteq> 0x5C \<and> byte c \<noteq> 0x25 \<and> byte c \<noteq> 0x23)"

lemma plain_url_append [simp]: "plain_url (s @ t) \<longleftrightarrow> plain_url s \<and> plain_url t"
  by (auto simp: plain_url_def)

lemma plain_url_quote: "plain_url s \<Longrightarrow> go_quote printable s = [CHR 0x22] @ s @ [CHR 0x22]"
  unfolding plain_url_def by (rule go_quote_plain) (meson less_imp_le)

lemma first_bad_escape_None: "CHR ''%'' \<notin> set s \<Longrightarrow> first_bad_escape s = None"
  by (induction s) auto

lemma cut_at_notin: "c \<notin> set s \<Longrightarrow> cut_at c s = (s, [], False)"
  unfolding cut_at_def by (auto simp: takeWhile_eq_all_conv split: list.split)

lemma set_cut_at: "set (fst (cut_at c s)) \<subseteq> set s"
  unfolding cut_at_def by (auto dest: set_takeWhileD split: list.split)

lemma plain_url_parses:
  assumes "plain_url u"
  shows "url_parse_error printable u = None"
proof -
  have bytes: "\<And>c. c \<in> set u \<Longrightarrow> 0x20 < byte c \<and> byte c < 0x7F \<and> byte c \<noteq> 0x25 \<and> byte c \<noteq> 0x23"
    using assms by (auto simp: plain_url_def)
  have hash: "CHR ''#'' \<notin> set u" and pct: "CHR ''%'' \<notin> set u" using bytes by force+
  obtain p q b where cut: "cut_at (CHR ''?'') u = (p, q, b)" by (cases "cut_at (CHR ''?'') u")
  have "CHR ''%'' \<notin> set p" using set_cut_at [of "CHR ''?''" u] pct cut by auto
  moreover have "\<not> (\<exists>c \<in> set u. byte c < 0x20 \<or> byte c = 0x7F)" using bytes by fastforce
  ultimately show ?thesis
    by (simp add: url_parse_error_def cut_at_notin [OF hash] cut first_bad_escape_None)
qed

text \<open>
  When the connection to APNs fails, the error of the sender repeats the whole device token of
  the notification, also with debug logging off, where the log is to show "[redacted]"
  in its place: the token is part of the URL, and the error of the client quotes the URL.\<close>

theorem apns_error_leaks_token:
  assumes "plain_url (ap_base_url a)" and "plain_url (n_token n)"
    and "get_token env a st = (st1, Inr t)"
    and "snd (pe_client env (apns_request a t n) (ps_net st1)) = Inl cause"
    and "\<not> pe_debug env"
  shows "(\<exists>before after. snd (send_apns env a n st) =
      Some (SendFailed (before @ n_token n @ after))) \<and>
    token_for_log (pe_debug env) (n_token n) = ''[redacted]''"
proof -
  have plain: "plain_url (apns_device_url a (n_token n))"
    using assms(1,2) by (simp add: apns_device_url_def) (simp add: plain_url_def)
  obtain w where w: "pe_client env (apns_request a t n) (ps_net st1) = (w, Inl cause)"
    using assms(4) by (metis prod.collapse)
  have run: "snd (send_apns env a n st) = Some (SendFailed (''APNs request failed: '' @
      url_error_text (pe_printable env) (hq_method (apns_request a t n))
        (apns_device_url a (n_token n)) cause))"
    using assms(3) w
    by (simp add: send_apns_def plain_url_parses [OF plain] client_do_def apns_request_def)
  have shape: "url_error_text (pe_printable env) q (apns_device_url a (n_token n)) cause =
      (canonical_chars True q @ '' '' @ [CHR 0x22] @ ap_base_url a @ ''/3/device/'') @ n_token n
        @ ([CHR 0x22] @ '': '' @ cause)" for q
    using plain_url_quote [OF plain] by (simp add: url_error_text_def apns_device_url_def)
  obtain b c where "url_error_text (pe_printable env) (hq_method (apns_request a t n))
      (apns_device_url a (n_token n)) cause = b @ n_token n @ c"
    unfolding shape by blast
  with run have leak: "snd (send_apns env a n st) =
      Some (SendFailed ((''APNs request failed: '' @ b) @ n_token n @ c))" by simp
  show ?thesis
    by (intro conjI exI, rule leak) (simp add: token_for_log_def assms(5))
qed

subsection \<open>The relay over the senders\<close>

text \<open>
  On a gateway without APNs configured, a push for an iOS endpoint with a native device token
  sends nothing to anybody; if the push is accepted up to the sender at all, the instance
  is nevertheless answered 201, which tells it that the notification was delivered.\<close>

theorem skipped_push_acknowledged:
  assumes "endpoints_wf (rel_store st)" and "env_store env = sqlite_relay_store sha"
    and "env_sender env = multi_send penv m" and "ms_apns m = None"
    and "endpoint_of sha (rel_store st) i = Some e" and "we_platform e = ''ios''"
    and "\<not> is_expo_token (we_device e)"
    and "handle_push env now i r st = (st', res)"
  shows "ps_net (rel_world st') = ps_net (rel_world st) \<and>
    (rel_world st' \<noteq> rel_world st \<longrightarrow> res_status res = 201)"
proof (cases "rel_world st' = rel_world st")
  case False
  from sqlite.push_sends [OF assms(2,1,8) False] assms(5) obtain body where
    "rel_world st' = fst (env_sender env (relay_notification e body) (rel_world st))"
    "res_status res = push_status (snd (env_sender env (relay_notification e body) (rel_world st)))"
    by auto
  moreover have "multi_send penv m (relay_notification e body) w = (add_log (LogSkipped ''iOS'') w, None)" for w
    using assms(4,6,7) by (simp add: multi_send_def relay_notification_def)
  ultimately show ?thesis by (simp add: assms(3) push_status_def)
qed simp

subsection \<open>The properties on concrete senders\<close>

definition demo_push_env ::
  "(http_req \<Rightarrow> string + http_resp) \<Rightarrow> http_req list push_env" where
  "demo_push_env answer =
     \<lparr>pe_client = recording_client answer, pe_clock = (\<lambda>k. int k * minute), pe_debug = False,
      pe_printable = (\<lambda>_. True), pe_sign = (\<lambda>_ _ _ _. Inr ''jwt''),
      pe_oauth = (\<lambda>w. (w, Inr ''access''))\<rparr>"

definition demo_apns :: apns_sender where
  "demo_apns = \<lparr>ap_key_id = ''kid'', ap_team_id = ''team'', ap_key = ''key'', ap_topic = ''app'',
     ap_sandbox = False, ap_base_url = ''https://api.push.apple.com''\<rparr>"

definition demo_multi :: multi_sender where
  "demo_multi = (new_multi_sender [])\<lparr>ms_apns := Some demo_apns\<rparr>"

definition demo_note :: notification where
  "demo_note = \<lparr>n_token = ''abc123'', n_platform = ''ios'', n_title = ''t'', n_body = ''b'', n_data = []\<rparr>"

definition demo_push_state :: "http_req list push_state" where
  "demo_push_state = \<lparr>ps_net = [], ps_apns_token = [], ps_apns_exp = 0, ps_ticks = 0, ps_log = []\<rparr>"

lemma demo_multi_plain: "plain_url (ap_base_url demo_apns)" "plain_url (n_token demo_note)"
  by (simp_all add: demo_apns_def demo_note_def plain_url_def)

lemma demo_url: "url_parse_error (pe_printable (demo_push_env answer))
    (apns_device_url demo_apns (n_token demo_note)) = None"
  using demo_multi_plain
  by (intro plain_url_parses) (simp add: apns_device_url_def, simp add: plain_url_def)

lemma demo_multi_send:
  assumes "answer (apns_request demo_apns ''jwt'' demo_note) = Inr \<lparr>hp_status = 410, hp_body = []\<rparr>"
  shows "\<exists>msg. snd (multi_send (demo_push_env answer) demo_multi demo_note demo_push_state) =
    Some (TokenInvalid msg)"
proof -
  obtain st1 where "get_token (demo_push_env answer) demo_apns
      (add_log (LogRouting ''iOS'' ''APNs'') demo_push_state) = (st1, Inr ''jwt'')"
    by (simp add: get_token_def read_clock_def demo_push_env_def demo_push_state_def add_log_def)
  moreover have "\<not> is_expo_token (n_token demo_note)" "n_platform demo_note = ''ios''"
    by (simp_all add: demo_note_def is_expo_token_def has_prefix_def)
  ultimately show ?thesis
    using assms demo_url [of answer]
    by (simp add: multi_send_def demo_multi_def new_multi_sender_def send_apns_def client_do_def
        apns_result_def Let_def demo_push_env_def recording_client_def)
qed

theorem multi_send_verdicts_witness:
  "\<exists>q. ps_net (fst (multi_send (demo_push_env (\<lambda>_. Inr \<lparr>hp_status = 410, hp_body = []\<rparr>)) demo_multi
     demo_note demo_push_state)) = [q] \<and> provider_asked demo_multi demo_note q"
proof -
  let ?env = "demo_push_env (\<lambda>_. Inr \<lparr>hp_status = 410, hp_body = []\<rparr>)"
  have "pe_client ?env = recording_client (\<lambda>_. Inr \<lparr>hp_status = 410, hp_body = []\<rparr>)"
    "\<And>w. fst (pe_oauth ?env w) = w" by (simp_all add: demo_push_env_def)
  from multi_send_verdicts [OF this prod.collapse [symmetric], of demo_multi demo_note demo_push_state]
    demo_multi_send [of "\<lambda>_. Inr \<lparr>hp_status = 410, hp_body = []\<rparr>"]
  show ?thesis by (auto simp: demo_push_state_def)
qed

theorem apns_token_fresh_witness:
  "\<exists>k < 1. pe_sign (demo_push_env (\<lambda>_. Inl ''EOF'')) (ap_key demo_apns) (ap_key_id demo_apns)
     (ap_team_id demo_apns) (pe_clock (demo_push_env (\<lambda>_. Inl ''EOF'')) k div second) = Inr ''jwt''"
  using apns_token_fresh [of demo_push_state demo_multi demo_apns "demo_push_env (\<lambda>_. Inl ''EOF'')" "[]"]
  by (simp add: demo_multi_def demo_push_state_def get_token_def read_clock_def demo_push_env_def)

theorem apns_error_leaks_token_witness:
  "\<exists>before after. snd (send_apns (demo_push_env (\<lambda>_. Inl ''EOF'')) demo_apns demo_note demo_push_state) =
     Some (SendFailed (before @ ''abc123'' @ after))"
proof -
  have tok: "get_token (demo_push_env (\<lambda>_. Inl ''EOF'')) demo_apns demo_push_state =
      (demo_push_state\<lparr>ps_ticks := 1, ps_apns_token := ''jwt'', ps_apns_exp := 60 * minute\<rparr>, Inr ''jwt'')"
    by (simp add: get_token_def read_clock_def demo_push_env_def demo_push_state_def)
  have "\<not> pe_debug (demo_push_env (\<lambda>_. Inl ''EOF''))"
    "snd (pe_client (demo_push_env (\<lambda>_. Inl ''EOF'')) q w) = Inl ''EOF''" for q w
    by (simp_all add: demo_push_env_def recording_client_def)
  from apns_error_leaks_token [OF demo_multi_plain tok this(2,1)]
  show ?thesis by (simp add: demo_note_def)
qed

definition demo_multi_env :: "(db, http_req list push_state) relay_env" where
  "demo_multi_env = new_relay_env (sqlite_relay_store demo_sha)
     (multi_send (demo_push_env (\<lambda>_. Inl ''EOF'')) (new_multi_sender []))
     ''https://push.example/'' (\<lambda>_. demo_jwt) (\<lambda>_. True)"

definition demo_multi_state :: "(db, http_req list push_state) relay_state" where
  "demo_multi_state = new_relay_state (demo_db\<lparr>endpoint_rows :=
     [(demo_rows ! 1)\<lparr>er_endpoint := (er_endpoint (demo_rows ! 1))\<lparr>we_platform := ''ios''\<rparr>\<rparr>]\<rparr>)
     demo_push_state"

lemma demo_multi_lookup:
  "rs_get (env_store demo_multi_env) ''open'' (rel_store demo_multi_state) =
     ((rel_store demo_multi_state)\<lparr>db_calls := 1\<rparr>,
      Inr ((er_endpoint (demo_rows ! 1))\<lparr>we_platform := ''ios''\<rparr>))"
  by (simp add: demo_multi_env_def new_relay_env_def sqlite_relay_store_def get_webpush_endpoint_def
      db_call_def demo_multi_state_def new_relay_state_def demo_db_def demo_rows_def)

lemma demo_multi_sender:
  "env_sender demo_multi_env (relay_notification
     \<lparr>we_platform = ''ios'', we_device = ''dead'', we_app = a, we_vapid = k, we_instance = h\<rparr> body) w =
   (add_log (LogSkipped ''iOS'') w, None)"
  by (simp add: demo_multi_env_def new_relay_env_def multi_send_def relay_notification_def
      new_multi_sender_def is_expo_token_def has_prefix_def)

lemma demo_multi_reached:
  "rel_world (fst (handle_push demo_multi_env 0 ''open'' (demo_push []) demo_multi_state)) \<noteq>
   rel_world demo_multi_state"
proof -
  have v: "verify jwt [] pinned = Some VapidMissing" for jwt pinned
    by (simp add: verify_def parse_header_def)
  have w: "rel_windows demo_multi_state = []" by (simp add: demo_multi_state_def new_relay_state_def)
  have l: "add_log x (rel_world demo_multi_state) \<noteq> rel_world demo_multi_state" for x
    by (simp add: demo_multi_state_def new_relay_state_def demo_push_state_def add_log_def)
  show ?thesis
    using demo_multi_lookup by (simp add: demo_run v w l demo_multi_sender split: prod.split option.split)
qed

theorem skipped_push_acknowledged_witness:
  "ps_net (rel_world (fst (handle_push demo_multi_env 0 ''open'' (demo_push []) demo_multi_state))) = [] \<and>
   res_status (snd (handle_push demo_multi_env 0 ''open'' (demo_push []) demo_multi_state)) = 201"
proof -
  let ?e = "(er_endpoint (demo_rows ! 1))\<lparr>we_platform := ''ios''\<rparr>"
  have wf: "endpoints_wf (rel_store demo_multi_state)"
    by (simp add: demo_multi_state_def new_relay_state_def endpoints_wf_def demo_rows_def
        webpush_platforms_def)
  have found: "endpoint_of demo_sha (rel_store demo_multi_state) ''open'' = Some ?e"
    by (simp add: endpoint_of_def table_map_def demo_multi_state_def new_relay_state_def demo_rows_def)
  have env: "env_store demo_multi_env = sqlite_relay_store demo_sha"
    "env_sender demo_multi_env = multi_send (demo_push_env (\<lambda>_. Inl ''EOF'')) (new_multi_sender [])"
    "ms_apns (new_multi_sender []) = None"
    by (simp_all add: demo_multi_env_def new_relay_env_def new_multi_sender_def)
  have "we_platform ?e = ''ios''" "\<not> is_expo_token (we_device ?e)"
    by (simp_all add: demo_rows_def is_expo_token_def has_prefix_def)
  from skipped_push_acknowledged [OF wf env(1-3) found this prod.collapse [symmetric], of 0 "demo_push []"]
    demo_multi_reached
  show ?thesis by (simp add: demo_multi_state_def new_relay_state_def demo_push_state_def)
qed

end
