(* ===== verification/Net_Addr.thy ===== *)
theory Net_Addr
  imports Go_Strings Go_Utf8 "HOL-Library.Word"
begin

text \<open>
  The addresses of package \<open>net\<close> the program inspects: an address is its 4 or 16 bytes. The
  predicates are those of \<open>net.IP\<close>, the parsers \<open>net.SplitHostPort\<close> and \<open>net.ParseIP\<close>.
\<close>

unbundle bit_operations_syntax

type_synonym ip = "8 word list"

subsection \<open>The predicates of \<open>net.IP\<close>\<close>

definition v4_in_v6 :: ip where
  "v4_in_v6 = replicate 10 0 @ [0xFF, 0xFF]"

definition to4 :: "ip \<Rightarrow> ip option" where
  "to4 ip =
     (if length ip = 4 then Some ip
      else if length ip = 16 \<and> take 12 ip = v4_in_v6 then Some (drop 12 ip)
      else None)"

definition ip_equal :: "ip \<Rightarrow> ip \<Rightarrow> bool" where
  "ip_equal a b \<longleftrightarrow>
     (if length a = length b then a = b
      else if length a = 4 \<and> length b = 16 then b = v4_in_v6 @ a
      else if length a = 16 \<and> length b = 4 then a = v4_in_v6 @ b
      else False)"

definition ipv6_loopback :: ip where
  "ipv6_loopback = replicate 15 0 @ [1]"

definition ipv6_unspecified :: ip where
  "ipv6_unspecified = replicate 16 0"

definition is_loopback :: "ip \<Rightarrow> bool" where
  "is_loopback ip \<longleftrightarrow>
     (case to4 ip of Some v \<Rightarrow> v ! 0 = 127 | None \<Rightarrow> ip_equal ip ipv6_loopback)"

definition is_link_local_unicast :: "ip \<Rightarrow> bool" where
  "is_link_local_unicast ip \<longleftrightarrow>
     (case to4 ip of
        Some v \<Rightarrow> v ! 0 = 169 \<and> v ! 1 = 254
      | None \<Rightarrow> length ip = 16 \<and> ip ! 0 = 0xFE \<and> ip ! 1 AND 0xC0 = 0x80)"

definition is_link_local_multicast :: "ip \<Rightarrow> bool" where
  "is_link_local_multicast ip \<longleftrightarrow>
     (case to4 ip of
        Some v \<Rightarrow> v ! 0 = 224 \<and> v ! 1 = 0 \<and> v ! 2 = 0
      | None \<Rightarrow> length ip = 16 \<and> ip ! 0 = 0xFF \<and> ip ! 1 AND 0x0F = 0x02)"

definition is_multicast :: "ip \<Rightarrow> bool" where
  "is_multicast ip \<longleftrightarrow>
     (case to4 ip of
        Some v \<Rightarrow> v ! 0 AND 0xF0 = 0xE0
      | None \<Rightarrow> length ip = 16 \<and> ip ! 0 = 0xFF)"

definition is_unspecified :: "ip \<Rightarrow> bool" where
  "is_unspecified ip \<longleftrightarrow> ip_equal ip (v4_in_v6 @ [0, 0, 0, 0]) \<or> ip_equal ip ipv6_unspecified"

definition is_private :: "ip \<Rightarrow> bool" where
  "is_private ip \<longleftrightarrow>
     (case to4 ip of
        Some v \<Rightarrow> v ! 0 = 10 \<or> v ! 0 = 172 \<and> v ! 1 AND 0xF0 = 16 \<or> v ! 0 = 192 \<and> v ! 1 = 168
      | None \<Rightarrow> length ip = 16 \<and> ip ! 0 AND 0xFE = 0xFC)"

subsection \<open>Parsing\<close>

definition split_host_port :: "string \<Rightarrow> (string \<times> string) option" where
  "split_host_port s =
     (case last_index (CHR '':'') s of
        None \<Rightarrow> None
      | Some i \<Rightarrow>
          if s ! 0 = CHR ''['' then
            (let (front, after, found) = cut_at (CHR '']'') s; close = length front in
             if \<not> found \<or> close + 1 \<noteq> i then None
             else if CHR ''['' \<in> set (drop 1 s) \<or> CHR '']'' \<in> set after then None
             else Some (drop 1 front, drop (i + 1) s))
          else if CHR '':'' \<in> set (take i s) then None
          else if CHR ''['' \<in> set s \<or> CHR '']'' \<in> set s then None
          else Some (take i s, drop (i + 1) s))"

definition digit_char :: "char \<Rightarrow> bool" where
  "digit_char c \<longleftrightarrow> 48 \<le> byte c \<and> byte c \<le> 57"

definition dec_octet :: "string \<Rightarrow> 8 word option" where
  "dec_octet s =
     (let n = foldl (\<lambda>n c. n * 10 + (byte c - 48)) 0 s in
      if s = [] \<or> \<not> list_all digit_char s \<or> (s ! 0 = CHR ''0'' \<and> length s \<noteq> 1) \<or> 255 < n then None
      else Some (of_nat n))"

definition parse_ipv4 :: "string \<Rightarrow> ip option" where
  "parse_ipv4 s =
     (let octets = map dec_octet (split_on (CHR ''.'') s) in
      if length octets = 4 \<and> None \<notin> set octets then Some (map the octets) else None)"

definition hex_nibble :: "char \<Rightarrow> nat option" where
  "hex_nibble c =
     (if 48 \<le> byte c \<and> byte c \<le> 57 then Some (byte c - 48)
      else if 65 \<le> byte c \<and> byte c \<le> 70 then Some (byte c - 55)
      else if 97 \<le> byte c \<and> byte c \<le> 102 then Some (byte c - 87)
      else None)"

text \<open>
  The loop over the groups of an IPv6 address. \<open>out\<close> holds the bytes so far, \<open>ell\<close> the place
  of the ellipsis; the fuel is the eight groups an address can have.
\<close>

fun parse_groups :: "nat \<Rightarrow> string \<Rightarrow> ip \<Rightarrow> nat option \<Rightarrow> (ip \<times> nat option) option" where
  "parse_groups 0 s out ell = (if s = [] then Some (out, ell) else None)"
| "parse_groups (Suc n) s out ell =
     (let digits = takeWhile (\<lambda>c. hex_nibble c \<noteq> None) s; rest = drop (length digits) s;
          acc = foldl (\<lambda>n c. n * 16 + the (hex_nibble c)) 0 digits in
      if digits = [] \<or> 4 < length digits then None
      else if rest \<noteq> [] \<and> rest ! 0 = CHR ''.'' then
        (if (ell = None \<and> length out \<noteq> 12) \<or> 16 < length out + 4 then None
         else map_option (\<lambda>v. (out @ v, ell)) (parse_ipv4 s))
      else let out' = out @ [of_nat (acc div 256), of_nat (acc mod 256)] in
        (case rest of
           [] \<Rightarrow> Some (out', ell)
         | c # t \<Rightarrow>
             if c \<noteq> CHR '':'' \<or> t = [] then None
             else if t ! 0 = CHR '':'' then
               (if ell \<noteq> None then None
                else if drop 1 t = [] then Some (out', Some (length out'))
                else parse_groups n (drop 1 t) out' (Some (length out')))
             else parse_groups n t out' ell))"

definition expand_ellipsis :: "ip \<times> nat option \<Rightarrow> ip option" where
  "expand_ellipsis r =
     (let (out, ell) = r in
      if length out < 16 then
        map_option (\<lambda>e. take e out @ replicate (16 - length out) 0 @ drop e out) ell
      else if ell \<noteq> None then None else Some out)"

definition parse_ipv6 :: "string \<Rightarrow> ip option" where
  "parse_ipv6 s =
     (if has_prefix s ''::'' then
        (if drop 2 s = [] then Some ipv6_unspecified
         else Option.bind (parse_groups 8 (drop 2 s) [] (Some 0)) expand_ellipsis)
      else Option.bind (parse_groups 8 s [] None) expand_ellipsis)"

text \<open>
  \<open>net.ParseIP\<close>: the first dot, colon or percent sign decides; an address with a zone is
  refused. An IPv4 address comes back in its 16-byte form.
\<close>

definition parse_ip :: "string \<Rightarrow> ip option" where
  "parse_ip s =
     (case dropWhile (\<lambda>c. c \<notin> set ''.:%'') s of
        [] \<Rightarrow> None
      | c # _ \<Rightarrow>
          if c = CHR ''.'' then map_option (\<lambda>v. v4_in_v6 @ v) (parse_ipv4 s)
          else if c = CHR '':'' then (if CHR ''%'' \<in> set s then None else parse_ipv6 s)
          else None)"

lemma dec_octet_examples:
  "dec_octet ''127'' = Some 127" "dec_octet ''0'' = Some 0" "dec_octet ''1'' = Some 1"
  "dec_octet ''01'' = None"
  by (simp_all add: dec_octet_def digit_char_def)

lemma parse_ip_examples:
  "parse_ip ''127.0.0.1'' = Some (v4_in_v6 @ [127, 0, 0, 1])"
  "parse_ip ''1.2.3'' = None" "parse_ip ''01.0.0.1'' = None"
  by (simp_all add: parse_ip_def parse_ipv4_def dec_octet_examples)

end
