(* ===== verification/Ip_Guard.thy ===== *)
theory Ip_Guard
  imports Net_Addr
begin

text \<open>
  The guard of the DID resolver against requests into private networks (the dialer and
  \<open>isBlockedIP\<close> of \<open>internal/did/resolver.go\<close>). Name lookup and the connection itself are
  arguments.
\<close>

definition ipv4_bcast :: ip where
  "ipv4_bcast = v4_in_v6 @ [255, 255, 255, 255]"

definition is_blocked_ip :: "ip \<Rightarrow> bool" where
  "is_blocked_ip ip \<longleftrightarrow>
     (if is_loopback ip \<or> is_link_local_unicast ip \<or> is_link_local_multicast ip \<or>
         is_multicast ip \<or> is_unspecified ip \<or> is_private ip then True
      else if ip_equal ip ipv4_bcast then True
      else if (case to4 ip of
                 Some v \<Rightarrow> (v ! 0 = 100 \<and> 64 \<le> v ! 1 \<and> v ! 1 \<le> 127) \<or> v ! 0 = 0
               | None \<Rightarrow> False) then True
      else if length ip = 16 \<and> ip ! 0 = 0xFE \<and> ip ! 1 AND 0xC0 = 0xC0 then True
      else False)"

datatype dial_error =
    BadAddress
  | LookupFailed string
  | NoAddress string
  | BlockedAddress ip string

definition guarded_dial ::
  "(string \<Rightarrow> 'w \<Rightarrow> 'w \<times> (string + ip list)) \<Rightarrow> (ip \<Rightarrow> string \<Rightarrow> 'w \<Rightarrow> 'w \<times> 'c) \<Rightarrow> string
     \<Rightarrow> 'w \<Rightarrow> 'w \<times> (dial_error + 'c)" where
  "guarded_dial lookup dial addr w =
     (case split_host_port addr of
        None \<Rightarrow> (w, Inl BadAddress)
      | Some (host, port) \<Rightarrow>
          (case lookup host w of
             (w1, Inl err) \<Rightarrow> (w1, Inl (LookupFailed err))
           | (w1, Inr ips) \<Rightarrow>
               (case ips of
                  [] \<Rightarrow> (w1, Inl (NoAddress host))
                | first # _ \<Rightarrow>
                    (case List.find is_blocked_ip ips of
                       Some ip \<Rightarrow> (w1, Inl (BlockedAddress ip host))
                     | None \<Rightarrow> let (w2, conn) = dial first port w1 in (w2, Inr conn)))))"

text \<open>The redirect policy: at most three hops.\<close>

definition redirect_allowed :: "nat \<Rightarrow> bool" where
  "redirect_allowed via \<longleftrightarrow> \<not> 3 \<le> via"

subsection \<open>The guard as a list of networks\<close>

text \<open>
  The reference: the reserved networks in the usual notation, as the number the first
  \<open>len\<close> bits of an address have. An address of 16 bytes that maps an IPv4 address belongs to
  the IPv4 networks.
\<close>

definition ip_value :: "ip \<Rightarrow> nat" where
  "ip_value ip = foldl (\<lambda>n b. n * 256 + unat b) 0 ip"

definition in_net :: "nat \<Rightarrow> ip \<Rightarrow> nat \<times> nat \<Rightarrow> bool" where
  "in_net width ip net \<longleftrightarrow> ip_value ip div 2 ^ (width - snd net) = fst net"

definition reserved_v4 :: "(nat \<times> nat) list" where
  "reserved_v4 =
     [(0, 8), (10, 8), (100 * 4 + 1, 10), (127, 8), (169 * 256 + 254, 16), (172 * 16 + 1, 12),
      (192 * 256 + 168, 16), (0xE, 4), (0xFFFFFFFF, 32)]"

definition reserved_v6 :: "(nat \<times> nat) list" where
  "reserved_v6 = [(0, 128), (1, 128), (0xFC div 2, 7), (0xFE80 div 64, 10), (0xFEC0 div 64, 10), (0xFF, 8)]"

definition reserved :: "ip \<Rightarrow> bool" where
  "reserved ip \<longleftrightarrow>
     (case to4 ip of
        Some v \<Rightarrow> (\<exists>net \<in> set reserved_v4. in_net 32 v net)
      | None \<Rightarrow> (\<exists>net \<in> set reserved_v6. in_net 128 ip net))"

text \<open>A mask of the high bits reads the quotient.\<close>

lemma high_bits: "(n :: nat) AND push_bit k (mask m) = push_bit k (take_bit m (n div 2 ^ k))"
proof -
  have "n AND push_bit k (mask m) = push_bit k (take_bit m (drop_bit k n))"
    by (rule bit_eqI) (auto simp: bit_simps)
  then show ?thesis by (simp only: drop_bit_eq_div)
qed

lemma byte_masks_nat:
  fixes n :: nat
  assumes "n < 256"
  shows "n AND 0xF0 = 16 * (n div 16)" "n AND 0xC0 = 64 * (n div 64)" "n AND 0xFE = 2 * (n div 2)"
  using high_bits [of n 4 4] high_bits [of n 6 2] high_bits [of n 1 7] assms
  by (simp_all add: push_bit_eq_mult mask_eq_exp_minus_1 take_bit_nat_eq_self_iff)

lemma unat_byte: "unat (b :: 8 word) < 256"
  using unsigned_less [of b] by simp

lemma word_eq_unat: "(a :: 8 word) = b \<longleftrightarrow> unat a = unat b"
  by (simp add: word_unat_eq_iff)

lemma byte_masks:
  fixes b :: "8 word"
  shows "(b AND 0xF0 = 0xE0) = (unat b div 16 = 14)" "(b AND 0xF0 = 16) = (unat b div 16 = 1)"
    "(b AND 0xC0 = 0x80) = (unat b div 64 = 2)" "(b AND 0xC0 = 0xC0) = (unat b div 64 = 3)"
    "(b AND 0xFE = 0xFC) = (unat b div 2 = 126)"
  using byte_masks_nat [OF unat_byte [of b]]
  by (simp_all add: word_eq_unat unsigned_and_eq)

subsection \<open>The value of an address\<close>

lemma ip_value_snoc: "ip_value (xs @ [b]) = ip_value xs * 256 + unat b"
  by (simp add: ip_value_def)

lemma ip_value_append: "ip_value (xs @ ys) = ip_value xs * 256 ^ length ys + ip_value ys"
proof (induction ys rule: rev_induct)
  case (snoc b ys)
  then show ?case
    using ip_value_snoc [of "xs @ ys" b] ip_value_snoc [of ys b] by (simp add: algebra_simps)
qed (simp add: ip_value_def)

lemma ip_value_less: "ip_value xs < 256 ^ length xs"
proof (induction xs rule: rev_induct)
  case (snoc b xs)
  then show ?case using unat_byte [of b] by (simp add: ip_value_snoc)
qed (simp add: ip_value_def)

lemma digits_eq:
  fixes x y b c m :: nat
  assumes "b < m" and "c < m"
  shows "x * m + b = y * m + c \<longleftrightarrow> x = y \<and> b = c"
proof
  assume eq: "x * m + b = y * m + c"
  have "(x * m + b) div m = x" "(y * m + c) div m = y"
    "(x * m + b) mod m = b" "(y * m + c) mod m = c" using assms by simp_all
  with eq show "x = y \<and> b = c" by simp
qed simp

lemma ip_value_inj:
  "length xs = length ys \<Longrightarrow> ip_value xs = ip_value ys \<longleftrightarrow> xs = ys"
proof (induction xs arbitrary: ys rule: rev_induct)
  case (snoc b xs)
  then obtain c zs where ys: "ys = zs @ [c]" "length xs = length zs"
    by (cases ys rule: rev_cases) auto
  show ?case
    using snoc.IH [OF ys(2)] digits_eq [OF unat_byte [of b] unat_byte [of c]]
    by (simp add: ys ip_value_snoc word_eq_unat)
qed simp

lemma v4_value:
  "ip_value [a, b, c, d] = unat a * 2 ^ 24 + unat b * 2 ^ 16 + unat c * 2 ^ 8 + unat d"
  by (simp add: ip_value_def algebra_simps)

lemma quotients:
  fixes a b c d :: nat
  assumes "a < 256" "b < 256" "c < 256" "d < 256"
    and "n = a * 2 ^ 24 + b * 2 ^ 16 + c * 2 ^ 8 + d"
  shows "n div 2 ^ 24 = a" "n div 2 ^ 16 = a * 256 + b" "n div 2 ^ 22 = a * 4 + b div 64"
    "n div 2 ^ 20 = a * 16 + b div 16" "n div 2 ^ 28 = a div 16"
  using assms by simp_all

lemma four: "length xs = 4 \<Longrightarrow> \<exists>a b c d. xs = [a, b, c, d]"
  by (auto simp: eval_nat_numeral length_Suc_conv)

lemma in_reserved_v4:
  fixes a b c d :: "8 word"
  shows "(\<exists>net \<in> set reserved_v4. in_net 32 [a, b, c, d] net) \<longleftrightarrow>
    unat a \<in> {0, 10, 127} \<or> unat a = 100 \<and> unat b div 64 = 1 \<or> unat a = 169 \<and> unat b = 254 \<or>
    unat a = 172 \<and> unat b div 16 = 1 \<or> unat a = 192 \<and> unat b = 168 \<or> unat a div 16 = 14 \<or>
    [a, b, c, d] = [255, 255, 255, 255]"
proof -
  note q = quotients [OF unat_byte unat_byte unat_byte unat_byte v4_value [of a b c d]]
  have all: "ip_value [a, b, c, d] = 0xFFFFFFFF \<longleftrightarrow> [a, b, c, d] = [255, 255, 255, 255]"
    using ip_value_inj [of "[a, b, c, d]" "[255, 255, 255, 255]"]
    by (simp add: v4_value [of 255 255 255 255])
  have num: "2 ^ (32 - 8) = (2 :: nat) ^ 24" "2 ^ (32 - 4) = (2 :: nat) ^ 28"
    "2 ^ (32 - 10) = (2 :: nat) ^ 22" "2 ^ (32 - 12) = (2 :: nat) ^ 20"
    "2 ^ (32 - 16) = (2 :: nat) ^ 16" "2 ^ (32 - 32) = (1 :: nat)" by simp_all
  have b: "unat b < 256" by (rule unat_byte)
  have pairs: "unat a * 4 + unat b div 64 = 100 * 4 + 1 \<longleftrightarrow> unat a = 100 \<and> unat b div 64 = 1"
    "unat a * 256 + unat b = 169 * 256 + 254 \<longleftrightarrow> unat a = 169 \<and> unat b = 254"
    "unat a * 16 + unat b div 16 = 172 * 16 + 1 \<longleftrightarrow> unat a = 172 \<and> unat b div 16 = 1"
    "unat a * 256 + unat b = 192 * 256 + 168 \<longleftrightarrow> unat a = 192 \<and> unat b = 168"
    by (rule digits_eq; use b in simp)+
  show ?thesis
    unfolding reserved_v4_def in_net_def list.set bex_simps fst_conv snd_conv num q div_by_1 pairs all
    by blast
qed

lemma sixteen:
  assumes "length ip = 16"
  shows "ip = ip ! 0 # ip ! 1 # drop 2 ip" and "length (drop 2 ip) = 14"
  using assms by (auto simp: Cons_nth_drop_Suc numeral_2_eq_2)

lemma v6_quotients:
  assumes "length ip = 16"
  shows "ip_value ip div 2 ^ 120 = unat (ip ! 0)" "ip_value ip div 2 ^ 121 = unat (ip ! 0) div 2"
    "ip_value ip div 2 ^ 118 = unat (ip ! 0) * 4 + unat (ip ! 1) div 64"
proof -
  let ?a = "unat (ip ! 0)" and ?b = "unat (ip ! 1)" and ?r = "ip_value (drop 2 ip)"
  have r: "?r < 2 ^ 112"
    using ip_value_less [of "drop 2 ip"] sixteen(2) [OF assms] by simp
  have "ip_value ip = ip_value ([ip ! 0, ip ! 1] @ drop 2 ip)"
    using sixteen(1) [OF assms] by simp
  also have "\<dots> = (?a * 256 + ?b) * 2 ^ 112 + ?r"
    unfolding ip_value_append sixteen(2) [OF assms] by (simp add: ip_value_def)
  finally have v: "ip_value ip div 2 ^ 112 = ?a * 256 + ?b" using r by simp
  have split: "n div 2 ^ (112 + k) = n div 2 ^ 112 div 2 ^ k" for n k :: nat
    by (simp add: power_add div_mult2_eq)
  have "ip_value ip div 2 ^ (112 + k) = (?a * 256 + ?b) div 2 ^ k" for k
    by (simp only: split v)
  from this [of 8] this [of 9] this [of 6]
  show "ip_value ip div 2 ^ 120 = ?a" "ip_value ip div 2 ^ 121 = ?a div 2"
    "ip_value ip div 2 ^ 118 = ?a * 4 + ?b div 64"
    using unat_byte [of "ip ! 1"] by simp_all
qed

lemma v6_values:
  assumes "length ip = 16"
  shows "ip_value ip = 0 \<longleftrightarrow> ip = ipv6_unspecified" "ip_value ip = 1 \<longleftrightarrow> ip = ipv6_loopback"
  using ip_value_inj [of ip ipv6_unspecified] ip_value_inj [of ip ipv6_loopback] assms
  by (simp_all add: ipv6_unspecified_def ipv6_loopback_def ip_value_def eval_nat_numeral)

lemma in_reserved_v6:
  assumes "length ip = 16"
  shows "(\<exists>net \<in> set reserved_v6. in_net 128 ip net) \<longleftrightarrow>
    ip = ipv6_unspecified \<or> ip = ipv6_loopback \<or> unat (ip ! 0) div 2 = 126 \<or>
    unat (ip ! 0) = 0xFE \<and> unat (ip ! 1) div 64 \<in> {2, 3} \<or> unat (ip ! 0) = 0xFF"
proof -
  have num: "2 ^ (128 - 8) = (2 :: nat) ^ 120" "2 ^ (128 - 7) = (2 :: nat) ^ 121"
    "2 ^ (128 - 10) = (2 :: nat) ^ 118" "2 ^ (128 - 128) = (1 :: nat)" "0xFC div 2 = (126 :: nat)"
    by simp_all
  have b: "unat (ip ! 1) < 256" by (rule unat_byte)
  have site: "0xFE80 div 64 = (0xFE * 4 + 2 :: nat)" "0xFEC0 div 64 = (0xFE * 4 + 3 :: nat)"
    by simp_all
  have pairs: "unat (ip ! 0) * 4 + unat (ip ! 1) div 64 = 0xFE * 4 + 2 \<longleftrightarrow>
      unat (ip ! 0) = 0xFE \<and> unat (ip ! 1) div 64 = 2"
    "unat (ip ! 0) * 4 + unat (ip ! 1) div 64 = 0xFE * 4 + 3 \<longleftrightarrow>
      unat (ip ! 0) = 0xFE \<and> unat (ip ! 1) div 64 = 3"
    by (rule digits_eq; use b in simp)+
  show ?thesis
    unfolding reserved_v6_def in_net_def list.set bex_simps fst_conv snd_conv num
      v6_quotients [OF assms] div_by_1 site pairs v6_values [OF assms]
    by blast
qed

text \<open>The predicates of \<open>net.IP\<close> on the two kinds of address.\<close>

lemma mapped_length [simp]: "length v4_in_v6 = 12"
  by (simp add: v4_in_v6_def)

lemma unspecified_length: "length ipv6_unspecified = 16"
  by (simp add: ipv6_unspecified_def)

lemma mapped_nth: "(v4_in_v6 @ x) ! 10 = 0xFF"
  by (simp add: v4_in_v6_def nth_append)

lemma not_mapped: "ipv6_unspecified \<noteq> v4_in_v6 @ x" "ipv6_loopback \<noteq> v4_in_v6 @ x"
proof -
  have "ipv6_unspecified ! 10 = 0" "ipv6_loopback ! 10 = 0"
    by (simp_all add: ipv6_unspecified_def ipv6_loopback_def nth_append)
  then show "ipv6_unspecified \<noteq> v4_in_v6 @ x" "ipv6_loopback \<noteq> v4_in_v6 @ x"
    using mapped_nth [of x] by auto
qed

lemma equal_mapped:
  assumes "ip = v \<or> ip = v4_in_v6 @ v" and "length v = 4"
  shows "length x = 4 \<Longrightarrow> ip_equal ip (v4_in_v6 @ x) \<longleftrightarrow> v = x"
    and "\<not> ip_equal ip ipv6_unspecified"
  using assms(1)
proof (atomize (full), elim disjE)
  assume "ip = v"
  with assms(2) show "(length x = 4 \<longrightarrow> ip_equal ip (v4_in_v6 @ x) = (v = x)) \<and>
      \<not> ip_equal ip ipv6_unspecified"
    by (auto simp: ip_equal_def unspecified_length not_mapped)
next
  assume "ip = v4_in_v6 @ v"
  with assms(2) show "(length x = 4 \<longrightarrow> ip_equal ip (v4_in_v6 @ x) = (v = x)) \<and>
      \<not> ip_equal ip ipv6_unspecified"
    by (auto simp: ip_equal_def unspecified_length not_mapped [symmetric])
qed

lemma second_quarter: "(n :: nat) div 64 = 1 \<longleftrightarrow> 64 \<le> n \<and> n \<le> 127"
  by (rule iffI) linarith+

lemma if_or: "(if P then True else Q) \<longleftrightarrow> P \<or> Q"
  by simp

lemma blocked_v4:
  assumes "to4 ip = Some [a, b, c, d]"
  shows "is_blocked_ip ip \<longleftrightarrow>
    unat a \<in> {0, 10, 127} \<or> unat a = 100 \<and> unat b div 64 = 1 \<or> unat a = 169 \<and> unat b = 254 \<or>
    unat a = 172 \<and> unat b div 16 = 1 \<or> unat a = 192 \<and> unat b = 168 \<or> unat a div 16 = 14 \<or>
    [a, b, c, d] = [255, 255, 255, 255]"
proof -
  have shape: "ip = [a, b, c, d] \<or> ip = v4_in_v6 @ [a, b, c, d]"
    using assms append_take_drop_id [of 12 ip] by (metis option.inject option.distinct(1) to4_def)
  have four_bytes: "length [a, b, c, d] = 4" by simp
  note equal = equal_mapped [OF shape four_bytes]
  have cgnat: "64 \<le> b \<and> b \<le> 127 \<longleftrightarrow> unat b div 64 = 1"
    unfolding second_quarter by (simp add: word_le_nat_alt)
  have lens: "length [0, 0, 0, 0 :: 8 word] = 4" "length [255, 255, 255, 255 :: 8 word] = 4" by simp_all
  have preds: "is_loopback ip \<longleftrightarrow> unat a = 127"
    "is_link_local_unicast ip \<longleftrightarrow> unat a = 169 \<and> unat b = 254"
    "is_link_local_multicast ip \<longleftrightarrow> unat a = 224 \<and> unat b = 0 \<and> unat c = 0"
    "is_multicast ip \<longleftrightarrow> unat a div 16 = 14"
    "is_private ip \<longleftrightarrow> unat a = 10 \<or> unat a = 172 \<and> unat b div 16 = 1 \<or> unat a = 192 \<and> unat b = 168"
    by (simp_all add: is_loopback_def is_link_local_unicast_def is_link_local_multicast_def
        is_multicast_def is_private_def assms byte_masks, simp_all add: word_eq_unat)
  have unspec: "is_unspecified ip \<longleftrightarrow> [a, b, c, d] = [0, 0, 0, 0]"
    unfolding is_unspecified_def equal(1) [OF lens(1)] using equal(2) by blast
  have "(v4_in_v6 @ [a, b, c, d]) ! 0 = 0" by (simp add: v4_in_v6_def nth_append)
  then have site: "(length ip = 16 \<and> ip ! 0 = 0xFE \<and> P) = False" for P using shape by auto
  have tail: "([a, b, c, d] ! 0 = 100 \<and> 64 \<le> [a, b, c, d] ! 1 \<and> [a, b, c, d] ! 1 \<le> 127) \<or>
      [a, b, c, d] ! 0 = 0 \<longleftrightarrow> unat a = 100 \<and> unat b div 64 = 1 \<or> unat a = 0"
    unfolding cgnat [symmetric] by (simp add: word_eq_unat)
  have zero: "[a, b, c, d] = [0, 0, 0, 0] \<Longrightarrow> unat a = 0" by simp
  have mc: "unat a = 224 \<Longrightarrow> unat a div 16 = 14" by simp
  have "is_blocked_ip ip \<longleftrightarrow>
      unat a = 127 \<or> (unat a = 169 \<and> unat b = 254) \<or> (unat a = 224 \<and> unat b = 0 \<and> unat c = 0) \<or>
      unat a div 16 = 14 \<or> [a, b, c, d] = [0, 0, 0, 0] \<or>
      (unat a = 10 \<or> unat a = 172 \<and> unat b div 16 = 1 \<or> unat a = 192 \<and> unat b = 168) \<or>
      [a, b, c, d] = [255, 255, 255, 255] \<or> unat a = 100 \<and> unat b div 64 = 1 \<or> unat a = 0"
    unfolding is_blocked_ip_def preds unspec ipv4_bcast_def equal(1) [OF lens(2)] assms option.case
      tail if_or site
    by (simp only: disj_assoc simp_thms)
  then show ?thesis
    unfolding insert_iff empty_iff using zero mc by argo
qed

lemma blocked_v6:
  assumes "to4 ip = None" and "length ip = 16"
  shows "is_blocked_ip ip \<longleftrightarrow>
    ip = ipv6_unspecified \<or> ip = ipv6_loopback \<or> unat (ip ! 0) div 2 = 126 \<or>
    unat (ip ! 0) = 0xFE \<and> unat (ip ! 1) div 64 \<in> {2, 3} \<or> unat (ip ! 0) = 0xFF"
proof -
  have unmapped: "ip \<noteq> v4_in_v6 @ x" for x using assms by (auto simp: to4_def)
  have lens: "length ipv6_loopback = 16" "length (v4_in_v6 @ [x, y, z, w]) = 16" for x y z w
    by (simp_all add: ipv6_loopback_def)
  have preds: "is_loopback ip \<longleftrightarrow> ip = ipv6_loopback" "is_unspecified ip \<longleftrightarrow> ip = ipv6_unspecified"
    "\<not> ip_equal ip ipv4_bcast"
    "is_link_local_unicast ip \<longleftrightarrow> unat (ip ! 0) = 0xFE \<and> unat (ip ! 1) div 64 = 2"
    "is_multicast ip \<longleftrightarrow> unat (ip ! 0) = 0xFF" "is_private ip \<longleftrightarrow> unat (ip ! 0) div 2 = 126"
    "is_link_local_multicast ip \<Longrightarrow> unat (ip ! 0) = 0xFF"
    using assms lens unmapped
    by (simp_all add: is_loopback_def is_unspecified_def is_link_local_unicast_def is_multicast_def
        is_private_def is_link_local_multicast_def ip_equal_def ipv4_bcast_def unspecified_length
        byte_masks, simp_all add: word_eq_unat)
  have site: "length ip = 16 \<and> ip ! 0 = 0xFE \<and> ip ! 1 AND 0xC0 = 0xC0 \<longleftrightarrow>
      unat (ip ! 0) = 0xFE \<and> unat (ip ! 1) div 64 = 3"
    using assms by (simp add: byte_masks) (simp add: word_eq_unat)
  have "is_blocked_ip ip \<longleftrightarrow> ip = ipv6_loopback \<or> unat (ip ! 0) = 0xFE \<and> unat (ip ! 1) div 64 = 2 \<or>
      is_link_local_multicast ip \<or> unat (ip ! 0) = 0xFF \<or> ip = ipv6_unspecified \<or>
      unat (ip ! 0) div 2 = 126 \<or> unat (ip ! 0) = 0xFE \<and> unat (ip ! 1) div 64 = 3"
    unfolding is_blocked_ip_def preds(1,2,4-6) assms(1) option.case site if_or
    using preds(3) by blast
  then show ?thesis using preds(7) by auto
qed

lemma list4: "length xs = 4 \<Longrightarrow> \<exists>a b c d. xs = [a, b, c, d]"
  by (auto simp: numeral_eq_Suc length_Suc_conv)

text \<open>
  C20: For every IPv4 and every IPv6 address the hand-written checks refuse exactly the addresses of
  the reserved networks: 0.0.0.0/8, 10.0.0.0/8, 100.64.0.0/10, 127.0.0.0/8, 169.254.0.0/16,
  172.16.0.0/12, 192.168.0.0/16, 224.0.0.0/4 and the broadcast address, also when they are written
  as IPv6 addresses, and ::, ::1, fc00::/7, fe80::/10, fec0::/10 and ff00::/8.\<close>

theorem blocked_iff_reserved:
  assumes "length ip = 4 \<or> length ip = 16"
  shows "is_blocked_ip ip \<longleftrightarrow> reserved ip"
proof (cases "to4 ip")
  case None
  then have "length ip = 16" using assms by (auto simp: to4_def)
  then show ?thesis using None by (simp add: reserved_def blocked_v6 in_reserved_v6)
next
  case (Some v)
  then have "length v = 4" by (auto simp: to4_def split: if_splits)
  then obtain a b c d where v: "v = [a, b, c, d]" using list4 by blast
  show ?thesis
    unfolding blocked_v4 [OF Some [unfolded v]] reserved_def Some option.case v in_reserved_v4 ..
qed

theorem blocked_iff_reserved_witness:
  "is_blocked_ip [169, 254, 169, 254] \<longleftrightarrow> reserved [169, 254, 169, 254]"
  using blocked_iff_reserved [of "[169, 254, 169, 254]"] by simp

text \<open>
  C21: The dialer of the resolver opens a connection only to the first address the name resolved to,
  and only when none of the addresses it resolved to is reserved, whatever the name is; in every
  other case the dial function is not called.\<close>

theorem dial_only_public:
  assumes "guarded_dial lookup dial addr w = (w', res)"
  shows "(\<forall>conn. res = Inr conn \<longrightarrow> (\<exists>host port w1 ip ips.
      split_host_port addr = Some (host, port) \<and> lookup host w = (w1, Inr (ip # ips)) \<and>
      dial ip port w1 = (w', conn) \<and> (\<forall>a \<in> set (ip # ips). \<not> is_blocked_ip a))) \<and>
    (\<forall>err. res = Inl err \<longrightarrow> w' = w \<or> (\<exists>host. w' = fst (lookup host w)))"
  using assms
  by (auto simp: guarded_dial_def find_None_iff split: option.splits prod.splits sum.splits list.splits
      if_splits) (metis fst_conv)+

theorem dial_only_public_witness:
  "\<exists>host port w1 ip ips. split_host_port ''plc.directory:443'' = Some (host, port) \<and>
     (w1 :: nat, (Inr [[1, 1, 1, 1]] :: string + ip list)) = (w1, Inr (ip # ips)) \<and>
     \<not> is_blocked_ip ip"
proof -
  have addr: "split_host_port ''plc.directory:443'' = Some (''plc.directory'', ''443'')"
    by (simp add: split_host_port_def last_index_def)
  have ok: "\<not> is_blocked_ip [1, 1, 1, 1]"
    using blocked_v4 [of "[1, 1, 1, 1]" 1 1 1 1] by (simp add: to4_def)
  then have "guarded_dial (\<lambda>_ w. (w, Inr [[1, 1, 1, 1]])) (\<lambda>ip _ w. (w + 1, ip)) ''plc.directory:443''
      (0 :: nat) = (1, Inr [1, 1, 1, 1])"
    by (simp add: guarded_dial_def addr)
  from dial_only_public [OF this] show ?thesis by (auto simp: addr)
qed

end
