(* ===== verification/Ttl_Cache.thy ===== *)
theory Ttl_Cache
  imports Gateway_Prelude
begin

text \<open>
  The bounded caches of the three resolvers (\<open>internal/did\<close>, \<open>internal/profile\<close>,
  \<open>internal/posttext\<close>), whose \<open>evictOldest\<close> is the same code three times. A cache is an
  association list with distinct keys; the order in which Go's \<open>range\<close> visits a map is the
  argument \<open>order\<close>, any permutation. \<open>None\<close> is a panic (an index out of range).
\<close>

type_synonym 'v cache = "(string \<times> 'v \<times> int) list"

type_synonym range_order = "(string \<times> int) list \<Rightarrow> (string \<times> int) list"

definition permutes :: "range_order \<Rightarrow> bool" where
  "permutes order \<longleftrightarrow> (\<forall>xs. mset (order xs) = mset xs)"

definition stamps :: "'v cache \<Rightarrow> (string \<times> int) list" where
  "stamps c = map (\<lambda>(k, v, t). (k, t)) c"

subsection \<open>Eviction\<close>

definition oldest_idx :: "(string \<times> int) list \<Rightarrow> nat" where
  "oldest_idx entries =
     fold (\<lambda>j i. if snd (entries ! j) < snd (entries ! i) then j else i) [1..<length entries] 0"

fun evict_loop :: "nat \<Rightarrow> (string \<times> int) list \<Rightarrow> 'v cache \<Rightarrow> 'v cache option" where
  "evict_loop 0 entries c = Some c"
| "evict_loop (Suc n) entries c =
     (if entries = [] then None
      else let i = oldest_idx entries in
        evict_loop n (butlast (entries[i := last entries])) (AList.delete (fst (entries ! i)) c))"

definition evict_count :: "nat \<Rightarrow> nat" where
  "evict_count n = (if n div 4 < 1 then 1 else n div 4)"

definition evict_oldest :: "range_order \<Rightarrow> 'v cache \<Rightarrow> 'v cache option" where
  "evict_oldest order c =
     (let entries = order (stamps c) in evict_loop (evict_count (length entries)) entries c)"

subsection \<open>Lookup and insertion\<close>

definition fresh_entry :: "('v \<Rightarrow> int) \<Rightarrow> 'v cache \<Rightarrow> string \<Rightarrow> int \<Rightarrow> 'v option" where
  "fresh_entry ttl c k now =
     (case map_of c k of
        Some (v, t) \<Rightarrow> if now - t < ttl v then Some v else None
      | None \<Rightarrow> None)"

definition cache_insert ::
  "range_order \<Rightarrow> nat \<Rightarrow> string \<Rightarrow> 'v \<Rightarrow> int \<Rightarrow> 'v cache \<Rightarrow> 'v cache option" where
  "cache_insert order cap k v now c =
     map_option (AList.update k (v, now))
       (if cap \<le> length c then evict_oldest order c else Some c)"

subsection \<open>The inner loop finds the oldest entry\<close>

lemma oldest_idx_least:
  assumes "entries \<noteq> []"
  shows "oldest_idx entries < length entries \<and>
    (\<forall>j < length entries. snd (entries ! oldest_idx entries) \<le> snd (entries ! j))"
proof -
  have "1 \<le> m \<Longrightarrow> m \<le> length entries \<Longrightarrow>
      (let i = fold (\<lambda>j i. if snd (entries ! j) < snd (entries ! i) then j else i) [1..<m] 0 in
       i < m \<and> (\<forall>j < m. snd (entries ! i) \<le> snd (entries ! j)))" for m
  proof (induction m)
    case (Suc m)
    show ?case
    proof (cases "m = 0")
      case False
      with Suc show ?thesis by (auto simp: Let_def less_Suc_eq)
    qed simp
  qed simp
  from this [of "length entries"] assms show ?thesis
    by (simp add: oldest_idx_def Let_def Suc_leI)
qed

lemma mset_remove_idx:
  assumes "i < length xs"
  shows "mset (butlast (xs[i := last xs])) = mset xs - {#xs ! i#}"
proof -
  have ne: "xs[i := last xs] \<noteq> []" using assms by auto
  have last: "last (xs[i := last xs]) = last xs"
    using assms ne by (cases "xs = []") (auto simp: last_conv_nth nth_list_update)
  have "mset (xs[i := last xs]) = mset (butlast (xs[i := last xs])) + {#last xs#}"
    using append_butlast_last_id [OF ne] last by (metis mset_append mset_single_iff_right)
  moreover have "mset (xs[i := last xs]) = add_mset (last xs) (mset xs - {#xs ! i#})"
    using assms by (rule mset_update)
  ultimately show ?thesis by simp
qed

subsection \<open>What eviction keeps\<close>

lemma delete_stamps: "stamps (AList.delete k c) = filter (\<lambda>e. fst e \<noteq> k) (stamps c)"
  by (induction c) (auto simp: stamps_def)

lemma mset_filter_key:
  assumes "distinct (map fst xs)" and "e \<in> set xs"
  shows "mset (filter (\<lambda>x. fst x \<noteq> fst e) xs) = mset xs - {#e#}"
  using assms
proof (induction xs)
  case (Cons x xs)
  show ?case
  proof (cases "x = e")
    case True
    with Cons.prems(1) have "filter (\<lambda>y. fst y \<noteq> fst e) xs = xs"
      by (intro filter_True ballI) (metis distinct.simps(2) imageI list.set_map list.simps(9))
    with True show ?thesis by simp
  next
    case False
    with Cons.prems have "e \<in> set xs" "fst x \<noteq> fst e" by force+
    with False Cons show ?thesis by simp
  qed
qed simp

lemma distinct_stamps: "distinct (map fst (stamps c)) = distinct (map fst c)"
  by (simp add: stamps_def split_beta o_def)

lemma length_delete_stamps:
  "distinct (map fst c) \<Longrightarrow> e \<in> set (stamps c) \<Longrightarrow> length (AList.delete (fst e) c) = length c - 1"
proof -
  assume d: "distinct (map fst c)" and e: "e \<in> set (stamps c)"
  have "length (AList.delete (fst e) c) = length (stamps (AList.delete (fst e) c))"
    by (simp add: stamps_def)
  also have "\<dots> = size (mset (stamps c) - {#e#})"
    using mset_filter_key [of "stamps c" e] d e by (simp add: delete_stamps distinct_stamps flip: size_mset)
  also have "\<dots> = length c - 1" using e by (simp add: size_Diff_singleton stamps_def)
  finally show ?thesis .
qed

definition older_out :: "'v cache \<Rightarrow> 'v cache \<Rightarrow> bool" where
  "older_out c c' \<longleftrightarrow>
     (\<forall>e \<in> set c - set c'. \<forall>e' \<in> set c'. snd (snd e) \<le> snd (snd e'))"

lemma set_delete_cache: "set (AList.delete k c) = {e \<in> set c. fst e \<noteq> k}"
  by (induction c) auto

lemma evict_loop_ok:
  assumes "distinct (map fst c)" and "mset entries = mset (stamps c)" and "n \<le> length entries"
  shows "\<exists>c'. evict_loop n entries c = Some c' \<and> set c' \<subseteq> set c \<and> distinct (map fst c') \<and>
    length c' = length c - n \<and> older_out c c'"
  using assms
proof (induction n arbitrary: entries c)
  case 0
  then show ?case by (simp add: older_out_def)
next
  case (Suc n)
  then have ne: "entries \<noteq> []" by auto
  define i where "i = oldest_idx entries"
  define e where "e = entries ! i"
  define c1 where "c1 = AList.delete (fst e) c"
  have i: "i < length entries" and least: "\<And>x. x \<in> set entries \<Longrightarrow> snd e \<le> snd x"
    using oldest_idx_least [OF ne] by (auto simp: i_def e_def in_set_conv_nth)
  have sets: "set entries = set (stamps c)" using Suc.prems(2) by (rule mset_eq_setD)
  have e: "e \<in> set (stamps c)" using i sets e_def by (metis nth_mem)
  have "mset (butlast (entries[i := last entries])) = mset (stamps c1)"
    using mset_remove_idx [OF i] mset_filter_key [of "stamps c" e] Suc.prems(1,2) e
    by (simp add: c1_def delete_stamps distinct_stamps e_def)
  moreover have "distinct (map fst c1)" using Suc.prems(1) by (simp add: c1_def distinct_delete)
  moreover have "n \<le> length (butlast (entries[i := last entries]))" using Suc.prems(3) by simp
  ultimately obtain c' where c': "evict_loop n (butlast (entries[i := last entries])) c1 = Some c'"
    "set c' \<subseteq> set c1" "distinct (map fst c')" "length c' = length c1 - n" "older_out c1 c'"
    using Suc.IH by blast
  have sub: "set c1 \<subseteq> set c" by (auto simp: c1_def set_delete_cache)
  have "older_out c c'"
    unfolding older_out_def
  proof (intro ballI)
    fix x y
    assume x: "x \<in> set c - set c'" and y: "y \<in> set c'"
    show "snd (snd x) \<le> snd (snd y)"
    proof (cases "x \<in> set c1")
      case True
      then show ?thesis using c'(5) x y by (auto simp: older_out_def)
    next
      case False
      then have key: "fst x = fst e" using x by (auto simp: c1_def set_delete_cache)
      have stamp: "(fst z, snd (snd z)) \<in> set (stamps c)" if "z \<in> set c" for z
        using that by (auto simp: stamps_def split_beta image_iff intro: bexI [of _ z])
      have "(fst x, snd (snd x)) \<in> set (stamps c)" using x stamp by blast
      then have "(fst x, snd (snd x)) = e"
        using e key Suc.prems(1) by (metis distinct_stamps eq_key_imp_eq_value prod.collapse fst_conv)
      moreover have "(fst y, snd (snd y)) \<in> set entries"
        using y c'(2) sub sets stamp by blast
      ultimately show ?thesis using least by (metis snd_conv)
    qed
  qed
  then show ?case
    using c' ne sub length_delete_stamps [OF Suc.prems(1) e]
    by (auto simp: i_def e_def c1_def Let_def)
qed

lemma evict_oldest_ok:
  assumes "permutes order" and "distinct (map fst c)" and "c \<noteq> []"
  shows "\<exists>c'. evict_oldest order c = Some c' \<and> set c' \<subseteq> set c \<and> distinct (map fst c') \<and>
    length c' = length c - evict_count (length c) \<and> older_out c c'"
proof -
  have m: "mset (order (stamps c)) = mset (stamps c)" using assms(1) by (simp add: permutes_def)
  have len: "length (order (stamps c)) = length c"
    using mset_eq_length [OF m] by (simp add: stamps_def)
  have "evict_count (length c) \<le> length (order (stamps c))"
    using assms(3) by (auto simp: evict_count_def len Suc_le_eq)
  from evict_loop_ok [OF assms(2) m this] show ?thesis by (simp add: evict_oldest_def Let_def len)
qed

lemma evict_oldest_empty:
  "permutes order \<Longrightarrow> evict_oldest order [] = None"
proof -
  assume "permutes order"
  then have "mset (order []) = {#}" by (simp add: permutes_def)
  then show ?thesis by (simp add: evict_oldest_def stamps_def evict_count_def Let_def)
qed

subsection \<open>The bound\<close>

definition cache_ok :: "nat \<Rightarrow> 'v cache \<Rightarrow> bool" where
  "cache_ok cap c \<longleftrightarrow> distinct (map fst c) \<and> length c \<le> cap"

lemma cache_insert_ok:
  assumes "permutes order" and "cache_ok cap c" and "0 < cap"
  obtains c' where "cache_insert order cap k v now c = Some c'" and "cache_ok cap c'"
    and "map_of c' k = Some (v, now)"
    and "\<And>j. j \<noteq> k \<Longrightarrow> map_of c' j = map_of c j \<or> cap \<le> length c \<and> map_of c' j = None"
proof (cases "cap \<le> length c")
  case False
  then show thesis
    using assms by (intro that [of "AList.update k (v, now) c"])
      (auto simp: cache_insert_def cache_ok_def update_conv' distinct_update
        intro: order_trans [OF length_update_le])
next
  case True
  then have ne: "c \<noteq> []" using assms(3) by auto
  obtain d where d: "evict_oldest order c = Some d" "set d \<subseteq> set c" "distinct (map fst d)"
    "length d = length c - evict_count (length c)"
    using evict_oldest_ok [OF assms(1) _ ne] assms(2) by (auto simp: cache_ok_def)
  have "length d < cap"
    using d(4) True ne assms(2) by (cases c) (auto simp: evict_count_def cache_ok_def)
  moreover have "map_of d j = map_of c j \<or> map_of d j = None" for j
  proof (cases "map_of d j")
    case (Some e)
    then have "(j, e) \<in> set c" using d(2) by (auto dest: map_of_SomeD)
    then show ?thesis using Some assms(2) by (simp add: cache_ok_def)
  qed simp
  ultimately show thesis
    using d True by (intro that [of "AList.update k (v, now) d"])
      (auto simp: cache_insert_def cache_ok_def update_conv' distinct_update
        intro: order_trans [OF length_update_le])
qed

lemma fresh_entry_Some:
  "fresh_entry ttl c k now = Some v \<longleftrightarrow> (\<exists>t. map_of c k = Some (v, t) \<and> now - t < ttl v)"
  by (auto simp: fresh_entry_def split: option.splits prod.splits)

subsection \<open>What the resolvers share\<close>

text \<open>A sequence of questions; the sequence ends when one of them panics.\<close>

fun resolve_all ::
  "(range_order \<Rightarrow> int \<Rightarrow> int \<Rightarrow> string \<Rightarrow> 's \<Rightarrow> ('s \<times> 'r) option)
     \<Rightarrow> (range_order \<times> int \<times> int \<times> string) list \<Rightarrow> 's \<Rightarrow> ('s \<times> 'r list) option" where
  "resolve_all resolve [] s = Some (s, [])"
| "resolve_all resolve ((order, t1, t2, k) # qs) s =
     (case resolve order t1 t2 k s of
        None \<Rightarrow> None
      | Some (s', r) \<Rightarrow> map_option (\<lambda>(s'', rs). (s'', r # rs)) (resolve_all resolve qs s'))"

text \<open>
  The contract of a resolver over such a cache. \<open>resolve order t1 t2 k (c, w)\<close> looks \<open>k\<close>
  up at the reading \<open>t1\<close> of the clock, may ask the world \<open>w\<close>, and stores what it got at
  the reading \<open>t2\<close>; \<open>keeps r\<close> is how long the answer \<open>r\<close> is kept at least, \<open>None\<close> when
  it is not kept at all.
\<close>

locale caching_resolver =
  fixes resolve :: "range_order \<Rightarrow> int \<Rightarrow> int \<Rightarrow> string \<Rightarrow> 'v cache \<times> 'w \<Rightarrow> (('v cache \<times> 'w) \<times> 'r) option"
    and cap :: nat and keeps :: "'r \<Rightarrow> int option"
  assumes runs: "permutes order \<Longrightarrow> cache_ok cap c \<Longrightarrow>
      \<exists>c' w' r. resolve order t1 t2 k (c, w) = Some ((c', w'), r) \<and> cache_ok cap c'"
    and again: "permutes order \<Longrightarrow> cache_ok cap c \<Longrightarrow>
      resolve order t1 t2 k (c, w) = Some ((c', w'), r) \<Longrightarrow>
      (c' = c \<and> w' = w) \<or>
      (\<forall>d order' t3 t4. keeps r = Some d \<longrightarrow> t3 - t2 < d \<longrightarrow>
         resolve order' t3 t4 k (c', w') = Some ((c', w'), r))"
begin

lemma resolve_all_bounded:
  assumes "\<forall>q \<in> set qs. permutes (fst q)" and "cache_ok cap c"
  shows "\<exists>c' w' rs. resolve_all resolve qs (c, w) = Some ((c', w'), rs) \<and> cache_ok cap c' \<and>
    length rs = length qs"
  using assms
proof (induction qs arbitrary: c w)
  case (Cons q qs)
  obtain order t1 t2 k where q: "q = (order, t1, t2, k)" by (cases q) auto
  with Cons.prems(1) have "permutes order" by simp
  from runs [OF this Cons.prems(2), of t1 t2 k w] obtain c1 w1 r where
    "resolve order t1 t2 k (c, w) = Some ((c1, w1), r)" and ok: "cache_ok cap c1" by blast
  moreover obtain c' w' rs where "resolve_all resolve qs (c1, w1) = Some ((c', w'), rs)" "cache_ok cap c'"
    "length rs = length qs"
    using Cons.IH [OF _ ok, of w1] Cons.prems(1) by auto
  ultimately show ?case by (auto simp: q)
qed simp

lemma asked_once:
  assumes "permutes order" and "cache_ok cap c"
    and "resolve order t1 t2 k (c, w) = Some ((c', w'), r)" and "w' \<noteq> w"
    and "keeps r = Some d" and "t3 - t2 < d"
  shows "resolve order' t3 t4 k (c', w') = Some ((c', w'), r)"
  using again [OF assms(1-3)] assms(4-6) by blast

end

end
