(* ===== verification/Resolvers.thy ===== *)
theory Resolvers
  imports Ttl_Cache Http_Types Go_Json
begin

text \<open>
  The profile resolver (\<open>internal/profile/resolver.go\<close>) and the post text resolver
  (\<open>internal/posttext/resolver.go\<close>). \<open>client.Get\<close> is a field of the environment: from a
  URL to the response, or \<open>Inl\<close> when the URL does not parse or no response arrives. Their log
  lines are left out.
\<close>

type_synonym 'w http_get = "string \<Rightarrow> 'w \<Rightarrow> 'w \<times> (string + http_resp)"

definition default_max_cache_size :: nat where
  "default_max_cache_size = 10000"

record 'w resolver =
  rv_get :: "'w http_get"
  rv_base :: string
  rv_cap :: nat

definition hour :: int where
  "hour = 3600 * 1000000000"

definition resolver_cap :: "int \<Rightarrow> nat" where
  "resolver_cap max_size = (if max_size \<le> 0 then default_max_cache_size else nat max_size)"

definition set_api_base_url :: "string \<Rightarrow> 'w resolver \<Rightarrow> 'w resolver" where
  "set_api_base_url u rv = (if u \<noteq> [] then rv\<lparr>rv_base := u\<rparr> else rv)"

lemma resolver_cap_pos [simp]: "0 < resolver_cap max_size"
  by (simp add: resolver_cap_def default_max_cache_size_def)

lemma rv_cap_base [simp]: "rv_cap (set_api_base_url u rv) = rv_cap rv"
  by (simp add: set_api_base_url_def)

subsection \<open>Profiles\<close>

type_synonym profile = "string \<times> string"

definition profile_fields :: "(string \<times> (string \<times> profile) decoder) list" where
  "profile_fields =
     [(''did'', dec_field fst (\<lambda>x r. (x, snd r)) dec_string),
      (''handle'', dec_field (\<lambda>r. snd (snd r)) (\<lambda>x r. (fst r, fst (snd r), x)) dec_string),
      (''displayName'', dec_field (\<lambda>r. fst (snd r)) (\<lambda>x r. (fst r, x, snd (snd r))) dec_string)]"

definition new_profile_resolver :: "'w http_get \<Rightarrow> int \<Rightarrow> 'w resolver" where
  "new_profile_resolver get max_size =
     \<lparr>rv_get = get, rv_base = ''https://public.api.bsky.app'', rv_cap = resolver_cap max_size\<rparr>"

lemma rv_cap_profile [simp]: "rv_cap (new_profile_resolver get max_size) = resolver_cap max_size"
  by (simp add: new_profile_resolver_def)

definition fetch_profile :: "'w resolver \<Rightarrow> string \<Rightarrow> 'w \<Rightarrow> 'w \<times> profile" where
  "fetch_profile rv did w =
     (case rv_get rv (rv_base rv @ ''/xrpc/app.bsky.actor.getProfile?actor='' @ query_escape did) w of
        (w', Inl err) \<Rightarrow> (w', ([], []))
      | (w', Inr resp) \<Rightarrow>
          (w', if hp_status resp \<noteq> 200 then ([], [])
               else case decode_first (dec_struct profile_fields) ([], [], []) (hp_body resp) of
                 None \<Rightarrow> ([], [])
               | Some (_, p) \<Rightarrow> p))"

definition resolve_profile ::
  "'w resolver \<Rightarrow> range_order \<Rightarrow> int \<Rightarrow> int \<Rightarrow> string \<Rightarrow> profile cache \<times> 'w
     \<Rightarrow> ((profile cache \<times> 'w) \<times> profile) option" where
  "resolve_profile rv order t1 t2 did s =
     (case fresh_entry (\<lambda>_. hour) (fst s) did t1 of
        Some p \<Rightarrow> Some (s, p)
      | None \<Rightarrow>
          let (w', p) = fetch_profile rv did (snd s) in
          map_option (\<lambda>c'. ((c', w'), p)) (cache_insert order (rv_cap rv) did p t2 (fst s)))"

definition resolve_display_name ::
  "'w resolver \<Rightarrow> range_order \<Rightarrow> int \<Rightarrow> int \<Rightarrow> string \<Rightarrow> profile cache \<times> 'w
     \<Rightarrow> ((profile cache \<times> 'w) \<times> string) option" where
  "resolve_display_name rv order t1 t2 did s =
     map_option (\<lambda>(s', display, handle).
         (s', if display \<noteq> [] then display else if handle \<noteq> [] then handle else did))
       (resolve_profile rv order t1 t2 did s)"

subsection \<open>Post texts\<close>

text \<open>A cached text with the mark of a negative result.\<close>

type_synonym post_entry = "string \<times> bool"

record post_item =
  pi_uri :: string
  pi_text :: string

definition record_text_fields :: "(string \<times> post_item decoder) list" where
  "record_text_fields = [(''text'', dec_field pi_text (\<lambda>x r. r\<lparr>pi_text := x\<rparr>) dec_string)]"

definition post_item_fields :: "(string \<times> post_item decoder) list" where
  "post_item_fields =
     [(''uri'', dec_field pi_uri (\<lambda>x r. r\<lparr>pi_uri := x\<rparr>) dec_string),
      (''record'', dec_struct record_text_fields)]"

definition get_posts_fields :: "(string \<times> post_item list decoder) list" where
  "get_posts_fields = [(''posts'', dec_slice (dec_struct post_item_fields) \<lparr>pi_uri = [], pi_text = []\<rparr>)]"

definition new_post_text_resolver :: "'w http_get \<Rightarrow> int \<Rightarrow> 'w resolver" where
  "new_post_text_resolver get max_size =
     \<lparr>rv_get = get, rv_base = ''https://public.api.bsky.app'', rv_cap = resolver_cap max_size\<rparr>"

lemma rv_cap_post_text [simp]: "rv_cap (new_post_text_resolver get max_size) = resolver_cap max_size"
  by (simp add: new_post_text_resolver_def)

definition fetch_post :: "'w resolver \<Rightarrow> string \<Rightarrow> 'w \<Rightarrow> 'w \<times> string \<times> bool" where
  "fetch_post rv uri w =
     (case rv_get rv (rv_base rv @ ''/xrpc/app.bsky.feed.getPosts?uris='' @ query_escape uri) w of
        (w', Inl err) \<Rightarrow> (w', [], False)
      | (w', Inr resp) \<Rightarrow>
          (w', if hp_status resp \<noteq> 200 then ([], False)
               else case decode_first (dec_struct get_posts_fields) [] (hp_body resp) of
                 None \<Rightarrow> ([], False)
               | Some [] \<Rightarrow> ([], False)
               | Some (p # _) \<Rightarrow> (pi_text p, True)))"

definition post_ttl :: "post_entry \<Rightarrow> int" where
  "post_ttl e = (if snd e then 5 * 60 * 1000000000 else 24 * hour)"

definition resolve_text ::
  "'w resolver \<Rightarrow> range_order \<Rightarrow> int \<Rightarrow> int \<Rightarrow> string \<Rightarrow> post_entry cache \<times> 'w
     \<Rightarrow> ((post_entry cache \<times> 'w) \<times> string) option" where
  "resolve_text rv order t1 t2 uri s =
     (if uri = [] then Some (s, [])
      else case fresh_entry post_ttl (fst s) uri t1 of
        Some e \<Rightarrow> Some (s, fst e)
      | None \<Rightarrow>
          let (w', text, ok) = fetch_post rv uri (snd s) in
          map_option (\<lambda>c'. ((c', w'), text))
            (cache_insert order (rv_cap rv) uri (text, \<not> ok) t2 (fst s)))"

subsection \<open>Both keep the contract\<close>

lemma fetch_post_negative: "fetch_post rv uri w = (w', text, False) \<Longrightarrow> text = []"
  by (auto simp: fetch_post_def split: prod.splits sum.splits option.splits list.splits if_splits)

lemma profile_contract:
  fixes rv :: "'w resolver"
  assumes "0 < rv_cap rv"
  shows "caching_resolver (resolve_profile rv) (rv_cap rv) (\<lambda>_. Some hour)"
proof
  fix order and c :: "profile cache" and t1 t2 k and w :: 'w
  assume a: "permutes order" "cache_ok (rv_cap rv) c"
  show "\<exists>c' w' r. resolve_profile rv order t1 t2 k (c, w) = Some ((c', w'), r) \<and>
      cache_ok (rv_cap rv) c'"
  proof (cases "fresh_entry (\<lambda>_. hour) c k t1")
    case None
    obtain w' p where "fetch_profile rv k w = (w', p)" by (cases "fetch_profile rv k w")
    with None a show ?thesis
      by (auto simp: resolve_profile_def intro: cache_insert_ok [OF a assms, of k p t2])
  qed (use a in \<open>simp add: resolve_profile_def\<close>)
next
  fix order and c c' :: "profile cache" and t1 t2 k and w w' :: 'w and r
  assume a: "permutes order" "cache_ok (rv_cap rv) c"
    and run: "resolve_profile rv order t1 t2 k (c, w) = Some ((c', w'), r)"
  show "(c' = c \<and> w' = w) \<or> (\<forall>d order' t3 t4. Some hour = Some d \<longrightarrow> t3 - t2 < d \<longrightarrow>
      resolve_profile rv order' t3 t4 k (c', w') = Some ((c', w'), r))"
  proof (cases "fresh_entry (\<lambda>_. hour) c k t1")
    case None
    then have ins: "cache_insert order (rv_cap rv) k r t2 c = Some c'"
      using run by (auto simp: resolve_profile_def split: prod.splits)
    show ?thesis
      using ins by (auto simp: resolve_profile_def fresh_entry_def
          intro: cache_insert_ok [OF a assms, of k r t2])
  qed (use run in \<open>simp add: resolve_profile_def\<close>)
qed

lemma post_text_contract:
  fixes rv :: "'w resolver"
  assumes "0 < rv_cap rv"
  shows "caching_resolver (resolve_text rv) (rv_cap rv)
    (\<lambda>text. Some (if text = [] then 5 * 60 * 1000000000 else 24 * hour))"
proof
  fix order and c :: "post_entry cache" and t1 t2 k and w :: 'w
  assume a: "permutes order" "cache_ok (rv_cap rv) c"
  show "\<exists>c' w' r. resolve_text rv order t1 t2 k (c, w) = Some ((c', w'), r) \<and>
      cache_ok (rv_cap rv) c'"
  proof (cases "fresh_entry post_ttl c k t1")
    case None
    obtain w' body ok where "fetch_post rv k w = (w', body, ok)" by (metis prod_cases3)
    with None a show ?thesis
      by (auto simp: resolve_text_def intro: cache_insert_ok [OF a assms, of k "(body, \<not> ok)" t2])
  qed (use a in \<open>simp add: resolve_text_def\<close>)
next
  fix order and c c' :: "post_entry cache" and t1 t2 k and w w' :: 'w and r
  assume a: "permutes order" "cache_ok (rv_cap rv) c"
    and run: "resolve_text rv order t1 t2 k (c, w) = Some ((c', w'), r)"
  show "(c' = c \<and> w' = w) \<or> (\<forall>d order' t3 t4.
      Some (if r = [] then 5 * 60 * 1000000000 else 24 * hour) = Some d \<longrightarrow> t3 - t2 < d \<longrightarrow>
      resolve_text rv order' t3 t4 k (c', w') = Some ((c', w'), r))"
  proof (cases "k = [] \<or> fresh_entry post_ttl c k t1 \<noteq> None")
    case False
    then have miss: "k \<noteq> []" "fresh_entry post_ttl c k t1 = None" by blast+
    then obtain ok where fetch: "fetch_post rv k w = (w', r, ok)"
      and ins: "cache_insert order (rv_cap rv) k (r, \<not> ok) t2 c = Some c'"
      using run by (auto simp: resolve_text_def split: prod.splits)
    have "ok \<or> r = []" using fetch_post_negative fetch by (cases ok) auto
    then have "(if r = [] then 5 * 60 * 1000000000 else 24 * hour) \<le> post_ttl (r, \<not> ok)"
      by (auto simp: post_ttl_def hour_def)
    moreover obtain "map_of c' k = Some ((r, \<not> ok), t2)"
      using cache_insert_ok [OF a assms, of k "(r, \<not> ok)" t2] ins by (metis option.inject)
    ultimately show ?thesis
      using miss by (auto simp: resolve_text_def fresh_entry_def)
  qed (use run in \<open>auto simp: resolve_text_def\<close>)
qed

interpretation profiles: caching_resolver
  "resolve_profile (set_api_base_url base (new_profile_resolver get max_size))" "resolver_cap max_size" "\<lambda>_. Some hour" for base get max_size
  using profile_contract [of "set_api_base_url base (new_profile_resolver get max_size)"] by simp

interpretation post_texts: caching_resolver
  "resolve_text (set_api_base_url base (new_post_text_resolver get max_size))" "resolver_cap max_size"
  "\<lambda>text. Some (if text = [] then 5 * 60 * 1000000000 else 24 * hour)" for base get max_size
  using post_text_contract [of "set_api_base_url base (new_post_text_resolver get max_size)"]
  by simp

end
