(* ===== verification/Did_Resolver.thy ===== *)
theory Did_Resolver
  imports Resolvers Ec_Keys Go_Base64 Go_Utf8
begin

text \<open>
  The DID resolver (\<open>internal/did/resolver.go\<close>): fetching and caching of documents, and the
  extraction of the signing key. \<open>client.Get\<close>, behind which the dialer of \<open>Ip_Guard\<close>
  works, and the point decompression of secp256k1 (a third-party package) are arguments.
\<close>

subsection \<open>Documents\<close>

record jwk =
  jwk_kty :: string
  jwk_crv :: string
  jwk_x :: string
  jwk_y :: string

record verification_method =
  vm_id :: string
  vm_type :: string
  vm_controller :: string
  vm_multibase :: string
  vm_jwk :: "jwk option"

record did_document =
  dd_id :: string
  dd_methods :: "verification_method list"

definition empty_jwk :: jwk where
  "empty_jwk = \<lparr>jwk_kty = [], jwk_crv = [], jwk_x = [], jwk_y = []\<rparr>"

definition empty_method :: verification_method where
  "empty_method = \<lparr>vm_id = [], vm_type = [], vm_controller = [], vm_multibase = [], vm_jwk = None\<rparr>"

definition jwk_fields :: "(string \<times> jwk decoder) list" where
  "jwk_fields =
     [(''kty'', dec_field jwk_kty (\<lambda>x r. r\<lparr>jwk_kty := x\<rparr>) dec_string),
      (''crv'', dec_field jwk_crv (\<lambda>x r. r\<lparr>jwk_crv := x\<rparr>) dec_string),
      (''x'', dec_field jwk_x (\<lambda>x r. r\<lparr>jwk_x := x\<rparr>) dec_string),
      (''y'', dec_field jwk_y (\<lambda>x r. r\<lparr>jwk_y := x\<rparr>) dec_string)]"

definition method_fields :: "(string \<times> verification_method decoder) list" where
  "method_fields =
     [(''id'', dec_field vm_id (\<lambda>x r. r\<lparr>vm_id := x\<rparr>) dec_string),
      (''type'', dec_field vm_type (\<lambda>x r. r\<lparr>vm_type := x\<rparr>) dec_string),
      (''controller'', dec_field vm_controller (\<lambda>x r. r\<lparr>vm_controller := x\<rparr>) dec_string),
      (''publicKeyMultibase'', dec_field vm_multibase (\<lambda>x r. r\<lparr>vm_multibase := x\<rparr>) dec_string),
      (''publicKeyJwk'',
        dec_field vm_jwk (\<lambda>x r. r\<lparr>vm_jwk := x\<rparr>) (dec_ptr (dec_struct jwk_fields) empty_jwk))]"

definition document_fields :: "(string \<times> did_document decoder) list" where
  "document_fields =
     [(''id'', dec_field dd_id (\<lambda>x r. r\<lparr>dd_id := x\<rparr>) dec_string),
      (''verificationMethod'', dec_field dd_methods (\<lambda>x r. r\<lparr>dd_methods := x\<rparr>)
        (dec_slice (dec_struct method_fields) empty_method))]"

subsection \<open>Fetching\<close>

datatype did_error =
    UnsupportedMethod string
  | BlockedHost string
  | FetchFailed string string
  | BadStatus string nat
  | DecodeFailed string

definition max_doc_bytes :: nat where
  "max_doc_bytes = 256 * 1024"

definition did_url :: "string \<Rightarrow> did_error + string" where
  "did_url did =
     (if has_prefix did ''did:plc:'' then Inr (''https://plc.directory/'' @ did)
      else if has_prefix did ''did:web:'' then
        (let domain = replace_char (CHR '':'') (CHR ''/'') (trim_prefix did ''did:web:'') in
         if domain = ''localhost'' \<or> has_prefix domain ''localhost:'' \<or> has_prefix domain ''localhost/''
         then Inl (BlockedHost domain)
         else Inr (''https://'' @ domain @ ''/.well-known/did.json''))
      else Inl (UnsupportedMethod did))"

definition fetch_did_document ::
  "'w http_get \<Rightarrow> string \<Rightarrow> 'w \<Rightarrow> 'w \<times> (did_error + did_document)" where
  "fetch_did_document get did w =
     (case did_url did of
        Inl err \<Rightarrow> (w, Inl err)
      | Inr url \<Rightarrow>
          (case get url w of
             (w', Inl cause) \<Rightarrow> (w', Inl (FetchFailed did cause))
           | (w', Inr resp) \<Rightarrow>
               (w', if hp_status resp \<noteq> 200 then Inl (BadStatus did (hp_status resp))
                    else case decode_first (dec_struct document_fields)
                                \<lparr>dd_id = [], dd_methods = []\<rparr> (take max_doc_bytes (hp_body resp)) of
                      None \<Rightarrow> Inl (DecodeFailed did)
                    | Some doc \<Rightarrow> Inr doc)))"

text \<open>
  The colons of a did:web identifier are gone when the host is compared, so the second comparison
  can never hold, and a path is put before the well-known location.
\<close>

lemma replaced_colon: "CHR '':'' \<notin> set (replace_char (CHR '':'') (CHR ''/'') s)"
  by (auto simp: replace_char_def)

lemma localhost_port_test_dead:
  "\<not> has_prefix (replace_char (CHR '':'') (CHR ''/'') s) ''localhost:''"
proof
  assume "has_prefix (replace_char (CHR '':'') (CHR ''/'') s) ''localhost:''"
  then obtain t where "replace_char (CHR '':'') (CHR ''/'') s = ''localhost:'' @ t"
    by (rule has_prefixE)
  then have "CHR '':'' \<in> set (replace_char (CHR '':'') (CHR ''/'') s)" by simp
  with replaced_colon show False by blast
qed

lemma did_web_path:
  "did_url ''did:web:example.com:user'' = Inr ''https://example.com/user/.well-known/did.json''"
  by (simp add: did_url_def has_prefix_def trim_prefix_def replace_char_def)

definition did_ttl :: int where
  "did_ttl = 5 * 60 * 1000000000"

definition new_did_resolver :: "'w http_get \<Rightarrow> int \<Rightarrow> 'w resolver" where
  "new_did_resolver get max_size = \<lparr>rv_get = get, rv_base = [], rv_cap = resolver_cap max_size\<rparr>"

definition resolve_did ::
  "'w resolver \<Rightarrow> range_order \<Rightarrow> int \<Rightarrow> int \<Rightarrow> string \<Rightarrow> did_document cache \<times> 'w
     \<Rightarrow> ((did_document cache \<times> 'w) \<times> (did_error + did_document)) option" where
  "resolve_did rv order t1 t2 did s =
     (case fresh_entry (\<lambda>_. did_ttl) (fst s) did t1 of
        Some doc \<Rightarrow> Some (s, Inr doc)
      | None \<Rightarrow>
          (case fetch_did_document (rv_get rv) did (snd s) of
             (w', Inl err) \<Rightarrow> Some ((fst s, w'), Inl err)
           | (w', Inr doc) \<Rightarrow>
               map_option (\<lambda>c'. ((c', w'), Inr doc))
                 (cache_insert order (rv_cap rv) did doc t2 (fst s))))"

text \<open>A failure is not kept; a document for five minutes.\<close>

definition did_keeps :: "did_error + did_document \<Rightarrow> int option" where
  "did_keeps r = (case r of Inl _ \<Rightarrow> None | Inr _ \<Rightarrow> Some did_ttl)"

lemma did_contract:
  fixes rv :: "'w resolver"
  assumes "0 < rv_cap rv"
  shows "caching_resolver (resolve_did rv) (rv_cap rv) did_keeps"
proof
  fix order and c :: "did_document cache" and t1 t2 k and w :: 'w
  assume a: "permutes order" "cache_ok (rv_cap rv) c"
  show "\<exists>c' w' r. resolve_did rv order t1 t2 k (c, w) = Some ((c', w'), r) \<and> cache_ok (rv_cap rv) c'"
  proof (cases "fresh_entry (\<lambda>_. did_ttl) c k t1")
    case None
    obtain w' r where fetch: "fetch_did_document (rv_get rv) k w = (w', r)" by fastforce
    show ?thesis
    proof (cases r)
      case (Inr doc)
      with None fetch a show ?thesis
        by (auto simp: resolve_did_def intro: cache_insert_ok [OF a assms, of k doc t2])
    qed (use None fetch a in \<open>simp add: resolve_did_def\<close>)
  qed (use a in \<open>simp add: resolve_did_def\<close>)
next
  fix order and c c' :: "did_document cache" and t1 t2 k and w w' :: 'w and r
  assume a: "permutes order" "cache_ok (rv_cap rv) c"
    and run: "resolve_did rv order t1 t2 k (c, w) = Some ((c', w'), r)"
  show "(c' = c \<and> w' = w) \<or> (\<forall>d order' t3 t4. did_keeps r = Some d \<longrightarrow> t3 - t2 < d \<longrightarrow>
      resolve_did rv order' t3 t4 k (c', w') = Some ((c', w'), r))"
  proof (cases "fresh_entry (\<lambda>_. did_ttl) c k t1")
    case None
    show ?thesis
    proof (cases r)
      case (Inr doc)
      then have "cache_insert order (rv_cap rv) k doc t2 c = Some c'"
        using run None by (auto simp: resolve_did_def split: prod.splits sum.splits)
      then have "map_of c' k = Some (doc, t2)"
        using cache_insert_ok [OF a assms, of k doc t2] by (metis option.inject)
      then show ?thesis by (auto simp: resolve_did_def fresh_entry_def did_keeps_def Inr)
    qed (simp add: did_keeps_def)
  qed (use run in \<open>simp add: resolve_did_def\<close>)
qed

interpretation dids: caching_resolver
  "resolve_did (new_did_resolver get max_size)" "resolver_cap max_size" did_keeps for get max_size
  using did_contract [of "new_did_resolver get max_size"] by (simp add: new_did_resolver_def)

text \<open>
  C22: Whatever sequence of questions the three resolvers are asked, from an empty cache, with any
  clock readings, any answers of the network, any order in which maps are visited and any configured
  size, eviction never reads past its list, every question is answered, and the cache never holds
  more entries than its configured size (or the default for a size that is not positive).\<close>

theorem resolver_caches_bounded:
  assumes "\<forall>q \<in> set qs. permutes (fst q)"
  shows "(\<exists>c w' rs. resolve_all (resolve_did (new_did_resolver get size1)) qs ([], w) =
        Some ((c, w'), rs) \<and> length c \<le> resolver_cap size1 \<and> length rs = length qs) \<and>
    (\<exists>c w' rs. resolve_all (resolve_profile (set_api_base_url base (new_profile_resolver get size2)))
        qs ([], w) = Some ((c, w'), rs) \<and> length c \<le> resolver_cap size2 \<and> length rs = length qs) \<and>
    (\<exists>c w' rs. resolve_all (resolve_text (set_api_base_url base (new_post_text_resolver get size3)))
        qs ([], w) = Some ((c, w'), rs) \<and> length c \<le> resolver_cap size3 \<and> length rs = length qs)"
proof (intro conjI)
  have empty: "cache_ok cap []" for cap :: nat by (simp add: cache_ok_def)
  show "\<exists>c w' rs. resolve_all (resolve_did (new_did_resolver get size1)) qs ([], w) =
        Some ((c, w'), rs) \<and> length c \<le> resolver_cap size1 \<and> length rs = length qs"
    using dids.resolve_all_bounded [OF assms empty, of get size1 w] by (fastforce simp: cache_ok_def)
  show "\<exists>c w' rs. resolve_all (resolve_profile (set_api_base_url base (new_profile_resolver get size2)))
        qs ([], w) = Some ((c, w'), rs) \<and> length c \<le> resolver_cap size2 \<and> length rs = length qs"
    using profiles.resolve_all_bounded [OF assms empty, of base get size2 w]
    by (fastforce simp: cache_ok_def)
  show "\<exists>c w' rs. resolve_all (resolve_text (set_api_base_url base (new_post_text_resolver get size3)))
        qs ([], w) = Some ((c, w'), rs) \<and> length c \<le> resolver_cap size3 \<and> length rs = length qs"
    using post_texts.resolve_all_bounded [OF assms empty, of base get size3 w]
    by (fastforce simp: cache_ok_def)
qed

theorem resolver_caches_bounded_witness:
  "\<exists>c w' rs. resolve_all (resolve_text (set_api_base_url [] (new_post_text_resolver
        (\<lambda>_ w. (w + 1, Inl ''EOF'')) 1))) [(id, 0, 0, ''at://a''), (rev, 1, 1, ''at://b'')] ([], 0 :: nat) =
     Some ((c, w'), rs) \<and> length c \<le> 1"
  using resolver_caches_bounded [of "[(id, 0, 0, ''at://a''), (rev, 1, 1, ''at://b'')]"
      "\<lambda>_ w. (w + 1, Inl ''EOF'')" 1 "0 :: nat" "[]" 1 1]
  by (auto simp: permutes_def resolver_cap_def)

end
