(* ===== verification/Signing_Keys.thy ===== *)
theory Signing_Keys
  imports Did_Resolver
begin

text \<open>
  The extraction of the atproto signing key from a DID document (the second half of
  \<open>internal/did/resolver.go\<close>): JWK and multibase keys, and the base58 decoder.
\<close>

subsection \<open>Base58\<close>

definition base58_alphabet :: string where
  "base58_alphabet = ''123456789ABCDEFGHJKLMNPQRSTUVWXYZabcdefghijkmnopqrstuvwxyz''"

definition base58_digit :: "nat \<Rightarrow> nat option" where
  "base58_digit r =
     (if r < 0x80 \<and> byte_char r \<in> set base58_alphabet
      then Some (length (takeWhile (\<lambda>c. c \<noteq> byte_char r) base58_alphabet))
      else None)"

fun base58_value :: "nat \<Rightarrow> nat list \<Rightarrow> nat option" where
  "base58_value n [] = Some n"
| "base58_value n (r # rs) =
     (case base58_digit r of None \<Rightarrow> None | Some d \<Rightarrow> base58_value (n * 58 + d) rs)"

text \<open>\<open>big.Int.Bytes\<close>: big-endian without leading zeros.\<close>

fun be_bytes :: "nat \<Rightarrow> string" where
  "be_bytes n = (if n = 0 then [] else be_bytes (n div 256) @ [byte_char (n mod 256)])"

declare be_bytes.simps [simp del]

definition base58_decode :: "string \<Rightarrow> string option" where
  "base58_decode s =
     (case base58_value 0 (runes s) of
        None \<Rightarrow> None
      | Some n \<Rightarrow>
          Some (replicate (length (takeWhile (\<lambda>r. r = 49) (runes s))) (CHR 0x00) @ be_bytes n))"

subsection \<open>Keys\<close>

datatype key_error =
    NoKeyMaterial string
  | NoMethod string
  | BadKeyType string
  | BadJwkX
  | BadJwkY
  | BadCurve string
  | MultibaseTooShort
  | BadMultibasePrefix char
  | BadBase58
  | DecodedTooShort
  | SecpKeyError string
  | P256KeyError
  | BadMulticodec nat nat

definition parse_jwk_key :: "jwk \<Rightarrow> key_error + ec_key" where
  "parse_jwk_key k =
     (if jwk_kty k \<noteq> ''EC'' then Inl (BadKeyType (jwk_kty k))
      else case b64_decode raw_url_encoding (jwk_x k) of
        None \<Rightarrow> Inl BadJwkX
      | Some x \<Rightarrow>
          (case b64_decode raw_url_encoding (jwk_y k) of
             None \<Rightarrow> Inl BadJwkY
           | Some y \<Rightarrow>
               if jwk_crv k = ''secp256k1''
               then Inr \<lparr>ec_curve = Secp256k1, ec_x = be_value x, ec_y = be_value y\<rparr>
               else if jwk_crv k = ''P-256''
               then Inr \<lparr>ec_curve = P256, ec_x = be_value x, ec_y = be_value y\<rparr>
               else Inl (BadCurve (jwk_crv k))))"

definition parse_multibase_key ::
  "(string \<Rightarrow> string + nat \<times> nat) \<Rightarrow> string \<Rightarrow> key_error + ec_key" where
  "parse_multibase_key secp multibase =
     (if length multibase < 2 then Inl MultibaseTooShort
      else if multibase ! 0 \<noteq> CHR ''z'' then Inl (BadMultibasePrefix (multibase ! 0))
      else case base58_decode (drop 1 multibase) of
        None \<Rightarrow> Inl BadBase58
      | Some decoded \<Rightarrow>
          if length decoded < 2 then Inl DecodedTooShort
          else if length decoded = 35 \<and> byte (decoded ! 0) = 0xE7 \<and> byte (decoded ! 1) = 0x01 then
            (case secp (drop 2 decoded) of
               Inl err \<Rightarrow> Inl (SecpKeyError err)
             | Inr (x, y) \<Rightarrow> Inr \<lparr>ec_curve = Secp256k1, ec_x = x, ec_y = y\<rparr>)
          else if length decoded = 35 \<and> byte (decoded ! 0) = 0x80 \<and> byte (decoded ! 1) = 0x24 then
            (case p256_decompress (drop 2 decoded) of
               None \<Rightarrow> Inl P256KeyError
             | Some (x, y) \<Rightarrow> Inr \<lparr>ec_curve = P256, ec_x = x, ec_y = y\<rparr>)
          else Inl (BadMulticodec (byte (decoded ! 0)) (byte (decoded ! 1))))"

fun find_signing_key ::
  "(string \<Rightarrow> string + nat \<times> nat) \<Rightarrow> string \<Rightarrow> verification_method list \<Rightarrow> key_error + ec_key" where
  "find_signing_key secp did [] = Inl (NoMethod did)"
| "find_signing_key secp did (vm # vms) =
     (if \<not> contains_str (vm_id vm) ''#atproto'' then find_signing_key secp did vms
      else case vm_jwk vm of
        Some k \<Rightarrow> parse_jwk_key k
      | None \<Rightarrow>
          if vm_multibase vm \<noteq> [] then parse_multibase_key secp (vm_multibase vm)
          else Inl (NoKeyMaterial (vm_id vm)))"

definition get_signing_key ::
  "(string \<Rightarrow> string + nat \<times> nat) \<Rightarrow> did_document \<Rightarrow> key_error + ec_key" where
  "get_signing_key secp doc = find_signing_key secp (dd_id doc) (dd_methods doc)"

subsection \<open>The base58 decoder inverts the encoding\<close>

text \<open>The reference: one \<open>1\<close> for each leading zero byte, then the digits of the number.\<close>

fun digits58 :: "nat \<Rightarrow> string" where
  "digits58 n = (if n = 0 then [] else digits58 (n div 58) @ [base58_alphabet ! (n mod 58)])"

declare digits58.simps [simp del]

definition zero_bytes :: "string \<Rightarrow> nat" where
  "zero_bytes bs = length (takeWhile (\<lambda>c. c = CHR 0x00) bs)"

definition base58_encode :: "string \<Rightarrow> string" where
  "base58_encode bs = replicate (zero_bytes bs) (CHR ''1'') @ digits58 (be_value bs)"

lemma base58_digit_alphabet:
  "list_all (\<lambda>i. byte (base58_alphabet ! i) < 0x80 \<and>
      base58_digit (byte (base58_alphabet ! i)) = Some i \<and>
      (byte (base58_alphabet ! i) = 49 \<longleftrightarrow> i = 0)) [0..<58]"
  by code_simp

lemma digit_of_alphabet:
  assumes "i < 58"
  shows "byte (base58_alphabet ! i) < 0x80" "base58_digit (byte (base58_alphabet ! i)) = Some i"
    "byte (base58_alphabet ! i) = 49 \<longleftrightarrow> i = 0"
  using base58_digit_alphabet assms by (auto simp: list_all_iff)

lemma digits58_ascii: "c \<in> set (digits58 n) \<Longrightarrow> byte c < 0x80"
proof (induction n rule: digits58.induct)
  case (1 n)
  then show ?case
    using digit_of_alphabet(1) [of "n mod 58"]
    by (subst (asm) (2) digits58.simps) (auto split: if_splits)
qed

lemma runes_ascii_map: "\<forall>c \<in> set s. byte c < 0x80 \<Longrightarrow> runes s = map byte s"
proof (induction s)
  case (Cons c s)
  have "byte c < 0x80" using Cons.prems by simp
  then have "runes (c # s) = byte c # runes s" by (rule runes_ascii)
  with Cons show ?case by simp
qed simp

lemma base58_value_append:
  "base58_value n (xs @ ys) = Option.bind (base58_value n xs) (\<lambda>m. base58_value m ys)"
  by (induction xs arbitrary: n) (auto split: option.split)

lemma base58_value_digits:
  "base58_value 0 (map byte (digits58 n)) = Some n"
proof (induction n rule: digits58.induct)
  case (1 n)
  show ?case
  proof (cases "n = 0")
    case False
    have "base58_digit (byte (base58_alphabet ! (n mod 58))) = Some (n mod 58)"
      by (rule digit_of_alphabet) simp
    then show ?thesis
      using 1 [OF False] False by (simp add: digits58.simps [of n] base58_value_append)
  qed (simp add: digits58.simps)
qed

lemma base58_value_ones: "base58_value 0 (replicate k 49 @ xs) = base58_value 0 xs"
proof (induction k)
  case (Suc k)
  have "base58_digit 49 = Some 0" using digit_of_alphabet(2) [of 0] by (simp add: base58_alphabet_def)
  with Suc show ?case by simp
qed simp

lemma digits58_head:
  "0 < n \<Longrightarrow> digits58 n \<noteq> [] \<and> byte (hd (digits58 n)) \<noteq> 49"
proof (induction n rule: digits58.induct)
  case (1 n)
  show ?case
  proof (cases "n div 58 = 0")
    case True
    then have "n < 58" by simp
    then show ?thesis
      using 1 digit_of_alphabet(3) [of n] by (simp add: digits58.simps [of n] digits58.simps [of 0])
  next
    case False
    then show ?thesis using 1 by (simp add: digits58.simps [of n])
  qed
qed

lemma be_value_snoc: "be_value (bs @ [c]) = be_value bs * 256 + byte c"
  by (simp add: be_value_def)

lemma be_value_zero: "be_value bs = 0 \<longleftrightarrow> (\<forall>c \<in> set bs. c = CHR 0x00)"
proof (induction bs rule: rev_induct)
  case (snoc c bs)
  have nul: "byte_char 0 = CHR 0x00" by code_simp
  have "byte c = 0 \<longleftrightarrow> c = CHR 0x00" using byte_eq_iff [of 0 c] by (simp add: nul)
  with snoc show ?case by (auto simp: be_value_snoc)
qed (simp add: be_value_def)

lemma be_bytes_value:
  "be_bytes (be_value bs) = dropWhile (\<lambda>c. c = CHR 0x00) bs"
proof (induction bs rule: rev_induct)
  case (snoc c bs)
  show ?case
  proof (cases "be_value (bs @ [c]) = 0")
    case True
    then have "\<forall>x \<in> set (bs @ [c]). x = CHR 0x00" by (simp only: be_value_zero)
    then have "dropWhile (\<lambda>c. c = CHR 0x00) (bs @ [c]) = []" by (simp only: dropWhile_eq_Nil_conv)
    moreover have "be_bytes 0 = []" by (simp add: be_bytes.simps)
    ultimately show ?thesis using True by simp
  next
    case False
    have q: "(be_value bs * 256 + byte c) div 256 = be_value bs"
      "(be_value bs * 256 + byte c) mod 256 = byte c" using byte_lt [of c] by simp_all
    have c: "byte_char (byte c) = c" by (rule char_of_char)
    have unfold: "be_bytes (be_value (bs @ [c])) = be_bytes (be_value bs) @ [c]"
      using False by (simp only: be_bytes.simps [of "be_value (bs @ [c])"] if_False)
        (simp only: be_value_snoc q c)
    show ?thesis
    proof (cases "\<exists>x \<in> set bs. x \<noteq> CHR 0x00")
      case True
      then obtain x where "x \<in> set bs" "x \<noteq> CHR 0x00" by blast
      from dropWhile_append1 [of x bs "\<lambda>c. c = CHR 0x00" "[c]", OF this] show ?thesis using snoc unfold by simp
    next
      case allz: False
      then have "c \<noteq> CHR 0x00" using False be_value_zero [of "bs @ [c]"] by auto
      moreover have "dropWhile (\<lambda>c. c = CHR 0x00) bs = []"
        using allz by (simp add: dropWhile_eq_Nil_conv)
      ultimately show ?thesis using snoc unfold allz by (simp add: dropWhile_append2)
    qed
  qed
qed (simp add: be_value_def be_bytes.simps)

lemma takeWhile_replicate_head:
  "P x \<Longrightarrow> ys = [] \<or> \<not> P (hd ys) \<Longrightarrow> takeWhile P (replicate k x @ ys) = replicate k x"
  by (induction k) (cases ys; auto)+

lemma zero_bytes_split:
  "replicate (zero_bytes bs) (CHR 0x00) @ dropWhile (\<lambda>c. c = CHR 0x00) bs = bs"
proof -
  have "takeWhile (\<lambda>c. c = CHR 0x00) bs = replicate (zero_bytes bs) (CHR 0x00)"
    unfolding zero_bytes_def by (rule replicate_eqI) (auto dest: set_takeWhileD)
  then show ?thesis by (metis takeWhile_dropWhile_id)
qed

lemma base58_encoded_runes:
  "runes (base58_encode bs) = replicate (zero_bytes bs) 49 @ map byte (digits58 (be_value bs))"
proof -
  have one: "byte (CHR ''1'') = 49" by simp
  have "\<forall>c \<in> set (base58_encode bs). byte c < 0x80"
    using digits58_ascii one by (auto simp: base58_encode_def set_replicate_conv_if)
  from runes_ascii_map [OF this] show ?thesis
    by (simp only: base58_encode_def map_append map_replicate one)
qed

theorem base58_roundtrip: "base58_decode (base58_encode bs) = Some bs"
proof -
  let ?ds = "map byte (digits58 (be_value bs))"
  have "?ds = [] \<or> hd ?ds \<noteq> 49"
    using digits58_head [of "be_value bs"] by (cases "be_value bs = 0") (auto simp: digits58.simps [of 0] hd_map)
  then have "takeWhile (\<lambda>r. r = 49) (replicate (zero_bytes bs) 49 @ ?ds) = replicate (zero_bytes bs) 49"
    by (intro takeWhile_replicate_head) auto
  then show ?thesis
    by (simp add: base58_decode_def base58_encoded_runes base58_value_ones base58_value_digits
        be_bytes_value zero_bytes_split)
qed

lemma digits58_not_Nil: "0 < n \<Longrightarrow> digits58 n \<noteq> []"
  using digits58_head by blast

text \<open>
  C31: The multibase form of a compressed key, the letter z before the base58 text of its multicodec
  prefix and its 33 bytes, is read back as exactly that key: for P-256 the point with the given
  x coordinate and parity, which is a point of the curve, for secp256k1 what the curve package
  makes of the bytes.\<close>

theorem multibase_roundtrip:
  assumes "length raw = 33"
  shows "(p256_decompress raw = Some (x, y) \<longrightarrow>
      parse_multibase_key secp (CHR ''z'' # base58_encode ([CHR 0x80, CHR 0x24] @ raw)) =
        Inr \<lparr>ec_curve = P256, ec_x = x, ec_y = y\<rparr> \<and> on_p256 x y \<and> x = be_value (drop 1 raw)) \<and>
    (secp raw = Inr (x, y) \<longrightarrow>
      parse_multibase_key secp (CHR ''z'' # base58_encode ([CHR 0xE7, CHR 0x01] @ raw)) =
        Inr \<lparr>ec_curve = Secp256k1, ec_x = x, ec_y = y\<rparr>)"
proof -
  have long: "2 \<le> length (CHR ''z'' # base58_encode (c # cs))" if "c \<noteq> CHR 0x00" for c cs
  proof -
    have "be_value (c # cs) \<noteq> 0" using be_value_zero [of "c # cs"] that by simp
    then show ?thesis using digits58_not_Nil [of "be_value (c # cs)"]
      by (cases "digits58 (be_value (c # cs))") (auto simp: base58_encode_def)
  qed
  have parse: "parse_multibase_key secp (CHR ''z'' # base58_encode (c # cs)) =
      (if length (c # cs) < 2 then Inl DecodedTooShort
          else if length (c # cs) = 35 \<and> byte ((c # cs) ! 0) = 0xE7 \<and> byte ((c # cs) ! 1) = 0x01 then
            (case secp (drop 2 (c # cs)) of
               Inl err \<Rightarrow> Inl (SecpKeyError err)
             | Inr (x, y) \<Rightarrow> Inr \<lparr>ec_curve = Secp256k1, ec_x = x, ec_y = y\<rparr>)
          else if length (c # cs) = 35 \<and> byte ((c # cs) ! 0) = 0x80 \<and> byte ((c # cs) ! 1) = 0x24 then
            (case p256_decompress (drop 2 (c # cs)) of
               None \<Rightarrow> Inl P256KeyError
             | Some (x, y) \<Rightarrow> Inr \<lparr>ec_curve = P256, ec_x = x, ec_y = y\<rparr>)
          else Inl (BadMulticodec (byte ((c # cs) ! 0)) (byte ((c # cs) ! 1))))"
    if "c \<noteq> CHR 0x00" for c cs
  proof -
    have "\<not> length (CHR ''z'' # base58_encode (c # cs)) < 2" using long [OF that, of cs] by (simp only: not_less)
    then show ?thesis
      unfolding parse_multibase_key_def by (simp only: if_False nth_Cons_0 drop_Suc_Cons drop_0
          One_nat_def base58_roundtrip option.case simp_thms)
  qed
  have p256: "p256_decompress raw = Some (x, y) \<Longrightarrow> on_p256 x y \<and> x = be_value (drop 1 raw)"
    using p256_decompress_sound by blast
  show ?thesis
    using assms p256 by (auto simp: parse)
qed

theorem multibase_roundtrip_witness:
  "parse_multibase_key (\<lambda>_. Inr (1, 2))
     (CHR ''z'' # base58_encode ([CHR 0xE7, CHR 0x01] @ replicate 33 (CHR 0x02))) =
   Inr \<lparr>ec_curve = Secp256k1, ec_x = 1, ec_y = 2\<rparr>"
  using multibase_roundtrip [of "replicate 33 (CHR 0x02)" 1 2 "\<lambda>_. Inr (1, 2)"] by simp

subsection \<open>Which method is taken\<close>

text \<open>
  The key of a labeler is taken for the signing key of the account when its method comes first: the
  test looks for the text of the fragment anywhere in the identifier.
\<close>

lemma label_key_taken:
  assumes "vm_id vm = did @ ''#atproto_label''" and "vm_jwk vm = Some k"
  shows "get_signing_key secp \<lparr>dd_id = did, dd_methods = vm # vms\<rparr> = parse_jwk_key k"
proof -
  have "contains_str (vm_id vm) ''#atproto''"
    unfolding contains_str_def sublist_def assms(1)
    by (intro exI [of _ did] exI [of _ "''_label''"]) simp
  then show ?thesis by (simp add: get_signing_key_def assms(2))
qed

end
