(* ===== verification/Blocks_Backfill.thy ===== *)
theory Blocks_Backfill
  imports Store_Theorems Resolvers Go_Json_Roundtrip
begin

text \<open>
  The backfill of block records (\<open>internal/xrpc/blocks.go\<close>): the claim made after a
  registration, and the goroutine that reads the account's block records page by page and adds
  them to the store. The network is the function behind \<open>backfillClient.Get\<close>.
\<close>

subsection \<open>One page\<close>

record block_record =
  br_uri :: string
  br_subject :: string

record block_page =
  pg_records :: "block_record list"
  pg_cursor :: string

datatype backfill_log =
    LogFetchFailed string
  | LogHttpStatus nat
  | LogParseFailed
  | LogEmptyRKey string
  | LogAddFailed store_error
  | LogSeeded nat
  | LogClaimFailed store_error

definition subject_value_fields :: "(string \<times> block_record decoder) list" where
  "subject_value_fields =
     [(''subject'', dec_field br_subject (\<lambda>x r. r\<lparr>br_subject := x\<rparr>) dec_string)]"

definition block_record_fields :: "(string \<times> block_record decoder) list" where
  "block_record_fields =
     [(''uri'', dec_field br_uri (\<lambda>x r. r\<lparr>br_uri := x\<rparr>) dec_string),
      (''value'', dec_struct subject_value_fields)]"

definition block_page_fields :: "(string \<times> block_page decoder) list" where
  "block_page_fields =
     [(''records'', dec_field pg_records (\<lambda>x r. r\<lparr>pg_records := x\<rparr>)
        (dec_slice (dec_struct block_record_fields) \<lparr>br_uri = [], br_subject = []\<rparr>)),
      (''cursor'', dec_field pg_cursor (\<lambda>x r. r\<lparr>pg_cursor := x\<rparr>) dec_string)]"

definition backfill_endpoint :: string where
  "backfill_endpoint = ''https://public.api.bsky.app/xrpc/com.atproto.repo.listRecords''"

text \<open>\<open>url.Values.Encode\<close> writes the parameters sorted by name.\<close>

definition page_url :: "string \<Rightarrow> string \<Rightarrow> string" where
  "page_url actor cursor =
     backfill_endpoint @ ''?collection='' @ query_escape ''app.bsky.graph.block'' @
     (if cursor \<noteq> [] then ''&cursor='' @ query_escape cursor else []) @
     ''&limit='' @ query_escape ''100'' @ ''&repo='' @ query_escape actor"

definition max_page_bytes :: nat where
  "max_page_bytes = 1048576"

definition uri_rkey :: "string \<Rightarrow> string" where
  "uri_rkey uri = (case last_index (CHR ''/'') uri of None \<Rightarrow> [] | Some i \<Rightarrow> drop (i + 1) uri)"

fun seed_records ::
  "string \<Rightarrow> block_record list \<Rightarrow> store \<times> nat \<times> backfill_log list \<Rightarrow> store \<times> nat \<times> backfill_log list"
  where
  "seed_records actor [] acc = acc"
| "seed_records actor (r # rs) (s, seeded, l) =
     (if br_subject r = [] then seed_records actor rs (s, seeded, l)
      else let rkey = uri_rkey (br_uri r) in
      if rkey = [] then seed_records actor rs (s, seeded, l @ [LogEmptyRKey (br_uri r)])
      else case add_block actor (br_subject r) rkey s of
        (s', Some err) \<Rightarrow> seed_records actor rs (s', seeded, l @ [LogAddFailed err])
      | (s', None) \<Rightarrow> seed_records actor rs (s', seeded + 1, l))"

subsection \<open>The loop over the pages\<close>

definition max_pages :: nat where
  "max_pages = 20"

text \<open>The first argument counts the pages that may still be asked for.\<close>

fun backfill_pages ::
  "nat \<Rightarrow> 'w http_get \<Rightarrow> string \<Rightarrow> string \<Rightarrow> 'w \<Rightarrow> store \<times> nat \<times> backfill_log list
     \<Rightarrow> 'w \<times> store \<times> backfill_log list"
  where
  "backfill_pages 0 get actor cursor w (s, seeded, l) = (w, s, l @ [LogSeeded seeded])"
| "backfill_pages (Suc n) get actor cursor w (s, seeded, l) =
     (case get (page_url actor cursor) w of
        (w', Inl cause) \<Rightarrow> (w', s, l @ [LogFetchFailed cause])
      | (w', Inr resp) \<Rightarrow>
          if hp_status resp \<noteq> 200 then (w', s, l @ [LogHttpStatus (hp_status resp)])
          else case unmarshal (dec_struct block_page_fields) \<lparr>pg_records = [], pg_cursor = []\<rparr>
                      (take max_page_bytes (hp_body resp)) of
            None \<Rightarrow> (w', s, l @ [LogParseFailed])
          | Some out \<Rightarrow>
              let (s', seeded', l') = seed_records actor (pg_records out) (s, seeded, l) in
              if pg_cursor out = [] then (w', s', l' @ [LogSeeded seeded'])
              else backfill_pages n get actor (pg_cursor out) w' (s', seeded', l'))"

definition backfill_blocks ::
  "'w http_get \<Rightarrow> string \<Rightarrow> 'w \<Rightarrow> store \<Rightarrow> 'w \<times> store \<times> backfill_log list" where
  "backfill_blocks get actor w s = backfill_pages max_pages get actor [] w (s, 0, [])"

text \<open>The claim; the first component of the result says whether the goroutine is started.\<close>

definition maybe_start_blocks_backfill :: "string \<Rightarrow> store \<Rightarrow> bool \<times> store \<times> backfill_log list" where
  "maybe_start_blocks_backfill actor s =
     (case mark_blocks_backfilled actor s of
        (s', Inl err) \<Rightarrow> (False, s', [LogClaimFailed err])
      | (s', Inr claimed) \<Rightarrow> (claimed, s', []))"

subsection \<open>Bounds\<close>

definition adds_blocks_of :: "string \<Rightarrow> store_op \<Rightarrow> bool" where
  "adds_blocks_of actor op \<longleftrightarrow> (\<exists>b r. op = AddBlock actor b r \<and> b \<noteq> [] \<and> r \<noteq> [])"

lemma seed_records_ops:
  "\<exists>ops seeded' l'. list_all (adds_blocks_of actor) ops \<and> length ops \<le> length rs \<and>
     seed_records actor rs (s, seeded, l) = (run_ops ops s, seeded', l @ l')"
proof (induction rs arbitrary: s seeded l)
  case Nil
  show ?case by (rule exI [of _ "[]"]) simp
next
  case (Cons r rs)
  consider (skip) m where "seed_records actor (r # rs) (s, seeded, l) = seed_records actor rs (s, seeded, l @ m)"
    | (add) s' t' m where "seed_records actor (r # rs) (s, seeded, l) = seed_records actor rs (s', t', l @ m)"
        "s' = fst (add_block actor (br_subject r) (uri_rkey (br_uri r)) s)"
        "br_subject r \<noteq> []" "uri_rkey (br_uri r) \<noteq> []"
  proof (cases "br_subject r = [] \<or> uri_rkey (br_uri r) = []")
    case True
    then show ?thesis
      by (cases "br_subject r = []") (simp_all add: skip [of "[]"] skip [of "[LogEmptyRKey (br_uri r)]"])
  next
    case False
    obtain s' e where run: "add_block actor (br_subject r) (uri_rkey (br_uri r)) s = (s', e)" by fastforce
    show ?thesis
      using False run
      by (cases e) (auto simp: Let_def intro: add [of s' seeded "[LogAddFailed (the e)]"]
          add [of s' "seeded + 1" "[]"])
  qed
  then show ?case
  proof cases
    case skip
    then show ?thesis using Cons.IH [of s seeded "l @ m"] by fastforce
  next
    case add
    obtain ops seeded' l' where ops: "list_all (adds_blocks_of actor) ops" "length ops \<le> length rs"
      "seed_records actor rs (s', t', l @ m) = (run_ops ops s', seeded', l @ m @ l')"
      using Cons.IH [of s' t' "l @ m"] by auto
    let ?op = "AddBlock actor (br_subject r) (uri_rkey (br_uri r))"
    have "adds_blocks_of actor ?op" using add by (auto simp: adds_blocks_of_def)
    moreover have "run_ops (?op # ops) s = run_ops ops s'" using add by simp
    ultimately show ?thesis
      using add(1) ops
      by (intro exI [of _ "?op # ops"] exI [of _ seeded'] exI [of _ "m @ l'"])
        (simp del: run_ops_simps seed_records.simps)
  qed
qed

text \<open>The world after a sequence of requests.\<close>

definition after_gets :: "'w http_get \<Rightarrow> string list \<Rightarrow> 'w \<Rightarrow> 'w" where
  "after_gets get urls w = fold (\<lambda>u w. fst (get u w)) urls w"

lemma run_ops_append: "run_ops (xs @ ys) s = run_ops ys (run_ops xs s)"
  by (simp add: run_ops_def)

lemma backfill_pages_bounded:
  "\<exists>urls ops. length urls \<le> n \<and> list_all (\<lambda>u. \<exists>c. u = page_url actor c) urls \<and>
     list_all (adds_blocks_of actor) ops \<and>
     fst (backfill_pages n get actor cursor w (s, seeded, l)) = after_gets get urls w \<and>
     fst (snd (backfill_pages n get actor cursor w (s, seeded, l))) = run_ops ops s"
proof (induction n arbitrary: cursor w s seeded l)
  case 0
  show ?case by (intro exI [of _ "[]"]) (simp add: after_gets_def)
next
  case (Suc n)
  obtain w' a where got: "get (page_url actor cursor) w = (w', a)" by fastforce
  have one: ?case if "backfill_pages (Suc n) get actor cursor w (s, seeded, l) = (w', run_ops ops s, l')"
    "list_all (adds_blocks_of actor) ops" for l' ops
    using that got by (intro exI [of _ "[page_url actor cursor]"] exI [of _ ops]) (auto simp: after_gets_def)
  show ?case
  proof (cases a)
    case (Inl cause)
    then show ?thesis using got by (intro one [of "[]"]) simp_all
  next
    case (Inr resp)
    let ?out = "unmarshal (dec_struct block_page_fields) \<lparr>pg_records = [], pg_cursor = []\<rparr>
                      (take max_page_bytes (hp_body resp))"
    show ?thesis
    proof (cases "hp_status resp \<noteq> 200 \<or> ?out = None")
      case True
      then show ?thesis
        using got Inr one [of "[]" "l @ [LogParseFailed]"]
          one [of "[]" "l @ [LogHttpStatus (hp_status resp)]"]
        by (cases "hp_status resp = 200") simp_all
    next
      case False
      then obtain out where out: "?out = Some out" by auto
      obtain ops seeded' l' where ops: "list_all (adds_blocks_of actor) ops"
        "seed_records actor (pg_records out) (s, seeded, l) = (run_ops ops s, seeded', l @ l')"
        using seed_records_ops by blast
      show ?thesis
      proof (cases "pg_cursor out = []")
        case True
        then show ?thesis using got Inr False out ops by (intro one [of ops]) simp_all
      next
        case more: False
        obtain urls ops2 where rest: "length urls \<le> n" "list_all (\<lambda>u. \<exists>c. u = page_url actor c) urls"
          "list_all (adds_blocks_of actor) ops2"
          "fst (backfill_pages n get actor (pg_cursor out) w' (run_ops ops s, seeded', l @ l')) =
             after_gets get urls w'"
          "fst (snd (backfill_pages n get actor (pg_cursor out) w' (run_ops ops s, seeded', l @ l'))) =
             run_ops ops2 (run_ops ops s)"
          using Suc.IH [of "pg_cursor out" w' "run_ops ops s" seeded' "l @ l'"] by auto
        show ?thesis
          using got Inr False out ops more rest
          by (intro exI [of _ "page_url actor cursor # urls"] exI [of _ "ops @ ops2"])
            (auto simp: after_gets_def run_ops_append)
      qed
    qed
  qed
qed

text \<open>
  C27: The backfill ends after at most twenty requests, whatever the network answers: even a server
  that always names another cursor cannot keep it going. All it does to the store is to add blocks
  by the registered account, each with a subject and a record key.\<close>

theorem backfill_terminates:
  "\<exists>urls ops. length urls \<le> 20 \<and> list_all (\<lambda>u. \<exists>c. u = page_url actor c) urls \<and>
     list_all (adds_blocks_of actor) ops \<and>
     fst (backfill_blocks get actor w s) = after_gets get urls w \<and>
     fst (snd (backfill_blocks get actor w s)) = run_ops ops s"
  using backfill_pages_bounded [of 20 actor get "[]" w s 0 "[]"]
  by (simp add: backfill_blocks_def max_pages_def)

subsection \<open>What a complete backfill reaches\<close>

definition usable :: "block_record \<Rightarrow> bool" where
  "usable r \<longleftrightarrow> br_subject r \<noteq> [] \<and> uri_rkey (br_uri r) \<noteq> []"

definition usable_subjects :: "block_record list \<Rightarrow> string set" where
  "usable_subjects rs = br_subject ` set (filter usable rs)"

lemma usable_subjects_simps [simp]:
  "usable_subjects [] = {}"
  "usable_subjects (r # rs) = (if usable r then {br_subject r} else {}) \<union> usable_subjects rs"
  "usable_subjects (rs @ qs) = usable_subjects rs \<union> usable_subjects qs"
  by (auto simp: usable_subjects_def)

text \<open>The server answers the requests with these pages, one after the other.\<close>

fun serves :: "'w http_get \<Rightarrow> string \<Rightarrow> string \<Rightarrow> 'w \<Rightarrow> block_page list \<Rightarrow> bool" where
  "serves get actor cursor w [] = True"
| "serves get actor cursor w (p # ps) =
     (case get (page_url actor cursor) w of
        (w', Inl cause) \<Rightarrow> False
      | (w', Inr resp) \<Rightarrow>
          hp_status resp = 200 \<and>
          unmarshal (dec_struct block_page_fields) \<lparr>pg_records = [], pg_cursor = []\<rparr>
            (take max_page_bytes (hp_body resp)) = Some p \<and>
          (if pg_cursor p = [] then ps = [] else serves get actor (pg_cursor p) w' ps))"

lemma add_block_healthy:
  assumes "healthy s"
  shows "snd (add_block a b r s) = None" "healthy (fst (add_block a b r s))"
    "in_blocks x y (fst (add_block a b r s)) \<longleftrightarrow> in_blocks x y s \<or> (x = a \<and> y = b)"
  using assms by (auto simp: add_block_def in_blocks_def Let_def split: option.splits)

lemma seed_records_healthy:
  assumes "healthy s"
  shows "\<exists>s' l'. seed_records actor rs (s, seeded, l) =
      (s', seeded + length (filter usable rs), l') \<and> healthy s' \<and>
    (\<forall>x y. in_blocks x y s' \<longleftrightarrow>
       in_blocks x y s \<or> (x = actor \<and> y \<in> usable_subjects rs))"
  using assms
proof (induction rs arbitrary: s seeded l)
  case (Cons r rs)
  let ?add = "add_block actor (br_subject r) (uri_rkey (br_uri r)) s"
  show ?case
  proof (cases "usable r")
    case True
    obtain s1 where ok: "?add = (s1, None)"
      using add_block_healthy(1) [OF Cons.prems] by (metis prod.collapse)
    have "seed_records actor (r # rs) (s, seeded, l) = seed_records actor rs (fst ?add, seeded + 1, l)"
      using True by (simp add: usable_def ok)
    then show ?thesis
      using Cons.IH [of "fst ?add" "seeded + 1" l] True add_block_healthy [OF Cons.prems] by auto
  next
    case False
    then have "\<exists>m. seed_records actor (r # rs) (s, seeded, l) = seed_records actor rs (s, seeded, m)"
      by (auto simp: usable_def)
    then show ?thesis using Cons.IH [OF Cons.prems] False by fastforce
  qed
qed simp

lemma backfill_pages_served:
  assumes "healthy s" and "serves get actor cursor w pages" and "pages \<noteq> []" and "length pages \<le> n"
    and "pg_cursor (last pages) = [] \<or> length pages = n"
  shows "\<exists>w' s' l'. backfill_pages n get actor cursor w (s, seeded, l) =
      (w', s', l' @ [LogSeeded (seeded + length (filter usable (concat (map pg_records pages))))]) \<and>
    (\<forall>x y. in_blocks x y s' \<longleftrightarrow> in_blocks x y s \<or>
       (x = actor \<and> y \<in> usable_subjects (concat (map pg_records pages))))"
  using assms
proof (induction n arbitrary: cursor w s seeded l pages)
  case (Suc n)
  obtain p ps where pages: "pages = p # ps" using Suc.prems(3) by (cases pages) auto
  obtain w' resp where got: "get (page_url actor cursor) w = (w', Inr resp)" "hp_status resp = 200"
    "unmarshal (dec_struct block_page_fields) \<lparr>pg_records = [], pg_cursor = []\<rparr>
       (take max_page_bytes (hp_body resp)) = Some p"
    "if pg_cursor p = [] then ps = [] else serves get actor (pg_cursor p) w' ps"
    using Suc.prems(2) by (auto simp: pages split: prod.splits sum.splits)
  obtain s1 l1 where seed: "seed_records actor (pg_records p) (s, seeded, l) =
      (s1, seeded + length (filter usable (pg_records p)), l1)" "healthy s1"
    "\<forall>x y. in_blocks x y s1 \<longleftrightarrow>
       in_blocks x y s \<or> (x = actor \<and> y \<in> usable_subjects (pg_records p))"
    using seed_records_healthy [OF Suc.prems(1)] by blast
  have run: "backfill_pages (Suc n) get actor cursor w (s, seeded, l) =
      (if pg_cursor p = [] then (w', s1, l1 @ [LogSeeded (seeded + length (filter usable (pg_records p)))])
       else backfill_pages n get actor (pg_cursor p) w'
              (s1, seeded + length (filter usable (pg_records p)), l1))"
    using got seed by simp
  show ?case
  proof (cases "ps = []")
    case True
    show ?thesis
    proof (cases "pg_cursor p = []")
      case False
      then have "n = 0" using Suc.prems(5) True pages by simp
      then show ?thesis using run seed(3) False True pages by simp
    qed (use run seed(3) True pages in simp)
  next
    case False
    then have more: "pg_cursor p \<noteq> []" "serves get actor (pg_cursor p) w' ps"
      using got(4) by (auto split: if_splits)
    have "length ps \<le> n" "pg_cursor (last ps) = [] \<or> length ps = n"
      using Suc.prems(4,5) False pages by simp_all
    from Suc.IH [OF seed(2) more(2) False this, of "seeded + length (filter usable (pg_records p))" l1]
    show ?thesis using run more(1) seed(3) pages by (auto simp: add.assoc)
  qed
qed simp

text \<open>
  C26: When every page is served and the database works, a backfill of at most twenty pages ends by
  reporting the number of its usable records, those with a subject and a record key, and from then
  on exactly the earlier blocks and those records' subjects are blocked by the account. Records
  beyond the twentieth page are left out.\<close>

theorem backfill_complete:
  assumes "healthy s" and "serves get actor [] w pages" and "pages \<noteq> []" and "length pages \<le> 20"
    and "pg_cursor (last pages) = [] \<or> length pages = 20"
  shows "\<exists>w' s' l. backfill_blocks get actor w s =
      (w', s', l @ [LogSeeded (length (filter usable (concat (map pg_records pages))))]) \<and>
    (\<forall>x y. in_blocks x y s' \<longleftrightarrow> in_blocks x y s \<or>
       (x = actor \<and> y \<in> usable_subjects (concat (map pg_records pages))))"
  using backfill_pages_served [OF assms, of 0 "[]"] by (simp add: backfill_blocks_def max_pages_def)

text \<open>A server with one page of one record.\<close>

definition one_block_page :: block_page where
  "one_block_page = \<lparr>pg_records = [\<lparr>br_uri = ''at://d/app.bsky.graph.block/3k'', br_subject = ''e''\<rparr>],
     pg_cursor = []\<rparr>"

definition one_block_json :: json where
  "one_block_json = JObj [(''records'', JArr [JObj
     [(''uri'', JStr ''at://d/app.bsky.graph.block/3k''),
      (''value'', JObj [(''subject'', JStr ''e'')])]])]"

definition one_block_server :: "nat http_get" where
  "one_block_server u n = (Suc n, Inr \<lparr>hp_status = 200, hp_body = json_text one_block_json\<rparr>)"

lemma one_block_fits: "json_fits max_nesting one_block_json"
  by (simp add: one_block_json_def max_nesting_def plain_json_utf8 plain_json_def)

lemma one_block_short: "length (json_text one_block_json) \<le> max_page_bytes"
  by (simp add: one_block_json_def max_page_bytes_def quote_str_plain plain_json_def)

lemma one_block_decoded:
  "decode_result (dec_struct block_page_fields) \<lparr>pg_records = [], pg_cursor = []\<rparr> (Some one_block_json) =
     Some one_block_page"
  by (simp add: one_block_json_def decode_result_def dec_struct_def dec_member_def find_field_def
      block_page_fields_def block_record_fields_def subject_value_fields_def dec_field_def
      dec_string_def dec_slice_def one_block_page_def)

lemma one_block_served: "serves one_block_server ''d'' [] 0 [one_block_page]"
  using one_block_short
  by (simp add: one_block_server_def unmarshal_def json_parse_text [OF one_block_fits]
      one_block_decoded)

theorem backfill_complete_witness:
  "\<exists>w' s' l. backfill_blocks one_block_server ''d'' 0 fresh_store = (w', s', l @ [LogSeeded 1]) \<and> in_blocks ''d'' ''e'' s'"
proof -
  have u: "usable \<lparr>br_uri = ''at://d/app.bsky.graph.block/3k'', br_subject = ''e''\<rparr>"
    by code_simp
  show ?thesis
    using backfill_complete [OF fresh_store_inv(2) one_block_served] u
    by (fastforce simp: one_block_page_def)
qed

text \<open>The claim: one backfill per account, also after failures and restarts.\<close>

lemma claim_once:
  assumes "maybe_start_blocks_backfill actor s = (True, s', l)"
    and "set (backfilled_rows s') \<subseteq> set (backfilled_rows s2)"
  shows "\<not> fst (maybe_start_blocks_backfill actor s2)"
proof -
  have "actor \<in> set (backfilled_rows s')"
    using assms(1)
    by (auto simp: maybe_start_blocks_backfill_def mark_blocks_backfilled_def db_call_def Let_def
        split: if_splits)
  then show ?thesis
    using assms(2)
    by (auto simp: maybe_start_blocks_backfill_def mark_blocks_backfilled_def db_call_def Let_def)
qed

end
