(* ===== verification/Xrpc.thy ===== *)
theory Xrpc
  imports Blocks_Backfill Signing_Keys Net_Addr Web_Push_Store
begin

text \<open>
  The XRPC handlers (\<open>internal/xrpc/handler.go\<close>): the check of a service token, the two push
  registration methods, the DID document, the health report and the endpoints of the development
  mode. Arguments of the model are the DID resolver behind the interface \<open>DIDResolver\<close>, SHA-256,
  the two ECDSA verifications of the standard library and the decompression of secp256k1 points.
\<close>

subsection \<open>Environment and state\<close>

record 'd xrpc_env =
  xe_dev :: bool
  xe_service_did :: string
  xe_resolver :: "(string \<Rightarrow> 'd \<Rightarrow> 'd \<times> (did_error + did_document)) option"
  xe_secp :: "string \<Rightarrow> string + nat \<times> nat"
  xe_sha256 :: "string \<Rightarrow> string"
  xe_verify :: "ec_key \<Rightarrow> string \<Rightarrow> nat \<Rightarrow> nat \<Rightarrow> bool"
  xe_verify_asn1 :: "ec_key \<Rightarrow> string \<Rightarrow> string \<Rightarrow> bool"
  xe_stats :: "json option"
  xe_notify :: bool

text \<open>
  \<open>xs_world\<close> is the world behind the resolver, \<open>xs_notified\<close> counts the calls of
  \<open>onTokenRegistered\<close>, and \<open>xs_backfills\<close> lists the accounts a backfill was started for.
\<close>

record 'd xrpc_state =
  xs_store :: store
  xs_world :: 'd
  xs_notified :: nat
  xs_backfills :: "string list"

record jwt_header =
  jh_alg :: string
  jh_typ :: string

record jwt_claims =
  jc_iss :: string
  jc_aud :: string
  jc_lxm :: string
  jc_exp :: int

record push_request =
  pr_service_did :: string
  pr_token :: string
  pr_platform :: string
  pr_app :: string
  pr_age_restricted :: bool

definition jwt_header_fields :: "(string \<times> jwt_header decoder) list" where
  "jwt_header_fields =
     [(''alg'', dec_field jh_alg (\<lambda>x r. r\<lparr>jh_alg := x\<rparr>) dec_string),
      (''typ'', dec_field jh_typ (\<lambda>x r. r\<lparr>jh_typ := x\<rparr>) dec_string)]"

definition jwt_claims_fields :: "(string \<times> jwt_claims decoder) list" where
  "jwt_claims_fields =
     [(''iss'', dec_field jc_iss (\<lambda>x r. r\<lparr>jc_iss := x\<rparr>) dec_string),
      (''aud'', dec_field jc_aud (\<lambda>x r. r\<lparr>jc_aud := x\<rparr>) dec_string),
      (''lxm'', dec_field jc_lxm (\<lambda>x r. r\<lparr>jc_lxm := x\<rparr>) dec_string),
      (''exp'', dec_field jc_exp (\<lambda>x r. r\<lparr>jc_exp := x\<rparr>) dec_int64)]"

definition push_request_fields :: "(string \<times> push_request decoder) list" where
  "push_request_fields =
     [(''serviceDid'', dec_field pr_service_did (\<lambda>x r. r\<lparr>pr_service_did := x\<rparr>) dec_string),
      (''token'', dec_field pr_token (\<lambda>x r. r\<lparr>pr_token := x\<rparr>) dec_string),
      (''platform'', dec_field pr_platform (\<lambda>x r. r\<lparr>pr_platform := x\<rparr>) dec_string),
      (''appId'', dec_field pr_app (\<lambda>x r. r\<lparr>pr_app := x\<rparr>) dec_string),
      (''ageRestricted'', dec_field pr_age_restricted (\<lambda>x r. r\<lparr>pr_age_restricted := x\<rparr>) dec_bool)]"

definition empty_jwt_header :: jwt_header where
  "empty_jwt_header = \<lparr>jh_alg = [], jh_typ = []\<rparr>"

definition empty_claims :: jwt_claims where
  "empty_claims = \<lparr>jc_iss = [], jc_aud = [], jc_lxm = [], jc_exp = 0\<rparr>"

definition empty_push_request :: push_request where
  "empty_push_request = \<lparr>pr_service_did = [], pr_token = [], pr_platform = [], pr_app = [],
     pr_age_restricted = False\<rparr>"

definition lexicon_register_push :: string where
  "lexicon_register_push = ''app.bsky.notification.registerPush''"

definition lexicon_unregister_push :: string where
  "lexicon_unregister_push = ''app.bsky.notification.unregisterPush''"

subsection \<open>Authentication\<close>

datatype auth_error =
    NoTransit
  | BadAuthorization
  | MalformedJwt nat
  | BadPayload
  | BadClaims
  | MissingExp
  | ExpiredJwt
  | ExpTooFar int
  | MissingIss
  | IssNotDid string
  | AudMismatch string
  | LxmMismatch string
  | BadHeaderEncoding
  | BadHeaderJson
  | UnsupportedAlg string
  | NoResolver
  | ResolveFailed string did_error
  | KeyFailed string key_error
  | BadSignatureEncoding
  | CurveMismatch string
  | SignatureFailed string

definition is_loopback_addr :: "string \<Rightarrow> bool" where
  "is_loopback_addr remote =
     (let host = (case split_host_port remote of None \<Rightarrow> remote | Some (h, _) \<Rightarrow> h) in
      case parse_ip host of None \<Rightarrow> False | Some ip \<Rightarrow> is_loopback ip)"

definition require_cloudflare_transit :: "'d xrpc_env \<Rightarrow> request \<Rightarrow> auth_error option" where
  "require_cloudflare_transit env r =
     (if xe_dev env then None
      else if is_loopback_addr (req_remote r) then None
      else if req_header r ''CF-Connecting-IP'' = [] then Some NoTransit
      else None)"

definition curve_bits :: "curve \<Rightarrow> nat" where
  "curve_bits c = (case c of P256 \<Rightarrow> 256 | Secp256k1 \<Rightarrow> 256)"

definition verify_ecdsa_signature :: "'d xrpc_env \<Rightarrow> ec_key \<Rightarrow> string \<Rightarrow> string \<Rightarrow> bool" where
  "verify_ecdsa_signature env key hash sig =
     (let key_size = (curve_bits (ec_curve key) + 7) div 8 in
      if length sig \<noteq> 2 * key_size then xe_verify_asn1 env key hash sig
      else xe_verify env key hash (be_value (take key_size sig)) (be_value (drop key_size sig)))"

text \<open>The difference of two \<open>int64\<close> values.\<close>

definition int64_minus :: "int \<Rightarrow> int \<Rightarrow> int" where
  "int64_minus a b = (a - b + 2 ^ 63) mod 2 ^ 64 - 2 ^ 63"

definition max_lifetime_seconds :: int where
  "max_lifetime_seconds = 300"

definition check_claims :: "'d xrpc_env \<Rightarrow> string \<Rightarrow> int \<Rightarrow> jwt_claims \<Rightarrow> auth_error option" where
  "check_claims env lxm now c =
     (if jc_exp c = 0 then Some MissingExp
      else if now > jc_exp c then Some ExpiredJwt
      else if int64_minus (jc_exp c) now > max_lifetime_seconds
        then Some (ExpTooFar (int64_minus (jc_exp c) now))
      else if jc_iss c = [] then Some MissingIss
      else if \<not> has_prefix (jc_iss c) ''did:'' then Some (IssNotDid (jc_iss c))
      else if jc_aud c \<noteq> xe_service_did env then Some (AudMismatch (jc_aud c))
      else if jc_lxm c \<noteq> lxm then Some (LxmMismatch (jc_lxm c))
      else None)"

text \<open>The signature part: the header, the key of the issuer, and the verification.\<close>

definition check_signature ::
  "'d xrpc_env \<Rightarrow> string \<Rightarrow> string \<Rightarrow> string \<Rightarrow> string \<Rightarrow> 'd \<Rightarrow> 'd \<times> (auth_error + string)" where
  "check_signature env iss p0 p1 p2 w =
     (case b64_decode raw_url_encoding p0 of
        None \<Rightarrow> (w, Inl BadHeaderEncoding)
      | Some header_json \<Rightarrow>
     (case unmarshal (dec_struct jwt_header_fields) empty_jwt_header header_json of
        None \<Rightarrow> (w, Inl BadHeaderJson)
      | Some header \<Rightarrow>
      if jh_alg header \<noteq> ''ES256'' \<and> jh_alg header \<noteq> ''ES256K'' then (w, Inl (UnsupportedAlg (jh_alg header)))
      else case xe_resolver env of
        None \<Rightarrow> (w, Inl NoResolver)
      | Some resolve \<Rightarrow>
     (case resolve iss w of
        (w', Inl err) \<Rightarrow> (w', Inl (ResolveFailed iss err))
      | (w', Inr doc) \<Rightarrow>
     (case get_signing_key (xe_secp env) doc of
        Inl err \<Rightarrow> (w', Inl (KeyFailed iss err))
      | Inr key \<Rightarrow>
     (case b64_decode raw_url_encoding p2 of
        None \<Rightarrow> (w', Inl BadSignatureEncoding)
      | Some sig \<Rightarrow>
          let hash = xe_sha256 env (p0 @ ''.'' @ p1) in
          (w', if jh_alg header = ''ES256K'' then
                 (if ec_curve key = P256 then Inl (CurveMismatch iss)
                  else if verify_ecdsa_signature env key hash sig then Inr iss
                  else Inl (SignatureFailed iss))
               else
                 (if ec_curve key \<noteq> P256 then Inl (CurveMismatch iss)
                  else if verify_ecdsa_signature env key hash sig then Inr iss
                  else Inl (SignatureFailed iss))))))))"

definition verify_auth ::
  "'d xrpc_env \<Rightarrow> string \<Rightarrow> int \<Rightarrow> request \<Rightarrow> 'd \<Rightarrow> 'd \<times> (auth_error + string)" where
  "verify_auth env lxm now r w =
     (case require_cloudflare_transit env r of
        Some err \<Rightarrow> (w, Inl err)
      | None \<Rightarrow>
      if xe_dev env \<and> req_header r ''X-Actor-DID'' \<noteq> [] then (w, Inr (req_header r ''X-Actor-DID''))
      else
        let auth_header = req_header r ''Authorization'' in
        if \<not> has_prefix auth_header ''Bearer '' then (w, Inl BadAuthorization)
        else
          let parts = split_on (CHR ''.'') (trim_prefix auth_header ''Bearer '') in
          if length parts \<noteq> 3 then (w, Inl (MalformedJwt (length parts)))
          else case b64_decode raw_url_encoding (parts ! 1) of
            None \<Rightarrow> (w, Inl BadPayload)
          | Some payload \<Rightarrow>
         (case unmarshal (dec_struct jwt_claims_fields) empty_claims payload of
            None \<Rightarrow> (w, Inl BadClaims)
          | Some claims \<Rightarrow>
         (case check_claims env lxm now claims of
            Some err \<Rightarrow> (w, Inl err)
          | None \<Rightarrow> check_signature env (jc_iss claims) (parts ! 0) (parts ! 1) (parts ! 2) w)))"

subsection \<open>Registration\<close>

text \<open>
  The source writes these answers as literal text; the words are put between the quotes as they
  are, with no escaping.
\<close>

definition json_error :: "string \<Rightarrow> nat \<Rightarrow> response" where
  "json_error err code = http_error (''{\"error\":\"'' @ err @ ''\"}'') code"

definition json_error_message :: "string \<Rightarrow> string \<Rightarrow> nat \<Rightarrow> response" where
  "json_error_message err msg code =
     http_error (''{\"error\":\"'' @ err @ ''\",\"message\":\"'' @ msg @ ''\"}'') code"

definition json_answer :: "string \<Rightarrow> response" where
  "json_answer body = \<lparr>res_status = 200, res_headers = [(''Content-Type'', ''application/json'')],
     res_body = body\<rparr>"

definition max_body_bytes :: nat where
  "max_body_bytes = 64 * 1024"

text \<open>
  \<open>Decode\<close> behind \<open>http.MaxBytesReader\<close>: a longer body ends in an error instead of the end of
  the file. A value that is complete before that is accepted; \<open>null\<close> is complete only with the
  byte after it.
\<close>

definition limited_value :: "nat \<Rightarrow> string \<Rightarrow> json option" where
  "limited_value n body =
     (if length body \<le> n then json_first body
      else case json_first (take n body) of
        Some JNull \<Rightarrow> json_first (take (n - 1) body)
      | v \<Rightarrow> v)"

definition decode_limited :: "'a decoder \<Rightarrow> 'a \<Rightarrow> request \<Rightarrow> 'a option" where
  "decode_limited d zero r =
     (case req_body r of None \<Rightarrow> None
      | Some body \<Rightarrow> decode_result d zero (limited_value max_body_bytes body))"

definition handle_register_push ::
  "'d xrpc_env \<Rightarrow> int \<Rightarrow> request \<Rightarrow> 'd xrpc_state \<Rightarrow> 'd xrpc_state \<times> response" where
  "handle_register_push env now r st =
     (case verify_auth env lexicon_register_push now r (xs_world st) of
        (w, Inl err) \<Rightarrow>
          (st\<lparr>xs_world := w\<rparr>, json_error_message ''auth_required'' ''invalid service auth'' 401)
      | (w, Inr actor) \<Rightarrow>
          let st1 = st\<lparr>xs_world := w\<rparr> in
          case decode_limited (dec_struct push_request_fields) empty_push_request r of
            None \<Rightarrow> (st1, json_error_message ''invalid_request'' ''invalid JSON'' 400)
          | Some req \<Rightarrow>
              if pr_service_did req = [] \<or> pr_token req = [] \<or> pr_platform req = [] \<or> pr_app req = []
                then (st1, json_error_message ''invalid_request'' ''missing required fields'' 400)
              else if pr_service_did req \<noteq> xe_service_did env
                then (st1, json_error_message ''invalid_request''
                       ''serviceDid does not match this gateway'' 400)
              else if pr_platform req \<noteq> ''ios'' \<and> pr_platform req \<noteq> ''android'' \<and> pr_platform req \<noteq> ''web''
                then (st1, json_error_message ''invalid_request'' ''invalid platform'' 400)
              else if length (pr_token req) > 2048
                then (st1, json_error_message ''invalid_request'' ''token too long'' 400)
              else if length (pr_app req) > 256
                then (st1, json_error_message ''invalid_request'' ''appId too long'' 400)
              else case register_token actor (pr_platform req) (pr_token req) (pr_app req) (xs_store st1) of
                (s, Some err) \<Rightarrow> (st1\<lparr>xs_store := s\<rparr>, json_error ''internal_error'' 500)
              | (s, None) \<Rightarrow>
                  let (start, s', _) = maybe_start_blocks_backfill actor s in
                  (st1\<lparr>xs_store := s',
                       xs_backfills := xs_backfills st1 @ (if start then [actor] else []),
                       xs_notified := xs_notified st1 + (if xe_notify env then 1 else 0)\<rparr>,
                   json_answer ''{}''))"

definition handle_unregister_push ::
  "'d xrpc_env \<Rightarrow> int \<Rightarrow> request \<Rightarrow> 'd xrpc_state \<Rightarrow> 'd xrpc_state \<times> response" where
  "handle_unregister_push env now r st =
     (case verify_auth env lexicon_unregister_push now r (xs_world st) of
        (w, Inl err) \<Rightarrow> (st\<lparr>xs_world := w\<rparr>, json_error ''auth_required'' 401)
      | (w, Inr actor) \<Rightarrow>
          let st1 = st\<lparr>xs_world := w\<rparr> in
          case decode_limited (dec_struct push_request_fields) empty_push_request r of
            None \<Rightarrow> (st1, json_error ''invalid_request'' 400)
          | Some req \<Rightarrow>
              if pr_service_did req = [] \<or> pr_token req = [] \<or> pr_platform req = [] \<or> pr_app req = []
                then (st1, json_error_message ''invalid_request'' ''missing required fields'' 400)
              else if pr_service_did req \<noteq> xe_service_did env
                then (st1, json_error_message ''invalid_request''
                       ''serviceDid does not match this gateway'' 400)
              else if length (pr_token req) > 2048
                then (st1, json_error_message ''invalid_request'' ''token too long'' 400)
              else if length (pr_app req) > 256
                then (st1, json_error_message ''invalid_request'' ''appId too long'' 400)
              else case unregister_token actor (pr_platform req) (pr_token req) (pr_app req) (xs_store st1) of
                (s, Some err) \<Rightarrow> (st1\<lparr>xs_store := s\<rparr>, json_error ''internal_error'' 500)
              | (s, None) \<Rightarrow> (st1\<lparr>xs_store := s\<rparr>, json_answer ''{}''))"

subsection \<open>The other endpoints\<close>

text \<open>
  A handler that panics: the server recovers and closes the connection without an answer, which
  is written as status 0.
\<close>

definition aborted :: response where
  "aborted = bare_status 0"

definition handle_did_json :: "'d xrpc_env \<Rightarrow> string \<Rightarrow> request \<Rightarrow> response" where
  "handle_did_json env service_did r =
     (if require_cloudflare_transit env r \<noteq> None then json_error ''forbidden'' 403
      else if length service_did < 8 then aborted
      else \<lparr>res_status = 200,
             res_headers = [(''Content-Type'', ''application/json''), (''Access-Control-Allow-Origin'', ''*'')],
             res_body = json_text (JObj
               [(''@context'', JArr [JStr ''https://www.w3.org/ns/did/v1'']),
                (''id'', JStr service_did),
                (''service'', JArr [JObj
                  [(''id'', JStr ''#bsky_notif''),
                   (''serviceEndpoint'', JStr (''https://'' @ drop 8 service_did)),
                   (''type'', JStr ''BskyNotificationService'')]])]) @ [CHR 0x0A]\<rparr>)"

definition json_nat :: "nat \<Rightarrow> json" where
  "json_nat n = JNum (dec_text n)"

definition handle_health :: "'d xrpc_env \<Rightarrow> request \<Rightarrow> 'd xrpc_state \<Rightarrow> 'd xrpc_state \<times> response" where
  "handle_health env r st =
     (if require_cloudflare_transit env r \<noteq> None then (st, json_error ''forbidden'' 403)
      else
        let (s1, tokens, blks, dids) = get_stats (xs_store st);
            (s2, endpoints) = count_webpush_endpoints s1 in
        (st\<lparr>xs_store := s2\<rparr>,
         \<lparr>res_status = 200, res_headers = [],
          res_body = json_text (JObj
            ((case xe_stats env of None \<Rightarrow> [] | Some j \<Rightarrow> [(''jetstream'', j)]) @
             [(''registeredDIDs'', json_nat dids), (''relayEndpoints'', json_nat endpoints),
              (''status'', JStr ''ok''), (''totalTokens'', json_nat tokens),
              (''trackedBlocks'', json_nat blks)])) @ [CHR 0x0A]\<rparr>))"

record test_register_request =
  tr_actor :: string
  tr_token :: string
  tr_platform :: string
  tr_app :: string

definition test_register_fields :: "(string \<times> test_register_request decoder) list" where
  "test_register_fields =
     [(''actorDid'', dec_field tr_actor (\<lambda>x r. r\<lparr>tr_actor := x\<rparr>) dec_string),
      (''token'', dec_field tr_token (\<lambda>x r. r\<lparr>tr_token := x\<rparr>) dec_string),
      (''platform'', dec_field tr_platform (\<lambda>x r. r\<lparr>tr_platform := x\<rparr>) dec_string),
      (''appId'', dec_field tr_app (\<lambda>x r. r\<lparr>tr_app := x\<rparr>) dec_string)]"

definition decode_whole :: "'a decoder \<Rightarrow> 'a \<Rightarrow> request \<Rightarrow> 'a option" where
  "decode_whole d zero r =
     (case req_body r of None \<Rightarrow> None | Some body \<Rightarrow> decode_first d zero body)"

definition handle_test_register ::
  "'d xrpc_env \<Rightarrow> request \<Rightarrow> 'd xrpc_state \<Rightarrow> 'd xrpc_state \<times> response" where
  "handle_test_register env r st =
     (case decode_whole (dec_struct test_register_fields)
             \<lparr>tr_actor = [], tr_token = [], tr_platform = [], tr_app = []\<rparr> r of
        None \<Rightarrow> (st, json_error ''invalid_request'' 400)
      | Some req \<Rightarrow>
         (case register_token (tr_actor req) (tr_platform req) (tr_token req) (tr_app req) (xs_store st) of
            (s, Some err) \<Rightarrow> (st\<lparr>xs_store := s\<rparr>, json_error ''internal_error'' 500)
          | (s, None) \<Rightarrow>
              (st\<lparr>xs_store := s, xs_notified := xs_notified st + (if xe_notify env then 1 else 0)\<rparr>,
               \<lparr>res_status = 200, res_headers = [],
                res_body = json_text (JObj [(''status'', JStr ''registered'')]) @ [CHR 0x0A]\<rparr>)))"

definition handle_test_push :: "request \<Rightarrow> 'd xrpc_state \<Rightarrow> 'd xrpc_state \<times> response" where
  "handle_test_push r st =
     (case decode_whole (dec_struct [(''actorDid'', dec_string)]) [] r of
        None \<Rightarrow> (st, json_error ''invalid_request'' 400)
      | Some actor \<Rightarrow>
          let (s, res) = get_tokens_for_did actor (xs_store st); st1 = st\<lparr>xs_store := s\<rparr> in
         (case res of
            Inl err \<Rightarrow> (st1, json_error ''no_tokens'' 404)
          | Inr tokens \<Rightarrow>
              if tokens = [] then (st1, json_error ''no_tokens'' 404)
              else (st1, \<lparr>res_status = 200, res_headers = [],
                     res_body = json_text (JObj [(''status'', JStr ''found''),
                       (''tokens'', json_nat (length tokens))]) @ [CHR 0x0A]\<rparr>)))"

definition method_not_allowed :: response where
  "method_not_allowed = json_error ''method_not_allowed'' 405"

subsection \<open>Routes\<close>

datatype xrpc_route =
    ToRegisterPush
  | ToUnregisterPush
  | ToNotAllowed
  | ToDidJson
  | ToHealth
  | ToTestRegister
  | ToTestPush
  | XrpcWrongMethod string
  | NoXrpcRoute

text \<open>
  A pattern for GET also matches HEAD; the mux answers another method on a known path itself and
  lists the methods it has.
\<close>

definition xrpc_route_of :: "bool \<Rightarrow> string \<Rightarrow> string \<Rightarrow> xrpc_route" where
  "xrpc_route_of dev method path =
     (let post = (method = ''POST''); get = (method = ''GET'' \<or> method = ''HEAD'') in
      if path = ''/xrpc/'' @ lexicon_register_push then
        (if post then ToRegisterPush else if get then ToNotAllowed else XrpcWrongMethod ''GET, HEAD, POST'')
      else if path = ''/xrpc/'' @ lexicon_unregister_push then
        (if post then ToUnregisterPush else if get then ToNotAllowed else XrpcWrongMethod ''GET, HEAD, POST'')
      else if path = ''/.well-known/did.json'' then
        (if get then ToDidJson else XrpcWrongMethod ''GET, HEAD'')
      else if path = ''/health'' then
        (if get then ToHealth else XrpcWrongMethod ''GET, HEAD'')
      else if dev \<and> path = ''/test/register'' then
        (if post then ToTestRegister else XrpcWrongMethod ''POST'')
      else if dev \<and> path = ''/test/push'' then
        (if post then ToTestPush else XrpcWrongMethod ''POST'')
      else NoXrpcRoute)"

definition xrpc_serve ::
  "'d xrpc_env \<Rightarrow> string \<Rightarrow> int \<Rightarrow> request \<Rightarrow> 'd xrpc_state \<Rightarrow> 'd xrpc_state \<times> response" where
  "xrpc_serve env service_did now r st =
     (case xrpc_route_of (xe_dev env) (req_method r) (req_path r) of
        ToRegisterPush \<Rightarrow> handle_register_push env now r st
      | ToUnregisterPush \<Rightarrow> handle_unregister_push env now r st
      | ToNotAllowed \<Rightarrow> (st, method_not_allowed)
      | ToDidJson \<Rightarrow> (st, handle_did_json env service_did r)
      | ToHealth \<Rightarrow> handle_health env r st
      | ToTestRegister \<Rightarrow> handle_test_register env r st
      | ToTestPush \<Rightarrow> handle_test_push r st
      | XrpcWrongMethod allowed \<Rightarrow>
          (st, with_header ''Allow'' allowed (http_error ''Method Not Allowed'' 405))
      | NoXrpcRoute \<Rightarrow> (st, http_error ''404 page not found'' 404))"

end
