(* ===== verification/Xrpc_Theorems.thy ===== *)
theory Xrpc_Theorems
  imports Xrpc Go_Json_Roundtrip
begin

text \<open>
  What the XRPC handlers promise: who can register, what a registration does, the round trip with
  its removal, and the form of the answers.
\<close>

subsection \<open>What a decoder cannot produce\<close>

lemma dec_struct_keeps:
  assumes "list_all (\<lambda>f. \<forall>j r. P r \<longrightarrow> P (fst (snd f j r))) fs" and "P r"
  shows "P (fst (dec_struct fs j r))"
proof -
  have member: "P (fst (dec_member fs m acc))" if "P (fst acc)" for m and acc :: "'a \<times> bool"
  proof (cases "find_field fs (fst m)")
    case (Some d)
    then have "d \<in> snd ` set fs"
      by (auto simp: find_field_def find_Some_iff split: option.splits dest!: map_of_SomeD
          intro: rev_image_eqI) (metis nth_mem rev_image_eqI snd_conv)
    then have "P (fst (d (snd m) (fst acc)))" using that assms(1) by (auto simp: list_all_iff)
    then show ?thesis using Some by (cases "d (snd m) (fst acc)") (simp add: dec_member_def)
  qed (simp add: dec_member_def that)
  have "P (fst (fold (dec_member fs) ms acc))" if "P (fst acc)" for ms and acc :: "'a \<times> bool"
    using that
  proof (induction ms arbitrary: acc)
    case (Cons m ms)
    then show ?case using Cons.IH [OF member [OF Cons.prems, of m]] by simp
  qed simp
  then show ?thesis using assms(2) by (cases j) (simp_all add: dec_struct_def)
qed

lemma parse_int64_range: "parse_int64 s = Some n \<Longrightarrow> - (2 ^ 63) \<le> n \<and> n < 2 ^ 63"
  by (auto simp: parse_int64_def Let_def split: option.splits if_splits)

lemma claims_exp_range:
  assumes "unmarshal (dec_struct jwt_claims_fields) empty_claims payload = Some c"
  shows "- (2 ^ 63) \<le> jc_exp c" "jc_exp c < 2 ^ 63"
proof -
  have "- (2 ^ 63) \<le> jc_exp (fst (dec_struct jwt_claims_fields j empty_claims)) \<and>
      jc_exp (fst (dec_struct jwt_claims_fields j empty_claims)) < 2 ^ 63" for j
    by (rule dec_struct_keeps)
      (auto simp: jwt_claims_fields_def dec_field_def empty_claims_def dec_int64_def dest: parse_int64_range
        split: json.splits option.splits prod.splits)
  then show "- (2 ^ 63) \<le> jc_exp c" "jc_exp c < 2 ^ 63"
    using assms by (auto simp: unmarshal_def decode_result_def split: option.splits prod.splits if_splits)
      (metis fst_conv)+
qed

lemma int64_minus_exact:
  "0 \<le> b \<Longrightarrow> b \<le> a \<Longrightarrow> a < 2 ^ 63 \<Longrightarrow> int64_minus a b = a - b"
  by (simp add: int64_minus_def)

lemma join_str_Cons_char: "join_str sep ((a # x) # xs) = a # join_str sep (x # xs)"
  by (cases xs) simp_all

lemma join_split_on: "join_str [c] (split_on c s) = s"
  by (induction s) (auto simp: join_str_Cons_char neq_Nil_conv split: list.splits)

lemma three_parts:
  "length (split_on c s) = 3 \<Longrightarrow>
     s = split_on c s ! 0 @ c # split_on c s ! 1 @ c # split_on c s ! 2"
  using join_split_on [of c s]
  by (cases "split_on c s"; cases "tl (split_on c s)"; cases "tl (tl (split_on c s))") auto

subsection \<open>Who is authenticated\<close>

text \<open>What the token of an authenticated request is, for the key the issuer's document names.\<close>

definition signed_by_issuer ::
  "'d xrpc_env \<Rightarrow> string \<Rightarrow> string \<Rightarrow> string \<Rightarrow> string \<Rightarrow> 'd \<Rightarrow> 'd \<Rightarrow> bool" where
  "signed_by_issuer env iss p0 p1 p2 w w' \<longleftrightarrow>
     (\<exists>resolve doc key sig alg. xe_resolver env = Some resolve \<and> resolve iss w = (w', Inr doc) \<and>
        get_signing_key (xe_secp env) doc = Inr key \<and> b64_decode raw_url_encoding p2 = Some sig \<and>
        (alg, ec_curve key) \<in> {(''ES256'', P256), (''ES256K'', Secp256k1)} \<and>
        (\<exists>json hdr. b64_decode raw_url_encoding p0 = Some json \<and>
           unmarshal (dec_struct jwt_header_fields) empty_jwt_header json = Some hdr \<and> jh_alg hdr = alg) \<and>
        verify_ecdsa_signature env key (xe_sha256 env (p0 @ ''.'' @ p1)) sig)"

lemma check_signature_sound:
  assumes "check_signature env iss p0 p1 p2 w = (w', Inr did)"
  shows "did = iss" "signed_by_issuer env iss p0 p1 p2 w w'"
proof -
  obtain json hdr where hdr: "b64_decode raw_url_encoding p0 = Some json"
      "unmarshal (dec_struct jwt_header_fields) empty_jwt_header json = Some hdr"
      "jh_alg hdr = ''ES256'' \<or> jh_alg hdr = ''ES256K''"
    using assms by (auto simp: check_signature_def split: option.splits if_splits)
  obtain resolve doc where res: "xe_resolver env = Some resolve" "resolve iss w = (w', Inr doc)"
    using assms hdr
    by (fastforce simp: check_signature_def Let_def split: option.splits prod.splits sum.splits)
  obtain key sig where key: "get_signing_key (xe_secp env) doc = Inr key"
      "b64_decode raw_url_encoding p2 = Some sig"
    using assms hdr res by (auto simp: check_signature_def split: option.splits sum.splits)
  have last: "did = iss \<and> verify_ecdsa_signature env key (xe_sha256 env (p0 @ ''.'' @ p1)) sig \<and>
      (jh_alg hdr, ec_curve key) \<in> {(''ES256'', P256), (''ES256K'', Secp256k1)}"
    using assms hdr res key
    by (cases "ec_curve key") (auto simp: check_signature_def Let_def split: if_splits)
  then show "did = iss" "signed_by_issuer env iss p0 p1 p2 w w'"
    using hdr res key unfolding signed_by_issuer_def by blast+
qed

lemma check_claims_sound:
  assumes "check_claims env lxm now c = None" and "0 \<le> now" and "jc_exp c < 2 ^ 63"
  shows "now \<le> jc_exp c" "jc_exp c \<le> now + 300" "has_prefix (jc_iss c) ''did:''"
    "jc_aud c = xe_service_did env" "jc_lxm c = lxm"
proof -
  show exp: "now \<le> jc_exp c" using assms(1) by (auto simp: check_claims_def split: if_splits)
  have "int64_minus (jc_exp c) now = jc_exp c - now" by (rule int64_minus_exact [OF assms(2) exp assms(3)])
  then show "jc_exp c \<le> now + 300"
    using assms(1) by (auto simp: check_claims_def max_lifetime_seconds_def split: if_splits)
qed (use assms(1) in \<open>auto simp: check_claims_def split: if_splits\<close>)

text \<open>
  C2: Outside the development mode a request is taken for a request of an account only when it came
  through Cloudflare or from the machine itself and carries a token of three parts that names that
  account as issuer, this gateway as audience and this very method, expires within the next five
  minutes, and whose signature verifies with the signing key of the account's own DID document,
  under the algorithm of that key's curve.\<close>

theorem verify_auth_sound:
  assumes "\<not> xe_dev env" and "0 \<le> now" and "verify_auth env lxm now r w = (w', Inr did)"
  shows "(is_loopback_addr (req_remote r) \<or> req_header r ''CF-Connecting-IP'' \<noteq> []) \<and>
    (\<exists>p0 p1 p2 payload claims.
       req_header r ''Authorization'' = ''Bearer '' @ p0 @ ''.'' @ p1 @ ''.'' @ p2 \<and>
       b64_decode raw_url_encoding p1 = Some payload \<and>
       unmarshal (dec_struct jwt_claims_fields) empty_claims payload = Some claims \<and>
       jc_iss claims = did \<and> has_prefix did ''did:'' \<and> jc_aud claims = xe_service_did env \<and>
       jc_lxm claims = lxm \<and> now \<le> jc_exp claims \<and> jc_exp claims \<le> now + 300 \<and>
       signed_by_issuer env did p0 p1 p2 w w')"
proof -
  have transit: "require_cloudflare_transit env r = None"
    using assms(3) by (auto simp: verify_auth_def split: option.splits)
  define parts where "parts = split_on (CHR ''.'') (trim_prefix (req_header r ''Authorization'') ''Bearer '')"
  have bearer: "has_prefix (req_header r ''Authorization'') ''Bearer ''" "length parts = 3"
    using assms(1,3) transit by (auto simp: verify_auth_def Let_def parts_def split: if_splits)
  obtain payload claims where claims: "b64_decode raw_url_encoding (parts ! 1) = Some payload"
      "unmarshal (dec_struct jwt_claims_fields) empty_claims payload = Some claims"
      "check_claims env lxm now claims = None"
      "check_signature env (jc_iss claims) (parts ! 0) (parts ! 1) (parts ! 2) w = (w', Inr did)"
    using assms(1,3) transit bearer
    by (auto simp: verify_auth_def Let_def parts_def [symmetric] split: option.splits)
  have auth: "req_header r ''Authorization'' = ''Bearer '' @ parts ! 0 @ ''.'' @ parts ! 1 @ ''.'' @ parts ! 2"
  proof -
    obtain t where t: "req_header r ''Authorization'' = ''Bearer '' @ t"
      using bearer(1) by (rule has_prefixE)
    have "trim_prefix (''Bearer '' @ t) ''Bearer '' = t" by (rule trim_prefix_append)
    then have p: "parts = split_on (CHR ''.'') t" by (simp only: parts_def t)
    have "t = parts ! 0 @ ''.'' @ parts ! 1 @ ''.'' @ parts ! 2"
      using three_parts [of "CHR ''.''" t] bearer(2) by (simp add: p)
    then show ?thesis using t by metis
  qed
  have "is_loopback_addr (req_remote r) \<or> req_header r ''CF-Connecting-IP'' \<noteq> []"
    using transit assms(1) by (auto simp: require_cloudflare_transit_def split: if_splits)
  moreover note auth claims(1,2) check_signature_sound [OF claims(4)]
    check_claims_sound [OF claims(3) assms(2) claims_exp_range(2) [OF claims(2)]]
  ultimately show ?thesis by blast
qed

text \<open>The token a client makes: the three parts in unpadded base64url.\<close>

definition token_input :: "json \<Rightarrow> json \<Rightarrow> string" where
  "token_input hdr claims =
     b64_encode raw_url_encoding (json_text hdr) @ ''.'' @ b64_encode raw_url_encoding (json_text claims)"

definition service_token :: "json \<Rightarrow> json \<Rightarrow> string \<Rightarrow> string" where
  "service_token hdr claims sig = token_input hdr claims @ ''.'' @ b64_encode raw_url_encoding sig"

lemma encoded_no_dot: "CHR ''.'' \<notin> set (b64_encode raw_url_encoding buf)"
proof -
  have "enc_alphabet raw_url_encoding = url_alphabet" "\<not> enc_padded raw_url_encoding"
    by (simp_all add: raw_url_encoding_def)
  moreover have "CHR ''.'' \<notin> set url_alphabet" by (simp add: url_alphabet_def)
  ultimately show ?thesis using set_b64_encode [of raw_url_encoding buf] by auto
qed

lemma service_token_parts:
  "split_on (CHR ''.'') (service_token hdr claims sig) =
     [b64_encode raw_url_encoding (json_text hdr), b64_encode raw_url_encoding (json_text claims),
      b64_encode raw_url_encoding sig]"
  by (simp add: service_token_def token_input_def split_on_append split_on_notin encoded_no_dot)

text \<open>
  A client that follows the protocol gets through: a token whose header names the algorithm of
  the issuer's key, whose claims pass the checks, and whose signature over its first two parts
  verifies with the key of the issuer's document is accepted for the issuer.\<close>

theorem service_token_accepted:
  assumes "\<not> xe_dev env" and "require_cloudflare_transit env r = None"
    and "req_header r ''Authorization'' = ''Bearer '' @ service_token hj cj sig"
    and "json_fits max_nesting hj" and "json_fits max_nesting cj"
    and "decode_result (dec_struct jwt_header_fields) empty_jwt_header (Some hj) = Some hdr"
    and "decode_result (dec_struct jwt_claims_fields) empty_claims (Some cj) = Some claims"
    and "check_claims env lxm now claims = None"
    and "xe_resolver env = Some resolve" and "resolve (jc_iss claims) w = (w', Inr doc)"
    and "get_signing_key (xe_secp env) doc = Inr key"
    and "jh_alg hdr = (if ec_curve key = P256 then ''ES256'' else ''ES256K'')"
    and "verify_ecdsa_signature env key (xe_sha256 env (token_input hj cj)) sig"
  shows "verify_auth env lxm now r w = (w', Inr (jc_iss claims))"
proof -
  let ?p0 = "b64_encode raw_url_encoding (json_text hj)"
  let ?p1 = "b64_encode raw_url_encoding (json_text cj)"
  let ?p2 = "b64_encode raw_url_encoding sig"
  have pre: "has_prefix (''Bearer '' @ service_token hj cj sig) ''Bearer ''" by (rule has_prefix_append)
  have trim: "trim_prefix (''Bearer '' @ service_token hj cj sig) ''Bearer '' = service_token hj cj sig"
    by (rule trim_prefix_append)
  have "check_signature env (jc_iss claims) ?p0 ?p1 ?p2 w = (w', Inr (jc_iss claims))"
    using assms(6,9-13) by (simp add: check_signature_def b64_decode_encode unmarshal_def
        json_parse_text [OF assms(4)] token_input_def Let_def)
  then have "verify_auth env lxm now r w = (w', Inr (jc_iss claims))"
    unfolding verify_auth_def assms(2,3) option.case Let_def eqTrueI [OF pre] trim service_token_parts
    using assms(1,7,8) by (simp add: b64_decode_encode unmarshal_def json_parse_text [OF assms(5)])
  then show ?thesis .
qed

subsection \<open>A request that is accepted\<close>

definition demo_header_json :: json where
  "demo_header_json = JObj [(''alg'', JStr ''ES256''), (''typ'', JStr ''JWT'')]"

definition demo_claims_json :: "string \<Rightarrow> json" where
  "demo_claims_json lxm = JObj [(''iss'', JStr ''did:plc:x''), (''aud'', JStr ''did:web:g''),
     (''lxm'', JStr lxm), (''exp'', JNum ''100'')]"

definition demo_claims :: "string \<Rightarrow> jwt_claims" where
  "demo_claims lxm = \<lparr>jc_iss = ''did:plc:x'', jc_aud = ''did:web:g'', jc_lxm = lxm, jc_exp = 100\<rparr>"

definition demo_doc :: did_document where
  "demo_doc = \<lparr>dd_id = ''did:plc:x'', dd_methods = [\<lparr>vm_id = ''did:plc:x#atproto'', vm_type = [],
     vm_controller = [], vm_multibase = [],
     vm_jwk = Some \<lparr>jwk_kty = ''EC'', jwk_crv = ''P-256'', jwk_x = [], jwk_y = []\<rparr>\<rparr>]\<rparr>"

definition demo_xrpc_env :: "nat xrpc_env" where
  "demo_xrpc_env = \<lparr>xe_dev = False, xe_service_did = ''did:web:g'',
     xe_resolver = Some (\<lambda>did n. (Suc n, Inr demo_doc)), xe_secp = (\<lambda>_. Inl ''bad point''),
     xe_sha256 = rev, xe_verify = (\<lambda>key hash a b. True), xe_verify_asn1 = (\<lambda>key hash sig. sig = ''s''),
     xe_stats = None, xe_notify = True\<rparr>"

definition demo_request :: "string \<Rightarrow> string \<Rightarrow> request" where
  "demo_request lxm body = \<lparr>req_method = ''POST'', req_path = ''/xrpc/'' @ lxm,
     req_headers = [''Authorization'' \<mapsto> ''Bearer '' @ service_token demo_header_json (demo_claims_json lxm) ''s'',
       ''Cf-Connecting-Ip'' \<mapsto> ''192.0.2.1''], req_remote = [], req_body = Some body\<rparr>"

lemma demo_env_fields:
  "\<not> xe_dev demo_xrpc_env" "xe_service_did demo_xrpc_env = ''did:web:g''"
  "xe_resolver demo_xrpc_env = Some (\<lambda>did n. (Suc n, Inr demo_doc))"
  by (simp_all add: demo_xrpc_env_def)

lemma demo_headers [simp]:
  "req_header (demo_request lxm body) ''Authorization'' =
     ''Bearer '' @ service_token demo_header_json (demo_claims_json lxm) ''s''"
  "req_header (demo_request lxm body) ''CF-Connecting-IP'' = ''192.0.2.1''"
  by (simp_all add: req_header_def demo_request_def)

lemma demo_authenticated:
  assumes "lxm \<in> {lexicon_register_push, lexicon_unregister_push}"
  shows "verify_auth demo_xrpc_env lxm 50 (demo_request lxm body) w = (Suc w, Inr ''did:plc:x'')"
proof -
  let ?key = "\<lparr>ec_curve = P256, ec_x = 0, ec_y = 0\<rparr>"
  have key: "get_signing_key (xe_secp demo_xrpc_env) demo_doc = Inr ?key" by code_simp
  have ver: "verify_ecdsa_signature demo_xrpc_env ?key hash ''s''" for hash
    by (simp add: verify_ecdsa_signature_def demo_xrpc_env_def curve_bits_def)
  have transit: "require_cloudflare_transit demo_xrpc_env (demo_request lxm body) = None"
    by (simp add: require_cloudflare_transit_def)
  have fits: "json_fits max_nesting demo_header_json" "json_fits max_nesting (demo_claims_json lxm)"
    using assms
    by (auto simp: demo_header_json_def demo_claims_json_def max_nesting_def plain_json_utf8
        plain_json_def lexicon_register_push_def lexicon_unregister_push_def num_ok_digits is_digit_def)
  have hdr: "decode_result (dec_struct jwt_header_fields) empty_jwt_header (Some demo_header_json) =
      Some \<lparr>jh_alg = ''ES256'', jh_typ = ''JWT''\<rparr>"
    by (simp add: decode_result_def dec_struct_def dec_member_def find_field_def jwt_header_fields_def
        dec_field_def dec_string_def empty_jwt_header_def demo_header_json_def)
  have claims: "decode_result (dec_struct jwt_claims_fields) empty_claims (Some (demo_claims_json lxm)) =
      Some (demo_claims lxm)"
    by (simp add: decode_result_def dec_struct_def dec_member_def find_field_def jwt_claims_fields_def
        dec_field_def dec_string_def dec_int64_def parse_int64_def empty_claims_def demo_claims_json_def
        demo_claims_def is_digit_def has_prefix_def)
  have ok: "check_claims demo_xrpc_env lxm 50 (demo_claims lxm) = None"
    by (simp add: check_claims_def demo_env_fields demo_claims_def int64_minus_def max_lifetime_seconds_def
        has_prefix_def)
  have alg: "jh_alg \<lparr>jh_alg = ''ES256'', jh_typ = ''JWT''\<rparr> =
      (if ec_curve ?key = P256 then ''ES256'' else ''ES256K'')" by simp
  have resolve: "(\<lambda>did n. (Suc n, Inr demo_doc)) (jc_iss (demo_claims lxm)) w = (Suc w, Inr demo_doc)" by simp
  have "verify_auth demo_xrpc_env lxm 50 (demo_request lxm body) w =
      (Suc w, Inr (jc_iss (demo_claims lxm)))"
    by (rule service_token_accepted [OF demo_env_fields(1) transit demo_headers(1) fits hdr claims ok
          demo_env_fields(3) resolve key alg ver])
  then show ?thesis by (simp add: demo_claims_def)
qed

theorem verify_auth_sound_witness:
  "\<exists>p0 p1 p2. req_header (demo_request lexicon_register_push []) ''Authorization'' = ''Bearer '' @ p0 @ ''.'' @ p1 @ ''.'' @ p2 \<and>
     signed_by_issuer demo_xrpc_env ''did:plc:x'' p0 p1 p2 0 1"
  using verify_auth_sound [OF demo_env_fields(1) _ demo_authenticated, of lexicon_register_push "[]" 0] by auto

theorem service_token_accepted_witness:
  "verify_auth demo_xrpc_env lexicon_register_push 50 (demo_request lexicon_register_push []) 0 =
     (1, Inr ''did:plc:x'')"
  using demo_authenticated [of lexicon_register_push "[]" 0] by simp

subsection \<open>What a registration does\<close>

definition acceptable :: "'d xrpc_env \<Rightarrow> push_request \<Rightarrow> bool" where
  "acceptable env req \<longleftrightarrow>
     pr_service_did req = xe_service_did env \<and> pr_service_did req \<noteq> [] \<and> pr_token req \<noteq> [] \<and>
     pr_app req \<noteq> [] \<and> pr_platform req \<in> {''ios'', ''android'', ''web''} \<and>
     length (pr_token req) \<le> 2048 \<and> length (pr_app req) \<le> 256"

lemma acceptable_iff:
  "\<not> acceptable env req \<longleftrightarrow>
     (pr_service_did req = [] \<or> pr_token req = [] \<or> pr_platform req = [] \<or> pr_app req = []) \<or>
     pr_service_did req \<noteq> xe_service_did env \<or>
     (pr_platform req \<noteq> ''ios'' \<and> pr_platform req \<noteq> ''android'' \<and> pr_platform req \<noteq> ''web'') \<or>
     length (pr_token req) > 2048 \<or> length (pr_app req) > 256"
  by (auto simp: acceptable_def not_less)

lemma refusals:
  "(if c1 then (s, json_error_message e m1 n) else if c2 then (s, json_error_message e m2 n)
    else if c3 then (s, json_error_message e m3 n) else if c4 then (s, json_error_message e m4 n)
    else if c5 then (s, json_error_message e m5 n) else t) =
   (if c1 \<or> c2 \<or> c3 \<or> c4 \<or> c5
    then (s, json_error_message e
            (if c1 then m1 else if c2 then m2 else if c3 then m3 else if c4 then m4 else m5) n)
    else t)"
  by simp

lemma answer_status [simp]:
  "res_status (json_error e n) = n" "res_status (json_error_message e m n) = n"
  "res_status (json_answer b) = 200"
  by (simp_all add: json_error_def json_error_message_def json_answer_def)

abbreviation token_of_request :: "string \<Rightarrow> push_request \<Rightarrow> push_token" where
  "token_of_request actor req \<equiv> \<lparr>pt_actor = actor, pt_platform = pr_platform req,
     pt_token = pr_token req, pt_app = pr_app req\<rparr>"

lemma maybe_start_keeps:
  assumes "maybe_start_blocks_backfill actor s = (start, s', l)"
  shows "push_tokens s' = push_tokens s" "registered_dids s' = registered_dids s"
    "healthy s' = healthy s"
  using assms mark_blocks_backfilled_effect [of actor s]
  by (auto simp: maybe_start_blocks_backfill_def split: sum.splits)

text \<open>
  An account's blocks are fetched once: the first registration claims the backfill in the table
  of backfilled accounts and starts it.
\<close>

definition backfill_claimed :: "string \<Rightarrow> 'd xrpc_state \<Rightarrow> 'd xrpc_state \<Rightarrow> bool" where
  "backfill_claimed actor st st' \<longleftrightarrow>
     (let claimed = backfilled_rows (xs_store st) in
      if actor \<in> set claimed
      then xs_backfills st' = xs_backfills st \<and> backfilled_rows (xs_store st') = claimed
      else xs_backfills st' = xs_backfills st @ [actor] \<and>
        backfilled_rows (xs_store st') = claimed @ [actor])"

lemma maybe_start_claims:
  assumes "maybe_start_blocks_backfill actor s = (start, s', l)" and "healthy s"
  shows "start = (actor \<notin> set (backfilled_rows s))"
    "backfilled_rows s' = (if start then backfilled_rows s @ [actor] else backfilled_rows s)"
  using assms
  by (auto simp: maybe_start_blocks_backfill_def mark_blocks_backfilled_def Let_def
      split: sum.splits if_splits)

lemma register_token_healthy:
  assumes "healthy s" and "p \<in> token_platforms"
    and "other_tokens a t (push_tokens s) < 20"
  shows "snd (register_token a p t i s) = None"
  using assms by (simp add: register_token_def Let_def max_tokens_per_did_def)

lemma register_push_cases:
  assumes "handle_register_push env now r st = (st', res)"
  obtains (unauthenticated) err w where
      "snd (verify_auth env lexicon_register_push now r (xs_world st)) = Inl err"
      "st' = st\<lparr>xs_world := w\<rparr>" "res_status res = 401"
    | (refused) actor w where
      "snd (verify_auth env lexicon_register_push now r (xs_world st)) = Inr actor"
      "st' = st\<lparr>xs_world := w\<rparr>" "res_status res = 400"
      "\<And>req. decode_limited (dec_struct push_request_fields) empty_push_request r = Some req \<Longrightarrow>
         \<not> acceptable env req"
    | (accepted) actor w req where
      "snd (verify_auth env lexicon_register_push now r (xs_world st)) = Inr actor"
      "decode_limited (dec_struct push_request_fields) empty_push_request r = Some req"
      "acceptable env req"
      "(case register_token actor (pr_platform req) (pr_token req) (pr_app req) (xs_store st) of
          (s, Some err) \<Rightarrow> (st\<lparr>xs_world := w, xs_store := s\<rparr>, json_error ''internal_error'' 500)
        | (s, None) \<Rightarrow>
            (case maybe_start_blocks_backfill actor s of
               (start, s', _) \<Rightarrow> (st\<lparr>xs_world := w, xs_store := s',
                  xs_backfills := xs_backfills st @ (if start then [actor] else []),
                  xs_notified := xs_notified st + (if xe_notify env then 1 else 0)\<rparr>,
                json_answer ''{}''))) = (st', res)"
proof -
  obtain w auth where auth: "verify_auth env lexicon_register_push now r (xs_world st) = (w, auth)" by fastforce
  note step = assms [unfolded handle_register_push_def auth prod.case Let_def]
  show thesis
  proof (cases auth)
    case (Inl err)
    then show thesis using step auth by (intro unauthenticated [of err w]) auto
  next
    case (Inr actor)
    note step = step [unfolded Inr sum.case]
    show thesis
    proof (cases "decode_limited (dec_struct push_request_fields) empty_push_request r")
      case None
      then show thesis using step auth Inr by (intro refused [of actor w]) auto
    next
      case (Some req)
      note step = step [unfolded Some option.case refusals acceptable_iff [symmetric]]
      show thesis
      proof (cases "acceptable env req")
        case False
        have "st' = st\<lparr>xs_world := w\<rparr> \<and> res_status res = 400"
          using step by (simp only: False simp_thms if_True prod.inject) (elim conjE, hypsubst, simp)
        then show thesis using auth Inr False Some by (intro refused [of actor w]) auto
      next
        case True
        have run: "(case register_token actor (pr_platform req) (pr_token req) (pr_app req) (xs_store st) of
          (s, Some err) \<Rightarrow> (st\<lparr>xs_world := w, xs_store := s\<rparr>, json_error ''internal_error'' 500)
        | (s, None) \<Rightarrow>
            (case maybe_start_blocks_backfill actor s of
               (start, s', _) \<Rightarrow> (st\<lparr>xs_world := w, xs_store := s',
                  xs_backfills := xs_backfills st @ (if start then [actor] else []),
                  xs_notified := xs_notified st + (if xe_notify env then 1 else 0)\<rparr>,
                json_answer ''{}''))) = (st', res)"
          using step by (simp only: True simp_thms if_False) simp
        show thesis
          by (rule accepted [OF _ Some True run]) (simp add: auth Inr)
      qed
    qed
  qed
qed

lemma register_push_stored:
  assumes "(case register_token actor (pr_platform req) (pr_token req) (pr_app req) (xs_store st) of
          (s, Some err) \<Rightarrow> (st\<lparr>xs_world := w, xs_store := s\<rparr>, json_error ''internal_error'' 500)
        | (s, None) \<Rightarrow>
            (case maybe_start_blocks_backfill actor s of
               (start, s', _) \<Rightarrow> (st\<lparr>xs_world := w, xs_store := s',
                  xs_backfills := xs_backfills st @ (if start then [actor] else []),
                  xs_notified := xs_notified st + (if xe_notify env then 1 else 0)\<rparr>,
                json_answer ''{}''))) = (st', res)"
  shows "(res_status res = 200 \<and> other_tokens actor (pr_token req) (push_tokens (xs_store st)) < 20 \<and>
      push_tokens (xs_store st') = upsert_token (token_of_request actor req) (push_tokens (xs_store st)) \<and>
      registered_dids (xs_store st') = insert actor (registered_dids (xs_store st)) \<and>
      xs_backfills st' \<in> {xs_backfills st, xs_backfills st @ [actor]} \<and>
      (healthy (xs_store st) \<longrightarrow> backfill_claimed actor st st') \<and>
      xs_notified st' = xs_notified st + (if xe_notify env then 1 else 0)) \<or>
    (res_status res = 500 \<and> (\<exists>n. xs_store st' = (xs_store st)\<lparr>db_calls := n\<rparr>) \<and>
      xs_backfills st' = xs_backfills st \<and> xs_notified st' = xs_notified st \<and>
      \<not> (healthy (xs_store st) \<and> pr_platform req \<in> token_platforms \<and>
         other_tokens actor (pr_token req) (push_tokens (xs_store st)) < 20))"
  using register_token_effect [of actor "pr_platform req" "pr_token req" "pr_app req" "xs_store st"]
proof (elim disjE exE conjE)
  fix n e
  assume "register_token actor (pr_platform req) (pr_token req) (pr_app req) (xs_store st) =
    ((xs_store st)\<lparr>db_calls := n\<rparr>, Some e)"
  then show ?thesis
    using assms register_token_healthy [of "xs_store st" "pr_platform req" actor "pr_token req" "pr_app req"]
    by auto
next
  fix n
  define s0 where "s0 = (xs_store st)\<lparr>db_calls := n,
      push_tokens := upsert_token (token_of_request actor req) (push_tokens (xs_store st)),
      registered_dids := insert actor (registered_dids (xs_store st))\<rparr>"
  assume lt: "other_tokens actor (pr_token req) (push_tokens (xs_store st)) < max_tokens_per_did"
    and "register_token actor (pr_platform req) (pr_token req) (pr_app req) (xs_store st) =
      ((xs_store st)\<lparr>db_calls := n,
        push_tokens := upsert_token (token_of_request actor req) (push_tokens (xs_store st)),
        registered_dids := insert actor (registered_dids (xs_store st))\<rparr>, None)"
  then have reg: "register_token actor (pr_platform req) (pr_token req) (pr_app req) (xs_store st) = (s0, None)"
    by (simp add: s0_def)
  obtain start s' l where m: "maybe_start_blocks_backfill actor s0 = (start, s', l)" by (metis prod_cases3)
  have s0: "push_tokens s0 = upsert_token (token_of_request actor req) (push_tokens (xs_store st))"
    "registered_dids s0 = insert actor (registered_dids (xs_store st))" by (simp_all add: s0_def)
  have "xs_store st' = s'" "res = json_answer ''{}''"
    "xs_backfills st' = xs_backfills st @ (if start then [actor] else [])"
    "xs_notified st' = xs_notified st + (if xe_notify env then 1 else 0)"
    using assms by (auto simp: reg m)
  then show ?thesis
    using lt s0 maybe_start_keeps [OF m] maybe_start_claims [OF m]
    by (simp add: max_tokens_per_did_def backfill_claimed_def s0_def)
qed

lemma register_push_effects:
  assumes "handle_register_push env now r st = (st', res)" and "res_status res = 200"
    and "snd (verify_auth env lexicon_register_push now r (xs_world st)) = Inr actor"
    and "decode_limited (dec_struct push_request_fields) empty_push_request r = Some req"
  shows "push_tokens (xs_store st') = upsert_token (token_of_request actor req) (push_tokens (xs_store st))"
    "registered_dids (xs_store st') = insert actor (registered_dids (xs_store st))"
proof -
  have "push_tokens (xs_store st') = upsert_token (token_of_request actor req) (push_tokens (xs_store st)) \<and>
      registered_dids (xs_store st') = insert actor (registered_dids (xs_store st))"
    using assms(1)
  proof (cases rule: register_push_cases)
    case (accepted actor' w req')
    with assms(3,4) have "actor' = actor" "req' = req" by simp_all
    with register_push_stored [OF accepted(4)] assms(2) show ?thesis by simp
  qed (use assms(2,3) in simp_all)
  then show "push_tokens (xs_store st') = upsert_token (token_of_request actor req) (push_tokens (xs_store st))"
    "registered_dids (xs_store st') = insert actor (registered_dids (xs_store st))" by simp_all
qed

text \<open>
  C14: A call of registerPush is answered with 401 exactly when the authentication fails, and with 400
  exactly when it succeeds and the request cannot be decoded or is not acceptable. It is answered with 200 only for an
  authenticated account, an acceptable request and at most nineteen other tokens of the account,
  and on a healthy database for all of these. Then exactly that token is stored, the account is
  registered, the consumer told once, and on a healthy database the backfill of the account's blocks is claimed and
  started if it was not claimed before. Every other answer leaves all tables and indexes as they
  were and starts nothing.\<close>

theorem register_push_effect:
  assumes "handle_register_push env now r st = (st', res)"
    and "auth = snd (verify_auth env lexicon_register_push now r (xs_world st))"
    and "decoded = decode_limited (dec_struct push_request_fields) empty_push_request r"
  shows "(res_status res = 401 \<longleftrightarrow> (\<exists>err. auth = Inl err)) \<and>
    (res_status res = 400 \<longleftrightarrow>
      (\<exists>actor. auth = Inr actor) \<and> \<not> (\<exists>req. decoded = Some req \<and> acceptable env req)) \<and>
    (healthy (xs_store st) \<longrightarrow> (res_status res = 200 \<longleftrightarrow>
      (\<exists>actor req. auth = Inr actor \<and> decoded = Some req \<and> acceptable env req \<and>
         other_tokens actor (pr_token req) (push_tokens (xs_store st)) < 20))) \<and>
    ((res_status res = 200 \<and>
      (\<exists>actor req. auth = Inr actor \<and> decoded = Some req \<and> acceptable env req \<and>
         other_tokens actor (pr_token req) (push_tokens (xs_store st)) < 20 \<and>
         push_tokens (xs_store st') = upsert_token (token_of_request actor req) (push_tokens (xs_store st)) \<and>
         registered_dids (xs_store st') = insert actor (registered_dids (xs_store st)) \<and>
         xs_backfills st' \<in> {xs_backfills st, xs_backfills st @ [actor]} \<and>
         (healthy (xs_store st) \<longrightarrow> backfill_claimed actor st st') \<and>
         xs_notified st' = xs_notified st + (if xe_notify env then 1 else 0))) \<or>
     (res_status res \<in> {400, 401, 500} \<and> (\<exists>n. xs_store st' = (xs_store st)\<lparr>db_calls := n\<rparr>) \<and>
      xs_backfills st' = xs_backfills st \<and> xs_notified st' = xs_notified st))"
  using assms(1)
proof (cases rule: register_push_cases)
  case (unauthenticated err w)
  then show ?thesis unfolding assms(2,3) by (auto intro: exI [of _ "db_calls (xs_store st)"])
next
  case (refused actor w)
  then show ?thesis unfolding assms(2,3) by (auto intro: exI [of _ "db_calls (xs_store st)"])
next
  case (accepted actor w req)
  have platform: "pr_platform req \<in> token_platforms"
    using accepted(3) by (auto simp: acceptable_def token_platforms_def)
  have auth: "auth = Inr actor" and dec: "decoded = Some req"
    unfolding assms(2,3) by (rule accepted)+
  show ?thesis
    using register_push_stored [OF accepted(4)] accepted(3) platform by (auto simp: auth dec)
qed

lemma refusals4:
  "(if c1 then (s, json_error_message e m1 n) else if c2 then (s, json_error_message e m2 n)
    else if c3 then (s, json_error_message e m3 n) else if c4 then (s, json_error_message e m4 n)
    else t) =
   (if c1 \<or> c2 \<or> c3 \<or> c4
    then (s, json_error_message e (if c1 then m1 else if c2 then m2 else if c3 then m3 else m4) n)
    else t)"
  by simp

lemma unregister_push_done:
  assumes "handle_unregister_push env now r st = (st', res)" and "res_status res = 200"
  obtains actor req w where
    "verify_auth env lexicon_unregister_push now r (xs_world st) = (w, Inr actor)"
    "decode_limited (dec_struct push_request_fields) empty_push_request r = Some req"
    "unregister_token actor (pr_platform req) (pr_token req) (pr_app req) (xs_store st) = (xs_store st', None)"
proof -
  obtain w auth where auth: "verify_auth env lexicon_unregister_push now r (xs_world st) = (w, auth)"
    by fastforce
  then obtain actor where actor: "auth = Inr actor"
    using assms by (cases auth) (auto simp: handle_unregister_push_def)
  note step = assms(1) [unfolded handle_unregister_push_def auth actor prod.case sum.case Let_def]
  obtain req where req: "decode_limited (dec_struct push_request_fields) empty_push_request r = Some req"
    using step assms(2) by (cases "decode_limited (dec_struct push_request_fields) empty_push_request r") auto
  let ?un = "unregister_token actor (pr_platform req) (pr_token req) (pr_app req) (xs_store st)"
  have "(case ?un of (s, Some err) \<Rightarrow> (st\<lparr>xs_world := w, xs_store := s\<rparr>, json_error ''internal_error'' 500)
      | (s, None) \<Rightarrow> (st\<lparr>xs_world := w, xs_store := s\<rparr>, json_answer ''{}'')) = (st', res)"
    using step assms(2) unfolding req option.case refusals4
    by (simp only: xrpc_state.simps split: if_split_asm) auto
  then have "?un = (xs_store st', None)"
    using assms(2) by (auto split: prod.splits option.splits)
  with auth actor req that show thesis by blast
qed

text \<open>
  C15: Registering a token and taking it away again: after a registerPush answered 200 the stored
  token is among those notifications go to, and after an unregisterPush of the same account with
  the same fields, also answered 200, it is gone, while every other token of any account that was
  there stays.\<close>

theorem push_registration_roundtrip:
  assumes "healthy (xs_store st1)"
    and "handle_register_push env t1 r1 st = (st1, res1)" and "res_status res1 = 200"
    and "handle_unregister_push env t2 r2 st1 = (st2, res2)" and "res_status res2 = 200"
    and "snd (verify_auth env lexicon_register_push t1 r1 (xs_world st)) = Inr actor"
    and "snd (verify_auth env lexicon_unregister_push t2 r2 (xs_world st1)) = Inr actor"
    and "decode_limited (dec_struct push_request_fields) empty_push_request r1 = Some req"
    and "decode_limited (dec_struct push_request_fields) empty_push_request r2 = Some req"
  shows "is_registered actor (xs_store st1) \<and>
    (\<exists>ts. snd (get_tokens_for_did actor (xs_store st1)) = Inr ts \<and> token_of_request actor req \<in> set ts) \<and>
    push_tokens (xs_store st2) =
      filter (\<lambda>t. token_key t \<noteq> (actor, pr_token req)) (push_tokens (xs_store st))"
proof -
  obtain w1 where auth1: "verify_auth env lexicon_register_push t1 r1 (xs_world st) = (w1, Inr actor)"
    using assms(6) by (metis prod.collapse)
  have eff: "push_tokens (xs_store st1) = upsert_token (token_of_request actor req) (push_tokens (xs_store st))"
    "registered_dids (xs_store st1) = insert actor (registered_dids (xs_store st))"
    by (rule register_push_effects [OF assms(2,3,6,8)])+
  have un: "unregister_token actor (pr_platform req) (pr_token req) (pr_app req) (xs_store st1) =
      (xs_store st2, None)"
    by (rule unregister_push_done [OF assms(4,5)]) (use assms(7,9) in simp)
  have rows: "push_tokens (xs_store st2) =
      filter (\<lambda>r. r \<noteq> token_of_request actor req) (push_tokens (xs_store st1))"
    using unregister_token_effect [of actor "pr_platform req" "pr_token req" "pr_app req" "xs_store st1"]
    by (auto simp: un)
  have gone: "push_tokens (xs_store st2) =
      filter (\<lambda>t. token_key t \<noteq> (actor, pr_token req)) (push_tokens (xs_store st))"
    unfolding rows eff(1) by (auto simp: upsert_token_def token_key_def intro!: filter_cong)
  have "token_of_request actor req \<in> set (push_tokens (xs_store st1))"
    by (simp add: eff(1) upsert_token_def)
  then show ?thesis
    using gone eff(2) get_tokens_ok [OF assms(1), of actor]
    by (auto simp: is_registered_def)
qed

subsection \<open>A registration and its removal\<close>

definition demo_push_json :: json where
  "demo_push_json = JObj [(''serviceDid'', JStr ''did:web:g''), (''token'', JStr ''t''),
     (''platform'', JStr ''ios''), (''appId'', JStr ''app'')]"

definition demo_push_request :: push_request where
  "demo_push_request = \<lparr>pr_service_did = ''did:web:g'', pr_token = ''t'', pr_platform = ''ios'',
     pr_app = ''app'', pr_age_restricted = False\<rparr>"

definition demo_call :: "string \<Rightarrow> request" where
  "demo_call lxm = demo_request lxm (json_text demo_push_json)"

definition demo_xrpc_state :: "nat xrpc_state" where
  "demo_xrpc_state = \<lparr>xs_store = fresh_store, xs_world = 0, xs_notified = 0, xs_backfills = []\<rparr>"

lemma decode_limited_text:
  assumes "req_body r = Some (json_text j)" and "json_fits max_nesting j"
    and "length (json_text j) \<le> max_body_bytes"
  shows "decode_limited d zero r = decode_result d zero (Some j)"
  using assms json_first_text [OF assms(2), of "[]"] by (simp add: decode_limited_def limited_value_def)

lemma demo_call_decoded:
  "decode_limited (dec_struct push_request_fields) empty_push_request (demo_call lxm) =
     Some demo_push_request"
proof -
  have "json_fits max_nesting demo_push_json"
    by (simp add: demo_push_json_def max_nesting_def plain_json_utf8 plain_json_def)
  moreover have "length (json_text demo_push_json) \<le> max_body_bytes"
    by (simp add: demo_push_json_def max_body_bytes_def quote_str_plain plain_json_def)
  ultimately show ?thesis
    by (subst decode_limited_text [of _ demo_push_json])
      (simp_all add: demo_call_def demo_request_def decode_result_def dec_struct_def dec_member_def
        find_field_def push_request_fields_def dec_field_def dec_string_def empty_push_request_def
        demo_push_json_def demo_push_request_def)
qed

lemma demo_call_auth:
  "verify_auth demo_xrpc_env lexicon_register_push 50 (demo_call lexicon_register_push) w =
     (Suc w, Inr ''did:plc:x'')"
  "verify_auth demo_xrpc_env lexicon_unregister_push 50 (demo_call lexicon_unregister_push) w =
     (Suc w, Inr ''did:plc:x'')"
  unfolding demo_call_def by (simp_all only: demo_authenticated insert_iff simp_thms)

definition demo_registered_state :: "nat xrpc_state" where
  "demo_registered_state =
     fst (handle_register_push demo_xrpc_env 50 (demo_call lexicon_register_push) demo_xrpc_state)"

lemma demo_register:
  "handle_register_push demo_xrpc_env 50 (demo_call lexicon_register_push) demo_xrpc_state =
     (demo_registered_state, json_answer ''{}'')"
  "healthy (xs_store demo_registered_state)"
  by (simp_all add: demo_registered_state_def handle_register_push_def demo_call_auth demo_call_decoded
      demo_push_request_def demo_env_fields demo_xrpc_state_def register_token_def Let_def
      fresh_store_inv(2) fresh_store_tokens other_tokens_def max_tokens_per_did_def token_platforms_def
      maybe_start_blocks_backfill_def mark_blocks_backfilled_def)

lemma demo_unregister:
  "res_status (snd (handle_unregister_push demo_xrpc_env 50 (demo_call lexicon_unregister_push)
     demo_registered_state)) = 200"
  using demo_register(2)
  by (simp add: handle_unregister_push_def demo_call_auth demo_call_decoded demo_push_request_def
      demo_env_fields unregister_token_def Let_def)

theorem register_push_effect_witness:
  "registered_dids (xs_store demo_registered_state) =
     insert ''did:plc:x'' (registered_dids (xs_store demo_xrpc_state))"
  using register_push_effect [OF demo_register(1) refl refl] by (auto simp: demo_call_auth)

theorem push_registration_roundtrip_witness:
  "is_registered ''did:plc:x'' (xs_store demo_registered_state)"
  using push_registration_roundtrip [OF demo_register(2,1) _ prod.collapse [symmetric] demo_unregister,
      of "''did:plc:x''" demo_push_request]
  by (simp add: demo_call_auth demo_call_decoded)

subsection \<open>The form of the answers\<close>

text \<open>The body is exactly one JSON value, with white space around it at most.\<close>

definition answers_json :: "response \<Rightarrow> bool" where
  "answers_json res \<longleftrightarrow> json_parse (res_body res) \<noteq> None"

lemma json_parse_line:
  assumes "json_fits max_nesting j" and "rest = [] \<or> rest = [CHR 0x0A]"
  shows "json_parse (json_text j @ rest) = Some j"
proof -
  have "follow_ok rest" "skip_ws rest = []" using assms(2) by (auto simp: skip_ws_def json_ws_def)
  then show ?thesis
    using parse_value_text [OF assms(1) _ order_refl, of rest]
    by (simp add: json_parse_def del: parse_value.simps)
qed

lemma text_answers_json:
  assumes "json_fits max_nesting j" and "res_body res = json_text j @ rest"
    and "rest = [] \<or> rest = [CHR 0x0A]"
  shows "answers_json res"
  using json_parse_line [OF assms(1,3)] by (simp add: answers_json_def assms(2))

text \<open>The literal text of an error is the encoding of an object when its words are plain.\<close>

lemma error_bodies:
  "plain_json e \<Longrightarrow> res_body (json_error e n) = json_text (JObj [(''error'', JStr e)]) @ [CHR 0x0A]"
  "plain_json e \<Longrightarrow> plain_json m \<Longrightarrow> res_body (json_error_message e m n) =
     json_text (JObj [(''error'', JStr e), (''message'', JStr m)]) @ [CHR 0x0A]"
proof -
  have "plain_json ''error''" "plain_json ''message''" by (simp_all add: plain_json_def)
  note plain = this [THEN quote_str_plain]
  show "plain_json e \<Longrightarrow> res_body (json_error e n) = json_text (JObj [(''error'', JStr e)]) @ [CHR 0x0A]"
    by (simp add: json_error_def http_error_def plain quote_str_plain)
  show "plain_json e \<Longrightarrow> plain_json m \<Longrightarrow> res_body (json_error_message e m n) =
     json_text (JObj [(''error'', JStr e), (''message'', JStr m)]) @ [CHR 0x0A]"
    by (simp add: json_error_message_def http_error_def plain quote_str_plain)
qed

lemma error_answers_json:
  assumes "plain_json e"
  shows "answers_json (json_error e n)" and "plain_json m \<Longrightarrow> answers_json (json_error_message e m n)"
proof -
  have keys: "utf8_ok ''error''" "utf8_ok ''message''" by (simp_all add: plain_json_utf8 plain_json_def)
  have fits: "json_fits max_nesting (JObj [(''error'', JStr e)])"
    and "plain_json m \<Longrightarrow> json_fits max_nesting (JObj [(''error'', JStr e), (''message'', JStr m)])"
    using assms by (simp_all add: max_nesting_def plain_json_utf8 keys)
  note this(2)
  then show "plain_json m \<Longrightarrow> answers_json (json_error_message e m n)"
    using error_bodies(2) [OF assms] text_answers_json by blast
  show "answers_json (json_error e n)"
    using error_bodies(1) [OF assms] fits text_answers_json by blast
qed

lemma plain_errors [simp]:
  "plain_json ''auth_required''" "plain_json ''invalid service auth''" "plain_json ''invalid_request''"
  "plain_json ''invalid JSON''" "plain_json ''missing required fields''"
  "plain_json ''serviceDid does not match this gateway''" "plain_json ''invalid platform''"
  "plain_json ''token too long''" "plain_json ''appId too long''" "plain_json ''internal_error''"
  "plain_json ''forbidden''" "plain_json ''no_tokens''" "plain_json ''method_not_allowed''"
  by (simp_all add: plain_json_def)

lemma plain_words [simp]:
  "utf8_ok ''status''" "utf8_ok ''registered''" "utf8_ok ''found''" "utf8_ok ''tokens''"
  "utf8_ok ''ok''" "utf8_ok ''registeredDIDs''" "utf8_ok ''relayEndpoints''" "utf8_ok ''totalTokens''"
  "utf8_ok ''trackedBlocks''" "utf8_ok ''jetstream''" "utf8_ok ''@context''" "utf8_ok ''id''"
  "utf8_ok ''service''" "utf8_ok ''type''" "utf8_ok ''serviceEndpoint''" "utf8_ok ''https://''"
  "utf8_ok ''did:web:''" "utf8_ok ''#bsky_notif''" "utf8_ok ''BskyNotificationService''"
  "utf8_ok ''https://www.w3.org/ns/did/v1''"
  by (simp_all add: plain_json_utf8 plain_json_def)

lemma empty_answers_json [simp]: "answers_json (json_answer ''{}'')"
  by (rule text_answers_json [of "JObj []" _ "[]"]) (simp_all add: json_answer_def max_nesting_def)

text \<open>A body that is an encoded value and a newline.\<close>

lemma line_answers_json:
  "json_fits max_nesting j \<Longrightarrow>
     answers_json \<lparr>res_status = n, res_headers = hs, res_body = json_text j @ [CHR 0x0A]\<rparr>"
  by (rule text_answers_json [of j _ "[CHR 0x0A]"]) simp_all

lemma push_answers_json:
  "answers_json (snd (handle_register_push env now r st))"
  "answers_json (snd (handle_unregister_push env now r st))"
  unfolding handle_register_push_def handle_unregister_push_def Let_def
  by (auto simp: error_answers_json split: prod.split sum.split option.split if_split)

lemma test_answers_json:
  "answers_json (snd (handle_test_register env r st))" "answers_json (snd (handle_test_push r st))"
  unfolding handle_test_register_def handle_test_push_def Let_def
  by (auto simp: error_answers_json max_nesting_def json_nat_def num_ok_dec_text
      simp del: json_text.simps intro!: line_answers_json
      split: prod.split sum.split option.split if_split)

lemma did_answers_json:
  assumes "service_did = ''did:web:'' @ host" and "utf8_ok host"
  shows "answers_json (handle_did_json env service_did r)"
proof -
  have "\<not> length service_did < 8" "drop 8 service_did = host" by (simp_all add: assms(1))
  moreover have "utf8_ok (''https://'' @ host)" "utf8_ok service_did"
    unfolding assms(1) by (intro utf8_ok_append assms(2) plain_words)+
  ultimately show ?thesis
    by (auto simp: handle_did_json_def error_answers_json max_nesting_def
        simp del: json_text.simps append_Cons append_Nil intro!: line_answers_json)
qed

lemma health_answers_json:
  assumes "case xe_stats env of None \<Rightarrow> True | Some j \<Rightarrow> json_fits (max_nesting - 1) j"
  shows "answers_json (snd (handle_health env r st))"
  using assms
  by (auto simp: handle_health_def Let_def error_answers_json max_nesting_def json_nat_def num_ok_dec_text
      simp del: json_text.simps intro!: line_answers_json split: prod.split option.splits)

text \<open>
  C33: The body that a handler writes is exactly one JSON value, on every branch, whatever the store
  or the network do: the literal errors, the empty objects, the DID document and the health report. The
  gateway's identifier is a did:web with a host that is valid UTF-8, and the statistics of the
  consumer, which are an argument, are a value that can be encoded. The answers of the mux itself
  (404 for an unknown path, 405 for an unknown method) are plain text and excluded.\<close>

theorem xrpc_answers_json:
  assumes "service_did = ''did:web:'' @ host" and "utf8_ok host"
    and "case xe_stats env of None \<Rightarrow> True | Some j \<Rightarrow> json_fits (max_nesting - 1) j"
    and "xrpc_route_of (xe_dev env) (req_method r) (req_path r) \<notin> insert NoXrpcRoute (range XrpcWrongMethod)"
  shows "\<exists>j. json_parse (res_body (snd (xrpc_serve env service_did now r st))) = Some j"
proof -
  have "answers_json (snd (xrpc_serve env service_did now r st))"
    using assms(4)
    by (cases "xrpc_route_of (xe_dev env) (req_method r) (req_path r)")
      (auto simp: xrpc_serve_def push_answers_json test_answers_json
      did_answers_json [OF assms(1,2)] health_answers_json [OF assms(3)] method_not_allowed_def
      error_answers_json)
  then show ?thesis by (auto simp: answers_json_def)
qed

theorem xrpc_answers_json_witness:
  "\<exists>j. json_parse (res_body (snd (xrpc_serve demo_xrpc_env ''did:web:g'' 50
     (demo_call lexicon_register_push) demo_xrpc_state))) = Some j"
proof -
  have route: "xrpc_route_of False ''POST'' (''/xrpc/'' @ lexicon_register_push) = ToRegisterPush"
    by (simp add: xrpc_route_of_def)
  have host: "''did:web:g'' = ''did:web:'' @ ''g''" "utf8_ok ''g''"
    by (simp_all add: plain_json_utf8 plain_json_def)
  show ?thesis
    by (rule xrpc_answers_json [OF host])
      (simp_all only: route demo_call_def demo_request_def request.simps demo_env_fields
        demo_xrpc_env_def xrpc_env.simps option.case insert_iff xrpc_route.distinct image_iff bex_simps simp_thms)
qed

end
