(* ===== verification/Shared_Store.thy ===== *)
theory Shared_Store
  imports Relay_Theorems
begin

text \<open>
  The relay and the rest of the gateway use one database (\<open>internal/store/webpush.go\<close> beside
  \<open>internal/store/store.go\<close>): no operation of the relay touches anything but the endpoint table.
\<close>

text \<open>All of the store but the endpoints and the position of the driver and of the random source.\<close>

definition other_tables ::
  "'a db_scheme \<Rightarrow> push_token list \<times> block list \<times> verification list \<times> string list \<times> 'a" where
  "other_tables s = (push_tokens s, block_rows s, verif_rows s, backfilled_rows s, db.more s)"

lemma other_tables_upd [simp]:
  "other_tables (s\<lparr>db_calls := n\<rparr>) = other_tables s"
  "other_tables (s\<lparr>rand_calls := n\<rparr>) = other_tables s"
  "other_tables (s\<lparr>endpoint_rows := rs\<rparr>) = other_tables s"
  by (simp_all add: other_tables_def)

lemma relay_ops_other_tables:
  "other_tables (fst (create_webpush_endpoint sha e s)) = other_tables s"
  "other_tables (fst (get_webpush_endpoint sha i s)) = other_tables s"
  "other_tables (fst (delete_webpush_endpoint sha i s)) = other_tables s"
  "other_tables (fst (delete_webpush_endpoints_for_device d a s)) = other_tables s"
  "other_tables (fst (touch_webpush_endpoint sha i s)) = other_tables s"
  by (auto simp: create_webpush_endpoint_def new_endpoint_id_def get_webpush_endpoint_def
      delete_webpush_endpoint_def delete_webpush_endpoints_for_device_def touch_webpush_endpoint_def
      db_call_def Let_def split: option.splits if_splits)

lemma relay_ops_faults:
  "db_faults (fst (create_webpush_endpoint sha e s)) = db_faults s"
  "db_faults (fst (get_webpush_endpoint sha i s)) = db_faults s"
  "db_faults (fst (delete_webpush_endpoint sha i s)) = db_faults s"
  "db_faults (fst (delete_webpush_endpoints_for_device d a s)) = db_faults s"
  "db_faults (fst (touch_webpush_endpoint sha i s)) = db_faults s"
  by (auto simp: create_webpush_endpoint_def new_endpoint_id_def get_webpush_endpoint_def
      delete_webpush_endpoint_def delete_webpush_endpoints_for_device_def touch_webpush_endpoint_def
      db_call_def Let_def split: option.splits if_splits)

text \<open>
  The contract of the relay's store, with the other tables and the driver fixed as part of the
  invariant.
\<close>

interpretation shared: relay_store_laws "sqlite_relay_store sha"
  "\<lambda>s. endpoints_wf s \<and> other_tables s = v \<and> db_faults s = f" "endpoint_of sha" for sha v f
proof (unfold_locales, goal_cases)
  case (1 s i s' r)
  then show ?case using sqlite.get_frame [of s sha i s' r] relay_ops_other_tables(2) [of sha i s] relay_ops_faults(2) [of sha i s]
    by (auto simp: sqlite_relay_store_def)
next
  case (2 s i s' e)
  then show ?case using sqlite.get_found by blast
next
  case (3 s i s')
  then show ?case using sqlite.get_missing by blast
next
  case (4 s e s' i)
  then show ?case using sqlite.create_found [of s sha e s' i] relay_ops_other_tables(1) [of sha e s] relay_ops_faults(1) [of sha e s]
    by (auto simp: sqlite_relay_store_def)
next
  case (5 s e s' i j f)
  then show ?case using sqlite.create_only by blast
next
  case (6 s e s' i j f)
  then show ?case using sqlite.create_others by blast
next
  case (7 s e s' err)
  then show ?case using sqlite.create_failed [of s sha e s' err] relay_ops_other_tables(1) [of sha e s] relay_ops_faults(1) [of sha e s]
    by (auto simp: sqlite_relay_store_def)
next
  case (8 s i s')
  then show ?case using sqlite.delete_done [of s sha i s'] relay_ops_other_tables(3) [of sha i s] relay_ops_faults(3) [of sha i s]
    by (auto simp: sqlite_relay_store_def)
next
  case (9 s i s' j f)
  then show ?case using sqlite.delete_others by blast
next
  case (10 s i s' err)
  then show ?case using sqlite.delete_failed [of s sha i s' err] relay_ops_other_tables(3) [of sha i s] relay_ops_faults(3) [of sha i s]
    by (auto simp: sqlite_relay_store_def)
next
  case (11 s d a s')
  then show ?case using sqlite.delete_device_done [of s sha d a s'] relay_ops_other_tables(4) [of d a s] relay_ops_faults(4) [of d a s]
    by (auto simp: sqlite_relay_store_def)
next
  case (12 s d a s' err)
  then show ?case using sqlite.delete_device_failed [of s sha d a s' err] relay_ops_other_tables(4) [of d a s] relay_ops_faults(4) [of d a s]
    by (auto simp: sqlite_relay_store_def)
next
  case (13 s i)
  then show ?case using sqlite.touch_frame [of s sha i] relay_ops_other_tables(5) [of sha i s] relay_ops_faults(5) [of sha i s]
    by (auto simp: sqlite_relay_store_def)
qed

end
