(* ===== verification/Origin_Verify.thy ===== *)
theory Origin_Verify
  imports Http_Types
begin

text \<open>
  \<open>internal/originverify/middleware.go\<close>: a middleware around any handler with state \<open>'s\<close>. The
  lines it logs about rejected requests are kept beside that state.
\<close>

record ov_config =
  ov_secret :: string
  ov_header_name :: string
  ov_exclude_health :: bool
  ov_exclude_did_json :: bool

definition relay_prefix :: string where
  "relay_prefix = ''/relay/''"

definition is_exempt :: "request \<Rightarrow> ov_config \<Rightarrow> bool" where
  "is_exempt r cfg \<longleftrightarrow>
     (if has_prefix (req_path r) relay_prefix then True
      else if ov_exclude_health cfg \<and> req_path r = ''/health'' then True
      else if ov_exclude_did_json cfg \<and> req_path r = ''/.well-known/did.json'' then True
      else False)"

definition client_addr :: "request \<Rightarrow> string" where
  "client_addr r = (if req_remote r \<noteq> [] then req_remote r else ''unknown'')"

type_synonym 's handler = "request \<Rightarrow> 's \<Rightarrow> 's \<times> response"

type_synonym rejection = "string \<times> string \<times> string"

definition wrap :: "'s handler \<Rightarrow> ov_config \<Rightarrow> ('s \<times> rejection list) handler" where
  "wrap next cfg r st =
     (let pass = (let (s, res) = next r (fst st) in ((s, snd st), res)) in
      if ov_secret cfg = [] then pass
      else let name = (if ov_header_name cfg = [] then ''X-Origin-Verify'' else ov_header_name cfg) in
        if is_exempt r cfg then pass
        else if req_header r name \<noteq> ov_secret cfg
          then ((fst st, snd st @ [(req_method r, req_path r, client_addr r)]),
                http_error ''Forbidden'' 403)
        else pass)"

definition effective_header :: "ov_config \<Rightarrow> string" where
  "effective_header cfg =
     (if ov_header_name cfg = [] then ''X-Origin-Verify'' else ov_header_name cfg)"

text \<open>
  The middleware with a secret lets a request through exactly when its path is exempt or the
  configured header holds the secret: then the answer and the new state are those of the wrapped
  handler; otherwise the handler is not run at all and the answer is 403.\<close>

theorem wrap_gates:
  assumes "ov_secret cfg \<noteq> []"
  shows "(is_exempt r cfg \<or> req_header r (effective_header cfg) = ov_secret cfg \<longrightarrow>
      wrap next cfg r (s, l) = ((fst (next r s), l), snd (next r s))) \<and>
    (\<not> (is_exempt r cfg \<or> req_header r (effective_header cfg) = ov_secret cfg) \<longrightarrow>
      fst (fst (wrap next cfg r (s, l))) = s \<and> res_status (snd (wrap next cfg r (s, l))) = 403 \<and>
      (\<exists>addr. snd (fst (wrap next cfg r (s, l))) = l @ [(req_method r, req_path r, addr)]))"
  using assms by (auto simp: wrap_def effective_header_def Let_def split: prod.splits)

theorem wrap_gates_witness:
  "res_status (snd (wrap (\<lambda>r s. (s + 1, bare_status 200))
     \<lparr>ov_secret = ''s3cret'', ov_header_name = [], ov_exclude_health = True,
      ov_exclude_did_json = False\<rparr>
     \<lparr>req_method = ''POST'', req_path = ''/xrpc/x'', req_headers = Map.empty, req_remote = [],
      req_body = None\<rparr> (0 :: nat, []))) = 403"
  using wrap_gates [of "\<lparr>ov_secret = ''s3cret'', ov_header_name = [], ov_exclude_health = True,
      ov_exclude_did_json = False\<rparr>" "\<lparr>req_method = ''POST'', req_path = ''/xrpc/x'',
      req_headers = Map.empty, req_remote = [], req_body = None\<rparr>" "\<lambda>r s. (s + 1, bare_status 200)"
      "0 :: nat" "[]"]
  by (simp add: is_exempt_def relay_prefix_def has_prefix_def req_header_def effective_header_def)

end
