(* ===== verification/Server.thy ===== *)
theory Server
  imports Xrpc_Theorems Shared_Store Push_Senders Origin_Verify
begin

text \<open>
  The program (\<open>cmd/server/main.go\<close>): the configuration read from the environment with its fatal
  errors, the senders, and the HTTP side put together from the XRPC handlers, the relay and the
  origin check. Reading a file, parsing the APNs key and building the FCM credentials are arguments.
\<close>

subsection \<open>Configuration\<close>

text \<open>\<open>os.Getenv\<close> gives the empty string for a variable that is not set.\<close>

type_synonym environ = "string \<Rightarrow> string"

datatype fatal =
    NotPositive string string
  | NotDidWeb string
  | StoreFailed store_error
  | ApnsKeyNotBase64
  | ApnsFailed string
  | FcmKeyNotBase64
  | FcmFailed string
  | RelayNeedsDataOnly

definition get_env :: "environ \<Rightarrow> string \<Rightarrow> string \<Rightarrow> string" where
  "get_env env key fallback = (if env key \<noteq> [] then env key else fallback)"

definition get_env_int64 :: "environ \<Rightarrow> string \<Rightarrow> int \<Rightarrow> fatal + int" where
  "get_env_int64 env key fallback =
     (let v = env key in
      if v = [] then Inr fallback
      else case parse_int64 v of
        None \<Rightarrow> Inl (NotPositive key v)
      | Some n \<Rightarrow> if n \<le> 0 then Inl (NotPositive key v) else Inr n)"

definition env_true :: "environ \<Rightarrow> string \<Rightarrow> bool" where
  "env_true env key \<longleftrightarrow> get_env env key [] = ''true''"

record config =
  cf_port :: string
  cf_service_did :: string
  cf_sqlite_path :: string
  cf_jetstream_url :: string
  cf_expo_token :: string
  cf_dev :: bool
  cf_dev_public :: bool
  cf_debug :: bool
  cf_did_cache :: int
  cf_profile_cache :: int
  cf_max_decompressed :: int
  cf_max_graphemes :: int
  cf_appview :: string
  cf_relay :: bool
  cf_text_fetch :: bool
  cf_text_cache :: int
  cf_origin :: ov_config
  cf_apns_path :: string
  cf_apns_base64 :: string
  cf_apns_key_id :: string
  cf_apns_team :: string
  cf_apns_topic :: string
  cf_apns_sandbox :: bool
  cf_fcm_path :: string
  cf_fcm_base64 :: string
  cf_data_only :: bool

definition read_config :: "environ \<Rightarrow> fatal + config" where
  "read_config env =
     (let did = get_env env ''PUSH_GATEWAY_DID'' ''did:web:localhost'' in
      if \<not> has_prefix did ''did:web:'' then Inl (NotDidWeb did)
      else case get_env_int64 env ''DID_CACHE_SIZE'' 10000 of Inl e \<Rightarrow> Inl e | Inr did_cache \<Rightarrow>
      case get_env_int64 env ''PROFILE_CACHE_SIZE'' 10000 of Inl e \<Rightarrow> Inl e | Inr profile_cache \<Rightarrow>
      case get_env_int64 env ''JETSTREAM_MAX_DECOMPRESSED_BYTES'' 8388608 of
        Inl e \<Rightarrow> Inl e | Inr max_decompressed \<Rightarrow>
      case get_env_int64 env ''PUSH_POST_TEXT_MAX_GRAPHEMES'' 300 of Inl e \<Rightarrow> Inl e | Inr graphemes \<Rightarrow>
      case get_env_int64 env ''PUSH_POST_TEXT_CACHE_SIZE'' 10000 of Inl e \<Rightarrow> Inl e | Inr text_cache \<Rightarrow>
        Inr \<lparr>cf_port = get_env env ''PUSH_GATEWAY_PORT'' ''8080'',
             cf_service_did = did,
             cf_sqlite_path = get_env env ''SQLITE_PATH'' ''./push-gateway.db'',
             cf_jetstream_url = get_env env ''JETSTREAM_URL''
               ''wss://jetstream2.us-east.bsky.network/subscribe'',
             cf_expo_token = get_env env ''EXPO_PUSH_ACCESS_TOKEN'' [],
             cf_dev = env_true env ''DEV_MODE'',
             cf_dev_public = env_true env ''DEV_MODE_ALLOW_PUBLIC'',
             cf_debug = equal_fold (get_env env ''LOG_LEVEL'' ''info'') ''debug'',
             cf_did_cache = did_cache,
             cf_profile_cache = profile_cache,
             cf_max_decompressed = max_decompressed,
             cf_max_graphemes = graphemes,
             cf_appview = get_env env ''PUSH_APPVIEW_URL'' ''https://public.api.bsky.app'',
             cf_relay = env_true env ''RELAY_ENABLED'',
             cf_text_fetch = (get_env env ''PUSH_POST_TEXT_FETCH'' ''true'' = ''true''),
             cf_text_cache = text_cache,
             cf_origin = \<lparr>ov_secret = get_env env ''ORIGIN_VERIFY_SECRET'' [],
               ov_header_name = get_env env ''ORIGIN_VERIFY_HEADER_NAME'' ''X-Origin-Verify'',
               ov_exclude_health = env_true env ''ORIGIN_VERIFY_EXCLUDE_HEALTH'',
               ov_exclude_did_json = env_true env ''ORIGIN_VERIFY_EXCLUDE_DID_JSON''\<rparr>,
             cf_apns_path = get_env env ''APNS_KEY_PATH'' [],
             cf_apns_base64 = get_env env ''APNS_KEY_BASE64'' [],
             cf_apns_key_id = get_env env ''APNS_KEY_ID'' [],
             cf_apns_team = get_env env ''APNS_TEAM_ID'' [],
             cf_apns_topic = get_env env ''APNS_TOPIC'' [],
             cf_apns_sandbox = env_true env ''APNS_SANDBOX'',
             cf_fcm_path = get_env env ''FCM_SERVICE_ACCOUNT_PATH'' [],
             cf_fcm_base64 = get_env env ''FCM_SERVICE_ACCOUNT_BASE64'' [],
             cf_data_only = env_true env ''FCM_DATA_ONLY''\<rparr>)"

subsection \<open>Senders\<close>

text \<open>\<open>bo_database\<close> is the database that lies under a path.\<close>

record boot_env =
  bo_database :: "string \<Rightarrow> db"
  bo_read_file :: "string \<Rightarrow> string + string"
  bo_parse_p8 :: "string \<Rightarrow> p8_result"
  bo_creds :: "string \<Rightarrow> string option"

definition std_then_raw :: "string \<Rightarrow> string option" where
  "std_then_raw s =
     (case b64_decode std_encoding s of Some d \<Rightarrow> Some d | None \<Rightarrow> b64_decode raw_std_encoding s)"

definition setup_apns :: "boot_env \<Rightarrow> config \<Rightarrow> fatal + apns_sender option" where
  "setup_apns boot cf =
     (if cf_apns_key_id cf \<noteq> [] \<and> cf_apns_team cf \<noteq> [] \<and> cf_apns_topic cf \<noteq> [] then
        (if cf_apns_base64 cf \<noteq> [] then
           (case std_then_raw (cf_apns_base64 cf) of
              None \<Rightarrow> Inl ApnsKeyNotBase64
            | Some data \<Rightarrow>
               (case new_apns_sender_from_bytes (bo_parse_p8 boot) data (cf_apns_key_id cf)
                       (cf_apns_team cf) (cf_apns_topic cf) (cf_apns_sandbox cf) of
                  Inl err \<Rightarrow> Inl (ApnsFailed err) | Inr a \<Rightarrow> Inr (Some a)))
         else if cf_apns_path cf \<noteq> [] then
           (case new_apns_sender (bo_read_file boot) (bo_parse_p8 boot) (cf_apns_path cf)
                   (cf_apns_key_id cf) (cf_apns_team cf) (cf_apns_topic cf) (cf_apns_sandbox cf) of
              Inl err \<Rightarrow> Inl (ApnsFailed err) | Inr a \<Rightarrow> Inr (Some a))
         else Inr None)
      else Inr None)"

definition setup_fcm :: "boot_env \<Rightarrow> config \<Rightarrow> fatal + fcm_sender option" where
  "setup_fcm boot cf =
     (if cf_fcm_base64 cf \<noteq> [] \<or> cf_fcm_path cf \<noteq> [] then
        (if cf_fcm_base64 cf \<noteq> [] then
           (case std_then_raw (cf_fcm_base64 cf) of
              None \<Rightarrow> Inl FcmKeyNotBase64
            | Some data \<Rightarrow>
               (case new_fcm_sender_from_bytes (bo_creds boot) data of
                  Inl err \<Rightarrow> Inl (FcmFailed err)
                | Inr f \<Rightarrow> Inr (Some (set_data_only (cf_data_only cf) f))))
         else
           (case new_fcm_sender (bo_read_file boot) (bo_creds boot) (cf_fcm_path cf) of
              Inl err \<Rightarrow> Inl (FcmFailed err)
            | Inr f \<Rightarrow> Inr (Some (set_data_only (cf_data_only cf) f))))
      else Inr None)"

record gateway =
  gw_config :: config
  gw_store :: store
  gw_sender :: multi_sender
  gw_base_url :: string
  gw_bind :: string

text \<open>
  \<open>main\<close> up to the listening server: what can end it, the store after the report of its counts,
  the senders and the two addresses.
\<close>

definition boot :: "boot_env \<Rightarrow> environ \<Rightarrow> fatal + gateway" where
  "boot be env =
     (case read_config env of
        Inl e \<Rightarrow> Inl e
      | Inr cf \<Rightarrow>
     (case open_store (bo_database be (cf_sqlite_path cf)) of
        Inl e \<Rightarrow> Inl (StoreFailed e)
      | Inr s \<Rightarrow>
     (case setup_apns be cf of
        Inl e \<Rightarrow> Inl e
      | Inr apns \<Rightarrow>
     (case setup_fcm be cf of
        Inl e \<Rightarrow> Inl e
      | Inr fcm \<Rightarrow>
          if cf_relay cf \<and> \<not> cf_data_only cf then Inl RelayNeedsDataOnly
          else Inr \<lparr>gw_config = cf,
                    gw_store = fst (get_stats s),
                    gw_sender = (new_multi_sender (cf_expo_token cf))\<lparr>ms_apns := apns, ms_fcm := fcm\<rparr>,
                    gw_base_url = ''https://'' @ trim_prefix (cf_service_did cf) ''did:web:'',
                    gw_bind = (if cf_dev cf \<and> \<not> cf_dev_public cf then ''127.0.0.1:'' @ cf_port cf
                               else '':'' @ cf_port cf)\<rparr>))))"

subsection \<open>Serving\<close>

text \<open>\<open>path.Clean\<close> with the trailing slash kept, as the mux uses it.\<close>

definition clean_step :: "string \<Rightarrow> string list \<Rightarrow> string list" where
  "clean_step c done =
     (if c = [] \<or> c = ''.'' then done else if c = ''..'' then drop 1 done else c # done)"

definition clean_path :: "string \<Rightarrow> string" where
  "clean_path p =
     (let q = (if p = [] \<or> hd p \<noteq> CHR ''/'' then CHR ''/'' # p else p);
          np = CHR ''/'' # join_str ''/'' (rev (fold clean_step (split_on (CHR ''/'') q) [])) in
      if last q = CHR ''/'' \<and> np \<noteq> ''/'' then np @ ''/'' else np)"

record ('d, 'w) server_state =
  sv_xrpc :: "'d xrpc_state"
  sv_relay :: "(store, 'w) relay_state"

text \<open>
  The mux: an unclean path is redirected (the page that names the target is left out); the relay's patterns are there when it is enabled. Both
  handlers work on the one store, which is kept in \<open>sv_xrpc\<close>.
\<close>

definition mux_serve ::
  "'d xrpc_env \<Rightarrow> (store, 'w) relay_env \<Rightarrow> config \<Rightarrow> int \<Rightarrow> int \<Rightarrow> ('d, 'w) server_state handler" where
  "mux_serve xe re cf now_s now_ns r st =
     (if req_method r \<noteq> ''CONNECT'' \<and> clean_path (req_path r) \<noteq> req_path r
        then (st, with_header ''Location'' (clean_path (req_path r)) (bare_status 301))
      else if cf_relay cf \<and> relay_route_of (req_method r) (req_path r) \<noteq> NoRoute then
        (let (rs, res) = relay_serve re now_ns r ((sv_relay st)\<lparr>rel_store := xs_store (sv_xrpc st)\<rparr>) in
         (st\<lparr>sv_relay := rs, sv_xrpc := (sv_xrpc st)\<lparr>xs_store := rel_store rs\<rparr>\<rparr>, res))
      else
        (let (xs, res) = xrpc_serve xe (cf_service_did cf) now_s r (sv_xrpc st) in
         (st\<lparr>sv_xrpc := xs\<rparr>, res)))"

definition root_handler ::
  "'d xrpc_env \<Rightarrow> (store, 'w) relay_env \<Rightarrow> config \<Rightarrow> int \<Rightarrow> int
     \<Rightarrow> (('d, 'w) server_state \<times> rejection list) handler" where
  "root_handler xe re cf now_s now_ns = wrap (mux_serve xe re cf now_s now_ns) (cf_origin cf)"

subsection \<open>What a started gateway is like\<close>

lemma get_env_int64_pos: "get_env_int64 env key n = Inr m \<Longrightarrow> 0 < n \<Longrightarrow> 0 < m"
  by (auto simp: get_env_int64_def Let_def split: option.splits if_splits)

lemma read_config_ok:
  assumes "read_config env = Inr cf"
  shows "has_prefix (cf_service_did cf) ''did:web:''"
    "0 < cf_did_cache cf \<and> 0 < cf_profile_cache cf \<and> 0 < cf_text_cache cf \<and>
     0 < cf_max_graphemes cf \<and> 0 < cf_max_decompressed cf"
    "cf_dev cf = env_true env ''DEV_MODE''" "cf_dev_public cf = env_true env ''DEV_MODE_ALLOW_PUBLIC''"
proof -
  let ?did = "get_env env ''PUSH_GATEWAY_DID'' ''did:web:localhost''"
  have did: "has_prefix ?did ''did:web:''"
    using assms by (rule contrapos_pp) (simp add: read_config_def Let_def)
  note step = assms [unfolded read_config_def Let_def, simplified did, simplified]
  obtain a where a: "get_env_int64 env ''DID_CACHE_SIZE'' 10000 = Inr a"
    using step by (cases "get_env_int64 env ''DID_CACHE_SIZE'' 10000") simp_all
  obtain b where b: "get_env_int64 env ''PROFILE_CACHE_SIZE'' 10000 = Inr b"
    using step by (cases "get_env_int64 env ''PROFILE_CACHE_SIZE'' 10000") (simp_all add: a)
  obtain c where c: "get_env_int64 env ''JETSTREAM_MAX_DECOMPRESSED_BYTES'' 8388608 = Inr c"
    using step by (cases "get_env_int64 env ''JETSTREAM_MAX_DECOMPRESSED_BYTES'' 8388608") (simp_all add: a b)
  obtain d where d: "get_env_int64 env ''PUSH_POST_TEXT_MAX_GRAPHEMES'' 300 = Inr d"
    using step by (cases "get_env_int64 env ''PUSH_POST_TEXT_MAX_GRAPHEMES'' 300") (simp_all add: a b c)
  obtain e where e: "get_env_int64 env ''PUSH_POST_TEXT_CACHE_SIZE'' 10000 = Inr e"
    using step by (cases "get_env_int64 env ''PUSH_POST_TEXT_CACHE_SIZE'' 10000") (simp_all add: a b c d)
  have cf: "cf_service_did cf = ?did" "cf_did_cache cf = a" "cf_profile_cache cf = b"
    "cf_max_decompressed cf = c" "cf_max_graphemes cf = d" "cf_text_cache cf = e"
    using step by (auto simp: a b c d e)
  show "cf_dev cf = env_true env ''DEV_MODE''" "cf_dev_public cf = env_true env ''DEV_MODE_ALLOW_PUBLIC''"
    using step by (auto simp: a b c d e)
  show "has_prefix (cf_service_did cf) ''did:web:''" using did cf(1) by simp
  show "0 < cf_did_cache cf \<and> 0 < cf_profile_cache cf \<and> 0 < cf_text_cache cf \<and>
     0 < cf_max_graphemes cf \<and> 0 < cf_max_decompressed cf"
    unfolding cf using get_env_int64_pos [OF a] get_env_int64_pos [OF b] get_env_int64_pos [OF c]
      get_env_int64_pos [OF d] get_env_int64_pos [OF e] by simp
qed

lemma setup_fcm_mode: "setup_fcm be cf = Inr (Some f) \<Longrightarrow> fc_data_only f = cf_data_only cf"
  by (auto simp: setup_fcm_def set_data_only_def split: if_splits option.splits sum.splits)

text \<open>
  C32: A gateway that starts has an identifier of the form did:web:host, from which its public
  origin is derived, so that the DID document is always answered and never panics; the sizes of its
  three caches, the length of a post text and the size of a decompressed message are positive; with
  the relay enabled every FCM message is a data message; and it listens on 127.0.0.1 when DEV_MODE
  is set and DEV_MODE_ALLOW_PUBLIC is not, and on every address otherwise.\<close>

theorem boot_safe:
  assumes "boot be env = Inr g"
  shows "\<exists>host. cf_service_did (gw_config g) = ''did:web:'' @ host \<and> gw_base_url g = ''https://'' @ host \<and>
    res_status (handle_did_json xe (cf_service_did (gw_config g)) r) \<in> {200, 403} \<and>
    0 < cf_did_cache (gw_config g) \<and> 0 < cf_profile_cache (gw_config g) \<and>
    0 < cf_text_cache (gw_config g) \<and> 0 < cf_max_graphemes (gw_config g) \<and>
    0 < cf_max_decompressed (gw_config g) \<and>
    (cf_relay (gw_config g) \<longrightarrow>
       (case ms_fcm (gw_sender g) of None \<Rightarrow> True | Some f \<Rightarrow> fc_data_only f)) \<and>
    gw_bind g = (if env_true env ''DEV_MODE'' \<and> \<not> env_true env ''DEV_MODE_ALLOW_PUBLIC''
                 then ''127.0.0.1'' else []) @ '':'' @ cf_port (gw_config g)"
proof -
  obtain cf where cf: "read_config env = Inr cf" using assms by (auto simp: boot_def split: sum.splits)
  obtain fcm where fcm: "setup_fcm be cf = Inr fcm"
    using assms cf by (auto simp: boot_def split: sum.splits)
  have g: "gw_config g = cf" "ms_fcm (gw_sender g) = fcm" "\<not> (cf_relay cf \<and> \<not> cf_data_only cf)"
    "gw_base_url g = ''https://'' @ trim_prefix (cf_service_did cf) ''did:web:''"
    "gw_bind g = (if cf_dev cf \<and> \<not> cf_dev_public cf then ''127.0.0.1:'' @ cf_port cf else '':'' @ cf_port cf)"
    using assms cf fcm by (auto simp: boot_def new_multi_sender_def split: sum.splits if_splits)
  obtain host where host: "cf_service_did cf = ''did:web:'' @ host"
    using read_config_ok(1) [OF cf] by (rule has_prefixE)
  have "gw_base_url g = ''https://'' @ host" unfolding g(4) host by (simp only: trim_prefix_append)
  moreover have "res_status (handle_did_json xe (cf_service_did cf) r) \<in> {200, 403}"
    by (simp add: handle_did_json_def host)
  moreover have "cf_relay cf \<longrightarrow> (case fcm of None \<Rightarrow> True | Some f \<Rightarrow> fc_data_only f)"
    using g(3) fcm setup_fcm_mode [of be cf] by (auto split: option.split)
  moreover have "gw_bind g = (if env_true env ''DEV_MODE'' \<and> \<not> env_true env ''DEV_MODE_ALLOW_PUBLIC''
      then ''127.0.0.1'' else []) @ '':'' @ cf_port cf"
    unfolding g(5) read_config_ok(3,4) [OF cf] by simp
  ultimately show ?thesis
    using host read_config_ok(2) [OF cf] unfolding g(1,2) by blast
qed

text \<open>A configuration: the relay in development mode.\<close>

definition demo_environ :: environ where
  "demo_environ key =
     (if key = ''PUSH_GATEWAY_DID'' then ''did:web:g'' else if key = ''DEV_MODE'' then ''true''
      else if key = ''RELAY_ENABLED'' then ''true'' else if key = ''FCM_DATA_ONLY'' then ''true'' else [])"

definition demo_boot_env :: boot_env where
  "demo_boot_env = \<lparr>bo_database = (\<lambda>_. fresh_db), bo_read_file = (\<lambda>_. Inl ''no file''), bo_parse_p8 = (\<lambda>_. NoPemBlock), bo_creds = (\<lambda>_. None)\<rparr>"

lemma demo_boots: "\<exists>g. boot demo_boot_env demo_environ = Inr g"
  by (simp add: boot_def read_config_def get_env_int64_def get_env_def env_true_def demo_environ_def
      setup_apns_def setup_fcm_def has_prefix_def demo_boot_env_def open_fresh)

theorem boot_safe_witness:
  "\<exists>g host. boot demo_boot_env demo_environ = Inr g \<and> gw_base_url g = ''https://'' @ host"
  using demo_boots boot_safe by blast

subsection \<open>What the origin secret protects\<close>

lemma relay_paths_not_xrpc:
  assumes "has_prefix p ''/relay/''"
  shows "xrpc_route_of dev m p = NoXrpcRoute"
proof -
  obtain t where "p = ''/relay/'' @ t" using assms by (rule has_prefixE)
  then show ?thesis by (simp add: xrpc_route_of_def)
qed

lemma exempt_route:
  assumes "has_prefix p ''/relay/'' \<or> p \<in> {''/health'', ''/.well-known/did.json''}"
  shows "xrpc_route_of dev m p \<in> {NoXrpcRoute, ToHealth, ToDidJson, XrpcWrongMethod ''GET, HEAD''}"
  using assms
proof
  assume "has_prefix p ''/relay/''"
  then show ?thesis by (simp only: relay_paths_not_xrpc insert_iff simp_thms)
next
  assume "p \<in> {''/health'', ''/.well-known/did.json''}"
  then show ?thesis
    by (elim insertE emptyE) (simp_all add: xrpc_route_of_def lexicon_register_push_def
        lexicon_unregister_push_def)
qed

lemma health_reads_only:
  "other_tables (xs_store (fst (handle_health env r st))) = other_tables (xs_store st)"
  "xs_backfills (fst (handle_health env r st)) = xs_backfills st"
  "xs_notified (fst (handle_health env r st)) = xs_notified st"
  by (auto simp: handle_health_def get_stats_def count_webpush_endpoints_def db_call_def Let_def)

lemma root_handler_cases:
  assumes "root_handler xe re cf now_s now_ns r (st, log) = ((st', log'), res)"
  obtains (unmoved) "st' = st"
    | (relay) rs where "rs = fst (relay_serve re now_ns r ((sv_relay st)\<lparr>rel_store := xs_store (sv_xrpc st)\<rparr>))"
        "st' = st\<lparr>sv_relay := rs, sv_xrpc := (sv_xrpc st)\<lparr>xs_store := rel_store rs\<rparr>\<rparr>"
    | (xrpc) "st' = st\<lparr>sv_xrpc := fst (xrpc_serve xe (cf_service_did cf) now_s r (sv_xrpc st))\<rparr>"
proof -
  have "st' = st \<or> fst (mux_serve xe re cf now_s now_ns r st) = st'"
    using assms by (auto simp: root_handler_def wrap_def Let_def split: if_splits prod.splits)
  then consider "st' = st" | "fst (mux_serve xe re cf now_s now_ns r st) = st'" by blast
  then show thesis
  proof cases
    case 2
    let ?rst = "(sv_relay st)\<lparr>rel_store := xs_store (sv_xrpc st)\<rparr>"
    have "st' = st \<or> st' = st\<lparr>sv_relay := fst (relay_serve re now_ns r ?rst),
        sv_xrpc := (sv_xrpc st)\<lparr>xs_store := rel_store (fst (relay_serve re now_ns r ?rst))\<rparr>\<rparr> \<or>
      st' = st\<lparr>sv_xrpc := fst (xrpc_serve xe (cf_service_did cf) now_s r (sv_xrpc st))\<rparr>"
      using 2 by (auto simp: mux_serve_def Let_def split: if_splits prod.splits)
    then show thesis by (elim disjE) (erule unmoved, erule relay [OF refl], erule xrpc)
  qed (rule unmoved)
qed

text \<open>
  C23: With an origin secret configured, a request that does not carry it cannot change a token, a
  block, a verification or an account's registration, nor start a backfill or the consumer: it is
  answered 403, or its path lies under the relay's prefix, whose handlers touch the endpoint table
  only, or it is one of the two read-only endpoints. A path that leaves the relay's prefix by dots is
  redirected, not served.\<close>

theorem origin_secret_protects:
  assumes "ov_secret (cf_origin cf) \<noteq> []"
    and "req_header r (effective_header (cf_origin cf)) \<noteq> ov_secret (cf_origin cf)"
    and "endpoints_wf (xs_store (sv_xrpc st))" and "env_store re = sqlite_relay_store sha"
    and "root_handler xe re cf now_s now_ns r (st, log) = ((st', log'), res)"
  shows "other_tables (xs_store (sv_xrpc st')) = other_tables (xs_store (sv_xrpc st)) \<and>
    xs_backfills (sv_xrpc st') = xs_backfills (sv_xrpc st) \<and>
    xs_notified (sv_xrpc st') = xs_notified (sv_xrpc st) \<and>
    (res_status res = 403 \<or> has_prefix (req_path r) ''/relay/'' \<or>
     req_path r \<in> {''/health'', ''/.well-known/did.json''})"
proof (cases "is_exempt r (cf_origin cf)")
  case False
  then show ?thesis
    using assms(1,2,5) by (auto simp: root_handler_def wrap_def effective_header_def Let_def)
next
  case True
  then have path: "has_prefix (req_path r) ''/relay/'' \<or> req_path r \<in> {''/health'', ''/.well-known/did.json''}"
    by (auto simp: is_exempt_def relay_prefix_def split: if_splits)
  show ?thesis
    using assms(5)
  proof (cases rule: root_handler_cases)
    case (relay rs)
    have "other_tables (rel_store rs) = other_tables (xs_store (sv_xrpc st))"
      using shared.serve_keeps [OF assms(4), of "(sv_relay st)\<lparr>rel_store := xs_store (sv_xrpc st)\<rparr>"
          "other_tables (xs_store (sv_xrpc st))" "db_faults (xs_store (sv_xrpc st))" now_ns r] assms(3)
      by (simp add: relay(1))
    then show ?thesis using relay(2) path by simp
  next
    case xrpc
    then show ?thesis
      using exempt_route [OF path, of "xe_dev xe" "req_method r"] health_reads_only [of xe r "sv_xrpc st"] path
      by (auto simp: xrpc_serve_def)
  qed (use path in simp)
qed

definition demo_gateway_config :: config where
  "demo_gateway_config = (case read_config demo_environ of Inr cf \<Rightarrow>
     cf\<lparr>cf_origin := \<lparr>ov_secret = ''s3'', ov_header_name = [], ov_exclude_health = False,
       ov_exclude_did_json = False\<rparr>\<rparr>)"

lemma demo_origin:
  "cf_origin demo_gateway_config = \<lparr>ov_secret = ''s3'', ov_header_name = [], ov_exclude_health = False,
       ov_exclude_did_json = False\<rparr>"
proof -
  obtain cf where "read_config demo_environ = Inr cf"
    using demo_boots by (auto simp: boot_def split: sum.splits)
  then show ?thesis by (simp add: demo_gateway_config_def)
qed

definition demo_shared_env :: "(store, notification list) relay_env" where
  "demo_shared_env = new_relay_env (sqlite_relay_store demo_sha) (recording_sender (\<lambda>_. None))
     ''https://g'' (\<lambda>_. demo_jwt) (\<lambda>_. True)"

definition demo_server_state :: "(nat, notification list) server_state" where
  "demo_server_state = \<lparr>sv_xrpc = demo_xrpc_state, sv_relay = new_relay_state fresh_store []\<rparr>"

theorem origin_secret_protects_witness:
  "other_tables (xs_store (sv_xrpc (fst (fst (root_handler demo_xrpc_env demo_shared_env
       demo_gateway_config 50 0 (demo_post demo_register_json) (demo_server_state, [])))))) =
   other_tables fresh_store"
proof -
  have header: "req_header (demo_post demo_register_json) h = []" for h
    by (simp add: req_header_def demo_post_def)
  have "endpoints_wf (xs_store (sv_xrpc demo_server_state))"
    by (simp add: demo_server_state_def demo_xrpc_state_def endpoints_wf_def fresh_store_def fresh_db_def
        open_store_def)
  moreover have "env_store demo_shared_env = sqlite_relay_store demo_sha"
    by (simp add: demo_shared_env_def new_relay_env_def)
  ultimately show ?thesis
    using origin_secret_protects [of demo_gateway_config "demo_post demo_register_json" demo_server_state
        demo_shared_env demo_sha demo_xrpc_env 50 0 "[]"]
    by (cases "root_handler demo_xrpc_env demo_shared_env demo_gateway_config 50 0
          (demo_post demo_register_json) (demo_server_state, [])")
      (auto simp: demo_origin header demo_server_state_def demo_xrpc_state_def)
qed

end
