(* ===== verification/Jetstream_Types.thy ===== *)
theory Jetstream_Types
  imports Go_Json Go_Strings
begin

text \<open>
  The data of \<open>internal/jetstream/consumer.go\<close>: events and records with their JSON decoders,
  and the English texts of a notification.
\<close>

subsection \<open>Events\<close>

record commit_event =
  cm_rev :: string
  cm_operation :: string
  cm_collection :: string
  cm_rkey :: string
  cm_record :: "json option"

record event =
  ev_did :: string
  ev_time_us :: int
  ev_kind :: string
  ev_commit :: "commit_event option"

definition empty_commit :: commit_event where
  "empty_commit =
     \<lparr>cm_rev = [], cm_operation = [], cm_collection = [], cm_rkey = [], cm_record = None\<rparr>"

definition empty_event :: event where
  "empty_event = \<lparr>ev_did = [], ev_time_us = 0, ev_kind = [], ev_commit = None\<rparr>"

definition commit_fields :: "(string \<times> commit_event decoder) list" where
  "commit_fields =
     [(''rev'', dec_field cm_rev (\<lambda>x r. r\<lparr>cm_rev := x\<rparr>) dec_string),
      (''operation'', dec_field cm_operation (\<lambda>x r. r\<lparr>cm_operation := x\<rparr>) dec_string),
      (''collection'', dec_field cm_collection (\<lambda>x r. r\<lparr>cm_collection := x\<rparr>) dec_string),
      (''rkey'', dec_field cm_rkey (\<lambda>x r. r\<lparr>cm_rkey := x\<rparr>) dec_string),
      (''record'', dec_field cm_record (\<lambda>x r. r\<lparr>cm_record := x\<rparr>) dec_raw)]"

definition event_fields :: "(string \<times> event decoder) list" where
  "event_fields =
     [(''did'', dec_field ev_did (\<lambda>x r. r\<lparr>ev_did := x\<rparr>) dec_string),
      (''time_us'', dec_field ev_time_us (\<lambda>x r. r\<lparr>ev_time_us := x\<rparr>) dec_int64),
      (''kind'', dec_field ev_kind (\<lambda>x r. r\<lparr>ev_kind := x\<rparr>) dec_string),
      (''commit'', dec_field ev_commit (\<lambda>x r. r\<lparr>ev_commit := x\<rparr>)
         (dec_ptr (dec_struct commit_fields) empty_commit))]"

subsection \<open>Records\<close>

record strong_ref =
  sr_uri :: string
  sr_cid :: string

text \<open>\<open>LikeRecord\<close> and \<open>RepostRecord\<close> have the same fields.\<close>

record like_record =
  lk_subject :: strong_ref
  lk_via :: "strong_ref option"

type_synonym repost_record = like_record

record post_reply =
  rp_parent :: string
  rp_root :: string

record post_embed =
  em_type :: string
  em_record :: "string option"

record facet_feature =
  ff_type :: string
  ff_did :: string

record post_record =
  po_text :: string
  po_reply :: "post_reply option"
  po_embed :: "post_embed option"
  po_facets :: "facet_feature list list"

record verification_record =
  ve_subject :: string
  ve_handle :: string
  ve_display :: string

definition empty_ref :: strong_ref where
  "empty_ref = \<lparr>sr_uri = [], sr_cid = []\<rparr>"

definition ref_fields :: "(string \<times> strong_ref decoder) list" where
  "ref_fields =
     [(''uri'', dec_field sr_uri (\<lambda>x r. r\<lparr>sr_uri := x\<rparr>) dec_string),
      (''cid'', dec_field sr_cid (\<lambda>x r. r\<lparr>sr_cid := x\<rparr>) dec_string)]"

definition like_fields :: "(string \<times> like_record decoder) list" where
  "like_fields =
     [(''subject'', dec_field lk_subject (\<lambda>x r. r\<lparr>lk_subject := x\<rparr>) (dec_struct ref_fields)),
      (''via'', dec_field lk_via (\<lambda>x r. r\<lparr>lk_via := x\<rparr>) (dec_ptr (dec_struct ref_fields) empty_ref))]"

definition uri_fields :: "(string \<times> string decoder) list" where
  "uri_fields = [(''uri'', dec_string)]"

definition reply_fields :: "(string \<times> post_reply decoder) list" where
  "reply_fields =
     [(''parent'', dec_field rp_parent (\<lambda>x r. r\<lparr>rp_parent := x\<rparr>) (dec_struct uri_fields)),
      (''root'', dec_field rp_root (\<lambda>x r. r\<lparr>rp_root := x\<rparr>) (dec_struct uri_fields))]"

definition embed_fields :: "(string \<times> post_embed decoder) list" where
  "embed_fields =
     [(''$type'', dec_field em_type (\<lambda>x r. r\<lparr>em_type := x\<rparr>) dec_string),
      (''record'', dec_field em_record (\<lambda>x r. r\<lparr>em_record := x\<rparr>)
         (dec_ptr (dec_struct uri_fields) []))]"

definition feature_fields :: "(string \<times> facet_feature decoder) list" where
  "feature_fields =
     [(''$type'', dec_field ff_type (\<lambda>x r. r\<lparr>ff_type := x\<rparr>) dec_string),
      (''did'', dec_field ff_did (\<lambda>x r. r\<lparr>ff_did := x\<rparr>) dec_string)]"

definition facet_fields :: "(string \<times> facet_feature list decoder) list" where
  "facet_fields =
     [(''features'', dec_slice (dec_struct feature_fields) \<lparr>ff_type = [], ff_did = []\<rparr>)]"

definition empty_post :: post_record where
  "empty_post = \<lparr>po_text = [], po_reply = None, po_embed = None, po_facets = []\<rparr>"

definition post_fields :: "(string \<times> post_record decoder) list" where
  "post_fields =
     [(''text'', dec_field po_text (\<lambda>x r. r\<lparr>po_text := x\<rparr>) dec_string),
      (''reply'', dec_field po_reply (\<lambda>x r. r\<lparr>po_reply := x\<rparr>)
         (dec_ptr (dec_struct reply_fields) \<lparr>rp_parent = [], rp_root = []\<rparr>)),
      (''embed'', dec_field po_embed (\<lambda>x r. r\<lparr>po_embed := x\<rparr>)
         (dec_ptr (dec_struct embed_fields) \<lparr>em_type = [], em_record = None\<rparr>)),
      (''facets'', dec_field po_facets (\<lambda>x r. r\<lparr>po_facets := x\<rparr>)
         (dec_slice (dec_struct facet_fields) []))]"

text \<open>\<open>FollowRecord\<close> and \<open>BlockRecord\<close> are their subject.\<close>

definition subject_fields :: "(string \<times> string decoder) list" where
  "subject_fields = [(''subject'', dec_string)]"

definition verification_fields :: "(string \<times> verification_record decoder) list" where
  "verification_fields =
     [(''subject'', dec_field ve_subject (\<lambda>x r. r\<lparr>ve_subject := x\<rparr>) dec_string),
      (''handle'', dec_field ve_handle (\<lambda>x r. r\<lparr>ve_handle := x\<rparr>) dec_string),
      (''displayName'', dec_field ve_display (\<lambda>x r. r\<lparr>ve_display := x\<rparr>) dec_string)]"

text \<open>\<open>json.Unmarshal(record, &v)\<close>; an absent record is empty input, which is an error.\<close>

definition decode_record :: "'a decoder \<Rightarrow> 'a \<Rightarrow> json option \<Rightarrow> 'a option" where
  "decode_record d zero j = decode_result d zero j"

definition extract_did_from_uri :: "string \<Rightarrow> string" where
  "extract_did_from_uri uri =
     (if \<not> has_prefix uri ''at://'' then [] else fst (cut_at (CHR ''/'') (drop 5 uri)))"

subsection \<open>Texts\<close>

definition reason_titles :: "(string \<times> string) list" where
  "reason_titles =
     [(''like'', ''New like''), (''repost'', ''New repost''), (''reply'', ''New reply''),
      (''mention'', ''New mention''), (''quote'', ''New quote''), (''follow'', ''New follower''),
      (''like-via-repost'', ''New like''), (''repost-via-repost'', ''New repost''),
      (''verified'', ''Verified''), (''unverified'', ''Verification removed'')]"

definition reason_body_templates :: "(string \<times> string) list" where
  "reason_body_templates =
     [(''like'', ''%s liked your post''), (''repost'', ''%s reposted your post''),
      (''reply'', ''%s replied to your post''), (''mention'', ''%s mentioned you''),
      (''quote'', ''%s quoted your post''), (''follow'', ''%s followed you''),
      (''like-via-repost'', ''%s liked a post you reposted''),
      (''repost-via-repost'', ''%s reposted a post you reposted''),
      (''verified'', ''Your account has been verified''),
      (''unverified'', ''Your account verification was removed'')]"

definition reason_body_templates_with_text :: "(string \<times> string) list" where
  "reason_body_templates_with_text =
     [(''reply'', ''%s replied: %s''), (''quote'', ''%s quoted your post: %s''),
      (''mention'', ''%s mentioned you: %s''), (''like'', ''%s liked your post: %s''),
      (''repost'', ''%s reposted your post: %s''),
      (''like-via-repost'', ''%s liked a post you reposted: %s''),
      (''repost-via-repost'', ''%s reposted a post you reposted: %s'')]"

definition reason_fetches_subject_text :: "string \<Rightarrow> bool" where
  "reason_fetches_subject_text reason \<longleftrightarrow>
     reason \<in> {''like'', ''repost'', ''like-via-repost'', ''repost-via-repost''}"

definition carries_actor_post_text :: "string \<Rightarrow> bool" where
  "carries_actor_post_text reason \<longleftrightarrow> reason \<in> {''reply'', ''quote'', ''mention''}"

text \<open>A Go map read at a missing key.\<close>

definition str_get :: "(string \<times> string) list \<Rightarrow> string \<Rightarrow> string" where
  "str_get m k = (case map_of m k of None \<Rightarrow> [] | Some v \<Rightarrow> v)"

text \<open>\<open>fmt.Sprintf\<close> for the verb \<open>%s\<close> and strings, the only one the templates have.\<close>

fun sprintf_s :: "string \<Rightarrow> string list \<Rightarrow> string" where
  "sprintf_s [] as = []"
| "sprintf_s [c] as = [c]"
| "sprintf_s (c # d # f) as =
     (if c = CHR ''%'' \<and> d = CHR ''s'' then
        (case as of
           [] \<Rightarrow> ''%!s(MISSING)'' @ sprintf_s f []
         | a # as' \<Rightarrow> a @ sprintf_s f as')
      else c # sprintf_s (d # f) as)"

definition format_notification :: "string \<Rightarrow> string \<Rightarrow> string \<Rightarrow> string \<Rightarrow> string \<times> string" where
  "format_notification reason display handle post_text =
     (let title0 = str_get reason_titles reason;
          title = (if title0 = [] then ''Notification'' else title0);
          name1 = (if display = [] then handle else display);
          name = (if name1 = [] then ''Someone'' else name1);
          plain =
            (let template = str_get reason_body_templates reason in
             if template = [] then (title, name)
             else if reason = ''verified'' \<or> reason = ''unverified'' then (title, template)
             else (title, sprintf_s template [name])) in
      if post_text \<noteq> [] then
        (case map_of reason_body_templates_with_text reason of
           Some t \<Rightarrow> (title, sprintf_s t [name, post_text])
         | None \<Rightarrow> plain)
      else plain)"

lemma format_examples:
  "format_notification ''like'' [] ''bob.test'' [] = (''New like'', ''bob.test liked your post'')"
  "format_notification ''reply'' ''Bob'' [] ''hi'' = (''New reply'', ''Bob replied: hi'')"
  "format_notification ''verified'' [] [] ''x'' = (''Verified'', ''Your account has been verified'')"
  by code_simp+

end
