(* ===== verification/Post_Text.thy ===== *)
theory Post_Text
  imports Go_Strings Go_Utf8
begin

text \<open>
  The text of a post as a notification shows it (\<open>internal/jetstream/posttext.go\<close>): one line
  without runs of blanks, cut to a number of runes. A \<open>range\<close> over a string is its list of runes
  (\<open>runes\<close>) or of pieces (\<open>segments\<close>), with U+FFFD for a byte that starts no rune.
\<close>

definition default_post_text_max_graphemes :: nat where
  "default_post_text_max_graphemes = 300"

fun collapse_blanks :: "bool \<Rightarrow> nat list \<Rightarrow> nat list" where
  "collapse_blanks prev_space [] = []"
| "collapse_blanks prev_space (r # rs) =
     (let r' = (if r = 10 \<or> r = 13 \<or> r = 9 then 32 else r) in
      if r' = 32 then
        (if prev_space then collapse_blanks prev_space rs else r' # collapse_blanks True rs)
      else r' # collapse_blanks False rs)"

definition sanitize_post_text :: "string \<Rightarrow> string" where
  "sanitize_post_text s =
     (if s = [] then [] else trim_space (encode_runes (collapse_blanks False (runes s))))"

definition ellipsis :: string where
  "ellipsis = encode_rune 0x2026"

definition truncate_post_text :: "string \<Rightarrow> int \<Rightarrow> string" where
  "truncate_post_text s max_runes =
     (if max_runes \<le> 0 then s
      else if length (runes s) \<le> nat max_runes then s
      else concat (map snd (take (nat max_runes) (segments s))) @ ellipsis)"

subsection \<open>Length\<close>

lemma decode_rune_le_4: "snd (decode_rune s) \<le> 4"
  by (cases s rule: decode_rune.cases) (auto simp: Let_def split: list.splits)

lemma segments_width: "p \<in> set (segments s) \<Longrightarrow> length (snd p) \<le> 4"
proof (induction s rule: segments.induct)
  case (1 s)
  obtain r w where rw: "decode_rune s = (r, w)" by fastforce
  then have "w \<le> 4" using decode_rune_le_4 [of s] by simp
  moreover have "s \<noteq> []" using "1.prems" by (cases s) auto
  ultimately show ?case
    using 1 rw by (auto simp: segments.simps [of s] simp del: decode_rune.simps)
qed

lemma length_concat_le: "\<forall>x \<in> set xs. length x \<le> k \<Longrightarrow> length (concat xs) \<le> k * length xs"
  by (induction xs) auto

lemma ellipsis_bytes: "ellipsis = [CHR 0xE2, CHR 0x80, CHR 0xA6]"
  by (simp add: ellipsis_def encode_rune_def encode_valid_def valid_rune_def is_surrogate_def)
    code_simp

lemma truncated_length:
  assumes "0 < m"
  shows "length (truncate_post_text s m) \<le> 4 * nat m + 3"
proof (cases "length (runes s) \<le> nat m")
  case True
  have "length (concat (map snd (segments s))) \<le> 4 * length (map snd (segments s))"
    by (rule length_concat_le) (auto dest: segments_width)
  then have "length s \<le> 4 * length (runes s)" by (simp only: concat_segments length_map runes_def)
  with True assms show ?thesis by (simp add: truncate_post_text_def)
next
  case False
  have "length (concat (map snd (take (nat m) (segments s)))) \<le>
      4 * length (map snd (take (nat m) (segments s)))"
    by (rule length_concat_le) (auto dest!: in_set_takeD segments_width)
  also have "\<dots> \<le> 4 * nat m" by simp
  finally show ?thesis using False assms by (simp add: truncate_post_text_def ellipsis_bytes)
qed

lemma truncated_prefix:
  obtains t where "truncate_post_text s m = t" and "prefix t s" 
  | t where "truncate_post_text s m = t @ ellipsis" and "prefix t s"
proof (cases "m \<le> 0 \<or> length (runes s) \<le> nat m")
  case False
  have "concat (map snd (take (nat m) (segments s))) @ concat (map snd (drop (nat m) (segments s))) = s"
    by (metis append_take_drop_id concat_append concat_segments map_append)
  then have "prefix (concat (map snd (take (nat m) (segments s)))) s" by (rule prefixI [OF sym])
  then show thesis using False by (intro that(2)) (auto simp: truncate_post_text_def)
qed (auto simp: truncate_post_text_def intro: that(1))

subsection \<open>The runes of a text that was cut\<close>

lemma no_continuation: "hi \<le> 0xBF \<Longrightarrow> \<not> in_range lo hi (CHR 0xE2)"
  by (simp add: in_range_def)

lemma second_hi_le: "second_hi b \<le> 0xBF"
  by (simp add: second_hi_def)

text \<open>
  A rune that was read from the first bytes of a string is read again when the string is cut after
  it and goes on with the first byte of an ellipsis, which continues no rune.
\<close>

lemma decode_rune_cut:
  assumes "decode_rune (p @ s) = (r, w)" and "p \<noteq> []" and "w \<le> length p"
  shows "decode_rune (p @ CHR 0xE2 # q) = (r, w)"
proof -
  obtain c p' where p: "p = c # p'" using assms(2) by (cases p) auto
  note no = no_continuation [OF second_hi_le] no_continuation [OF order.refl]
  consider "p' = []" | c1 where "p' = [c1]" | c1 c2 where "p' = [c1, c2]"
    | c1 c2 c3 p'' where "p' = c1 # c2 # c3 # p''"
    by (metis neq_Nil_conv)
  note shapes = this
  consider (one) "byte c < 0x80" | (two) "0xC2 \<le> byte c" "byte c \<le> 0xDF"
    | (three) "0xE0 \<le> byte c" "byte c \<le> 0xEF" | (four) "0xF0 \<le> byte c" "byte c \<le> 0xF4"
    | (none) "0x80 \<le> byte c \<and> byte c < 0xC2 \<or> 0xF4 < byte c"
    by linarith
  then show ?thesis
  proof cases
    case one
    with assms(1) show ?thesis by (simp add: p Let_def)
  next
    case two
    with assms(1,3) no show ?thesis
      by (cases rule: shapes) (auto simp: p Let_def split: if_splits list.splits)
  next
    case three
    with assms(1,3) no show ?thesis
      by (cases rule: shapes) (auto simp: p Let_def split: if_splits list.splits)
  next
    case four
    with assms(1,3) no show ?thesis
      by (cases rule: shapes) (auto simp: p Let_def split: if_splits list.splits)
  next
    case none
    then have "\<not> byte c < 0x80" "\<not> (0xC2 \<le> byte c \<and> byte c \<le> 0xDF)"
      "\<not> (0xE0 \<le> byte c \<and> byte c \<le> 0xEF)" "\<not> (0xF0 \<le> byte c \<and> byte c \<le> 0xF4)"
      by linarith+
    with assms(1) show ?thesis by (simp only: p append_Cons decode_rune.simps Let_def if_False)
  qed
qed

lemma runes_cut:
  "runes (concat (map snd (take k (segments s))) @ CHR 0xE2 # q) = take k (runes s) @ runes (CHR 0xE2 # q)"
proof (induction s arbitrary: k rule: segments.induct)
  case (1 s)
  show ?case
  proof (cases "s = [] \<or> k = 0")
    case False
    obtain r w where rw: "decode_rune s = (r, w)" by fastforce
    have w: "1 \<le> w" "w \<le> length s" using False decode_rune_width [OF _ rw] by auto
    obtain n where n: "k = Suc n" using False by (cases k) auto
    define p where "p = concat (map snd (take n (segments (drop w s))))"
    obtain u where "drop w s = p @ u"
      by (metis p_def append_take_drop_id concat_append concat_segments map_append)
    then have "decode_rune ((take w s @ p) @ u) = (r, w)"
      using rw append_take_drop_id [of w s] by simp
    then have "decode_rune ((take w s @ p) @ CHR 0xE2 # q) = (r, w)"
      by (rule decode_rune_cut) (use w False in auto)
    then have "runes ((take w s @ p) @ CHR 0xE2 # q) = r # runes (p @ CHR 0xE2 # q)"
      using w by (subst runes_unfold) (simp add: min_absorb2)
    moreover have "runes (p @ CHR 0xE2 # q) = take n (runes (drop w s)) @ runes (CHR 0xE2 # q)"
      unfolding p_def using 1 False rw by simp
    ultimately show ?thesis
      using False rw by (simp add: n p_def segments.simps [of s] runes_unfold [of s])
  qed auto
qed

lemma runes_ellipsis: "runes ellipsis = [0x2026]"
  using runes_encode_rune [of "0x2026" "[]"]
  by (simp add: ellipsis_def valid_rune_def is_surrogate_def)

lemma truncated_runes:
  assumes "0 < m"
  shows "length (runes s) \<le> nat m \<Longrightarrow> truncate_post_text s m = s"
    and "nat m < length (runes s) \<Longrightarrow>
      runes (truncate_post_text s m) = take (nat m) (runes s) @ [0x2026]"
  using assms runes_cut [of "nat m" s] runes_ellipsis
  by (simp_all add: truncate_post_text_def ellipsis_bytes)

subsection \<open>One line\<close>

lemma collapsed_runes: "r \<in> set (collapse_blanks p rs) \<Longrightarrow> r \<notin> {9, 10, 13}"
  by (induction p rs rule: collapse_blanks.induct) (auto simp: Let_def split: if_splits)

lemma collapsed_head: "collapse_blanks True rs = r # ts \<Longrightarrow> r \<noteq> 32"
  by (induction rs) (auto simp: Let_def split: if_splits)

lemma collapsed_blanks: "\<not> sublist [32, 32] (collapse_blanks p rs)"
proof (induction p rs rule: collapse_blanks.induct)
  case (2 p r rs)
  have "\<not> prefix [32] (collapse_blanks True rs)"
    using collapsed_head [of rs] by (cases "collapse_blanks True rs") auto
  with 2 show ?case by (auto simp: Let_def sublist_Cons_right)
qed simp

text \<open>An ASCII byte of an encoding is the encoding of an ASCII rune.\<close>

lemma encode_valid_bytes:
  assumes "\<not> r < 0x80" and "valid_rune r" and "c \<in> set (encode_valid r)"
  shows "0x80 \<le> byte c"
proof -
  have "r \<le> 0x10FFFF" using assms(2) by (simp add: valid_rune_def)
  then have "r < 0x800 \<Longrightarrow> r div 64 < 32" "r < 0x10000 \<Longrightarrow> r div 4096 < 16" "r div 262144 < 5"
    by linarith+
  moreover have "r mod 64 < 64" "r div 64 mod 64 < 64" "r div 4096 mod 64 < 64" by simp_all
  ultimately show ?thesis
    using assms(1,3) by (auto simp: encode_valid_def split: if_splits)
qed

lemma rune_error_valid: "valid_rune rune_error" "\<not> rune_error < 0x80"
  by (simp_all add: valid_rune_def rune_error_def is_surrogate_def)

lemma encode_rune_ascii_byte:
  assumes "c \<in> set (encode_rune r)" and "byte c < 0x80"
  shows "encode_rune r = [c]" and "byte c = r"
proof -
  have "valid_rune r \<and> r < 0x80"
    using assms encode_valid_bytes [of r c] encode_valid_bytes [of rune_error c] rune_error_valid
    unfolding encode_rune_def by (metis (full_types) not_less)
  then have r: "encode_rune r = [byte_char r]" "r < 0x80" by (simp_all add: encode_rune_ascii)
  with assms(1) have "c = byte_char r" by simp
  with r show "encode_rune r = [c]" "byte c = r" by simp_all
qed

lemma encoded_ascii:
  assumes "c \<in> set (encode_runes rs)" and "byte c < 0x80"
  shows "byte c \<in> set rs"
proof -
  obtain r where "r \<in> set rs" "c \<in> set (encode_rune r)"
    using assms(1) by (auto simp: encode_runes_def)
  with encode_rune_ascii_byte(2) [OF _ assms(2)] show ?thesis by metis
qed

lemma sublist_two_append:
  assumes "sublist [x, y] (as @ bs)"
  obtains "sublist [x, y] as" | "sublist [x, y] bs" | "as \<noteq> []" "last as = x" "bs \<noteq> []" "hd bs = y"
proof -
  obtain ps ss where eq: "as @ bs = ps @ [x, y] @ ss" using assms by (auto simp: sublist_def)
  then consider us where "as = ps @ us" "us @ bs = [x, y] @ ss"
    | us where "ps = as @ us" "bs = us @ [x, y] @ ss"
    by (auto simp: append_eq_append_conv2)
  then show thesis
  proof cases
    case (1 us)
    show thesis
    proof (cases us)
      case Nil
      with 1 show thesis by (intro that(2)) (auto simp: sublist_def intro: exI [of _ "[]"])
    next
      case (Cons a us')
      show thesis
      proof (cases us')
        case Nil
        with 1 Cons show thesis by (intro that(3)) auto
      next
        case (Cons b us'')
        with 1 \<open>us = a # us'\<close> show thesis by (intro that(1)) (auto simp: sublist_def)
      qed
    qed
  next
    case (2 us)
    then show thesis by (intro that(2)) (auto simp: sublist_def)
  qed
qed

abbreviation blank :: char where
  "blank \<equiv> CHR '' ''"

lemma blank_byte: "byte blank = 32" "byte blank < 0x80"
  by simp_all

lemma encoded_blank: "blank \<in> set (encode_rune r) \<Longrightarrow> encode_rune r = [blank] \<and> r = 32"
  using encode_rune_ascii_byte [OF _ blank_byte(2)] blank_byte(1) by metis

lemma encoded_blanks: "sublist [blank, blank] (encode_runes rs) \<Longrightarrow> sublist [32, 32] rs"
proof (induction rs)
  case (Cons r rs)
  from Cons.prems have "sublist [blank, blank] (encode_rune r @ encode_runes rs)" by simp
  then show ?case
  proof (rule sublist_two_append)
    assume sub: "sublist [blank, blank] (encode_rune r)"
    then have "blank \<in> set (encode_rune r)" using set_mono_sublist [OF sub] by simp
    with sub have "sublist [blank, blank] [blank]" using encoded_blank by metis
    then show ?thesis using sublist_length_le by fastforce
  next
    assume "sublist [blank, blank] (encode_runes rs)"
    with Cons.IH show ?thesis by (simp add: sublist_Cons_right)
  next
    assume last: "encode_rune r \<noteq> []" "last (encode_rune r) = blank"
      and hd: "encode_runes rs \<noteq> []" "hd (encode_runes rs) = blank"
    have r: "r = 32" using last encoded_blank by (metis last_in_set)
    from hd(1) obtain r2 rs' where rs: "rs = r2 # rs'" by (cases rs) auto
    have "blank \<in> set (encode_rune r2)"
      using hd(2) rs by (metis encode_rune_neq_Nil encode_runes_simps(2) hd_append2 hd_in_set)
    then have "r2 = 32" using encoded_blank by metis
    then show ?thesis by (simp add: r rs sublist_Cons_right)
  qed
qed simp

lemma trim_space_sublist: "sublist (trim_space s) s"
proof -
  have "prefix (trim_space s) (strip_front space_encodings s)"
    using strip_front_suffix [of "map rev space_encodings" "rev (strip_front space_encodings s)"]
    by (simp add: trim_space_def suffix_to_prefix)
  then show ?thesis
    using strip_front_suffix [of space_encodings s]
    by (meson prefix_imp_sublist sublist_order.order.trans suffix_imp_sublist)
qed

lemma sanitized:
  shows "c \<in> set (sanitize_post_text s) \<Longrightarrow> byte c \<notin> {9, 10, 13}"
    and "\<not> sublist [blank, blank] (sanitize_post_text s)"
proof -
  let ?rs = "collapse_blanks False (runes s)"
  have sub: "sublist (sanitize_post_text s) (encode_runes ?rs)"
    by (simp add: sanitize_post_text_def trim_space_sublist)
  show "\<not> sublist [blank, blank] (sanitize_post_text s)"
    using sub encoded_blanks [of ?rs] collapsed_blanks [of False "runes s"]
    by (meson sublist_order.order.trans)
  assume "c \<in> set (sanitize_post_text s)"
  then have c: "c \<in> set (encode_runes ?rs)" using set_mono_sublist [OF sub] by blast
  show "byte c \<notin> {9, 10, 13}"
  proof
    assume bad: "byte c \<in> {9, 10, 13}"
    then have "byte c < 0x80" by auto
    with encoded_ascii [OF c] collapsed_runes bad show False by blast
  qed
qed

text \<open>Nothing but blanks is lost.\<close>

abbreviation visible :: "string \<Rightarrow> string" where
  "visible s \<equiv> filter (\<lambda>c. c \<notin> space_bytes) s"

lemma visible_strip:
  "set (concat encs) \<subseteq> space_bytes \<Longrightarrow> visible (strip_front encs s) = visible s"
proof (induction encs s rule: strip_front.induct)
  case (1 encs s)
  show ?case
  proof (cases "find (\<lambda>e. e \<noteq> [] \<and> prefix e s) encs")
    case None
    then show ?thesis by (simp add: strip_front.simps [of encs s])
  next
    case (Some e)
    then have e: "e \<in> set encs" "prefix e s" by (auto simp: find_Some_iff)
    then have "visible e = []" using "1.prems" by (auto simp: filter_empty_conv)
    then have "visible (drop (length e) s) = visible s" using e(2) by (auto elim!: prefixE)
    then show ?thesis using "1.IH" [OF Some] "1.prems" Some by (simp add: strip_front.simps [of encs s])
  qed
qed

lemma visible_trim: "visible (trim_space s) = visible s"
proof -
  have "set (concat space_encodings) \<subseteq> space_bytes" "set (concat (map rev space_encodings)) \<subseteq> space_bytes"
    by (auto simp: space_bytes_def)
  then show ?thesis by (simp add: trim_space_def visible_strip flip: rev_filter)
qed

lemma ascii_chars:
  "byte_char 9 = CHR 0x09" "byte_char 10 = CHR 0x0A" "byte_char 13 = CHR 0x0D" "byte_char 32 = blank"
  "byte_char 97 = CHR ''a''" "byte_char 98 = CHR ''b''"
  by code_simp+

lemma blank_runes:
  "r \<in> {9, 10, 13, 32} \<Longrightarrow> visible (encode_rune r) = []"
  by (auto simp: encode_rune_ascii ascii_chars space_bytes_def space_encodings_def)

lemma visible_collapsed: "visible (encode_runes (collapse_blanks b rs)) = visible (encode_runes rs)"
  by (induction b rs rule: collapse_blanks.induct) (auto simp: Let_def blank_runes)

lemma sanitized_visible: "visible (sanitize_post_text s) = visible (encode_runes (runes s))"
  by (simp add: sanitize_post_text_def visible_trim visible_collapsed)



end
