(* ===== verification/Jetstream.thy ===== *)
theory Jetstream
  imports Jetstream_Types Post_Text Push_Types Store_Refinement
begin

text \<open>
  What the Jetstream consumer does with one commit (\<open>internal/jetstream/consumer.go\<close>,
  \<open>handleCommit\<close> and below). The consumer's world has the store, the push services \<open>'p\<close>
  and the two resolvers \<open>'a\<close> and \<open>'b\<close>, which are interfaces here: functions that change
  the world behind them, \<open>None\<close> where the consumer was given nil. The counters are natural
  numbers (64-bit atomics in the code); the log lines are left out.
\<close>

record ('p, 'a, 'b) consumer =
  co_store :: store
  co_push :: 'p
  co_profiles :: 'a
  co_texts :: 'b
  co_pushes_sent :: nat
  co_push_errors :: nat
  co_matched :: nat

record ('p, 'a, 'b) consumer_env =
  ce_sender :: "'p sender"
  ce_profile :: "(string \<Rightarrow> 'a \<Rightarrow> 'a \<times> string \<times> string) option"
  ce_text :: "(string \<Rightarrow> 'b \<Rightarrow> 'b \<times> string) option"
  ce_max_graphemes :: int

text \<open>\<open>SetPostTextMaxGraphemes\<close> and \<open>SetPostTextResolver\<close>.\<close>

definition set_post_text_max_graphemes ::
  "int \<Rightarrow> ('p, 'a, 'b) consumer_env \<Rightarrow> ('p, 'a, 'b) consumer_env" where
  "set_post_text_max_graphemes n env = (if 0 < n then env\<lparr>ce_max_graphemes := n\<rparr> else env)"

definition set_post_text_resolver ::
  "(string \<Rightarrow> 'b \<Rightarrow> 'b \<times> string) option \<Rightarrow> ('p, 'a, 'b) consumer_env \<Rightarrow> ('p, 'a, 'b) consumer_env" where
  "set_post_text_resolver r env = env\<lparr>ce_text := r\<rparr>"

definition new_consumer_env ::
  "'p sender \<Rightarrow> (string \<Rightarrow> 'a \<Rightarrow> 'a \<times> string \<times> string) option \<Rightarrow> ('p, 'a, 'b) consumer_env" where
  "new_consumer_env sender profile =
     \<lparr>ce_sender = sender, ce_profile = profile, ce_text = None,
      ce_max_graphemes = int default_post_text_max_graphemes\<rparr>"

subsection \<open>sendNotification\<close>

definition notification_data ::
  "string \<Rightarrow> string \<Rightarrow> string \<Rightarrow> string \<Rightarrow> string \<Rightarrow> string \<Rightarrow> string \<Rightarrow> string
     \<Rightarrow> (string \<times> string) list" where
  "notification_data actor target reason record_uri subject_uri display handle post_text =
     [(''reason'', reason), (''uri'', record_uri), (''recipientDid'', target), (''actorDid'', actor),
      (''actorDisplayName'', display), (''actorHandle'', handle)]
     @ (if subject_uri \<noteq> [] then [(''subject'', subject_uri)] else [])
     @ (if post_text \<noteq> [] then [(''reasonSubject'', post_text)] else [])
     @ (if post_text \<noteq> [] \<and> carries_actor_post_text reason then [(''bodyText'', post_text)] else [])"

definition deliver_to ::
  "('p, 'a, 'b) consumer_env \<Rightarrow> string \<Rightarrow> string \<Rightarrow> (string \<times> string) list \<Rightarrow> push_token
     \<Rightarrow> ('p, 'a, 'b) consumer \<Rightarrow> ('p, 'a, 'b) consumer" where
  "deliver_to env title body data t c =
     (let n = \<lparr>n_token = pt_token t, n_platform = pt_platform t, n_title = title, n_body = body,
               n_data = data\<rparr>;
          (p, res) = ce_sender env n (co_push c);
          c1 = c\<lparr>co_push := p\<rparr> in
      case res of
        None \<Rightarrow> c1\<lparr>co_pushes_sent := Suc (co_pushes_sent c1)\<rparr>
      | Some (TokenInvalid _) \<Rightarrow>
          let c2 = c1\<lparr>co_push_errors := Suc (co_push_errors c1)\<rparr> in
          c2\<lparr>co_store := fst (unregister_token (pt_actor t) (pt_platform t) (pt_token t) (pt_app t)
                (co_store c2))\<rparr>
      | Some (SendFailed _) \<Rightarrow> c1\<lparr>co_push_errors := Suc (co_push_errors c1)\<rparr>)"

definition ask_profile ::
  "('p, 'a, 'b) consumer_env \<Rightarrow> string \<Rightarrow> ('p, 'a, 'b) consumer
     \<Rightarrow> ('p, 'a, 'b) consumer \<times> string \<times> string" where
  "ask_profile env actor c =
     (case ce_profile env of
        None \<Rightarrow> (c, [], [])
      | Some f \<Rightarrow> let (a, display, handle) = f actor (co_profiles c) in
          (c\<lparr>co_profiles := a\<rparr>, display, handle))"

definition ask_text ::
  "('p, 'a, 'b) consumer_env \<Rightarrow> string \<Rightarrow> string \<Rightarrow> string \<Rightarrow> ('p, 'a, 'b) consumer
     \<Rightarrow> ('p, 'a, 'b) consumer \<times> string" where
  "ask_text env reason subject_uri post_text c =
     (case ce_text env of
        Some f \<Rightarrow>
          if post_text = [] \<and> subject_uri \<noteq> [] \<and> reason_fetches_subject_text reason then
            (let (b, raw) = f subject_uri (co_texts c) in
             (c\<lparr>co_texts := b\<rparr>, truncate_post_text (sanitize_post_text raw) (ce_max_graphemes env)))
          else (c, post_text)
      | None \<Rightarrow> (c, post_text))"

definition send_notification ::
  "('p, 'a, 'b) consumer_env \<Rightarrow> string \<Rightarrow> string \<Rightarrow> string \<Rightarrow> string \<Rightarrow> string \<Rightarrow> string
     \<Rightarrow> ('p, 'a, 'b) consumer \<Rightarrow> ('p, 'a, 'b) consumer" where
  "send_notification env actor target reason record_uri subject_uri post_text c =
     (if \<not> is_registered target (co_store c) then c
      else if is_blocked actor target (co_store c) then c
      else
        (case get_tokens_for_did target (co_store c) of
           (s', Inl _) \<Rightarrow> c\<lparr>co_store := s'\<rparr>
         | (s', Inr tokens) \<Rightarrow>
             let c1 = c\<lparr>co_store := s', co_matched := Suc (co_matched c)\<rparr>;
                 (c2, display, handle) = ask_profile env actor c1;
                 (c3, txt') = ask_text env reason subject_uri post_text c2;
                 (title, body) = format_notification reason display handle txt';
                 data = notification_data actor target reason record_uri subject_uri display handle txt'
             in fold (deliver_to env title body data) tokens c3))"

subsection \<open>The handlers\<close>

definition record_uri :: "string \<Rightarrow> string \<Rightarrow> string \<Rightarrow> string" where
  "record_uri actor collection rkey = ''at://'' @ actor @ ''/'' @ collection @ ''/'' @ rkey"

definition handle_like ::
  "('p, 'a, 'b) consumer_env \<Rightarrow> string \<Rightarrow> string \<Rightarrow> json option
     \<Rightarrow> ('p, 'a, 'b) consumer \<Rightarrow> ('p, 'a, 'b) consumer" where
  "handle_like env actor rkey rec c =
     (case decode_record (dec_struct like_fields) \<lparr>lk_subject = empty_ref, lk_via = None\<rparr> rec of
        None \<Rightarrow> c
      | Some like \<Rightarrow>
          let target = extract_did_from_uri (sr_uri (lk_subject like)) in
          if target = [] \<or> target = actor then c
          else
            let uri = record_uri actor ''app.bsky.feed.like'' rkey;
                c1 = send_notification env actor target ''like'' uri (sr_uri (lk_subject like)) [] c in
            (case lk_via like of
               None \<Rightarrow> c1
             | Some via \<Rightarrow>
                 let reposter = extract_did_from_uri (sr_uri via) in
                 if reposter \<noteq> [] \<and> reposter \<noteq> actor \<and> reposter \<noteq> target
                 then send_notification env actor reposter ''like-via-repost'' uri
                        (sr_uri (lk_subject like)) [] c1
                 else c1))"

definition handle_repost ::
  "('p, 'a, 'b) consumer_env \<Rightarrow> string \<Rightarrow> string \<Rightarrow> json option
     \<Rightarrow> ('p, 'a, 'b) consumer \<Rightarrow> ('p, 'a, 'b) consumer" where
  "handle_repost env actor rkey rec c =
     (case decode_record (dec_struct like_fields) \<lparr>lk_subject = empty_ref, lk_via = None\<rparr> rec of
        None \<Rightarrow> c
      | Some repost \<Rightarrow>
          let target = extract_did_from_uri (sr_uri (lk_subject repost)) in
          if target = [] \<or> target = actor then c
          else
            let uri = record_uri actor ''app.bsky.feed.repost'' rkey;
                c1 = send_notification env actor target ''repost'' uri (sr_uri (lk_subject repost)) [] c in
            (case lk_via repost of
               None \<Rightarrow> c1
             | Some via \<Rightarrow>
                 let reposter = extract_did_from_uri (sr_uri via) in
                 if reposter \<noteq> [] \<and> reposter \<noteq> actor \<and> reposter \<noteq> target
                 then send_notification env actor reposter ''repost-via-repost'' uri
                        (sr_uri (lk_subject repost)) [] c1
                 else c1))"

definition mention_of :: "string \<Rightarrow> facet_feature \<Rightarrow> bool" where
  "mention_of actor f \<longleftrightarrow>
     ff_type f = ''app.bsky.richtext.facet#mention'' \<and> ff_did f \<noteq> [] \<and> ff_did f \<noteq> actor"

definition handle_post ::
  "('p, 'a, 'b) consumer_env \<Rightarrow> string \<Rightarrow> string \<Rightarrow> json option
     \<Rightarrow> ('p, 'a, 'b) consumer \<Rightarrow> ('p, 'a, 'b) consumer" where
  "handle_post env actor rkey rec c =
     (case decode_record (dec_struct post_fields) empty_post rec of
        None \<Rightarrow> c
      | Some post \<Rightarrow>
          let uri = record_uri actor ''app.bsky.feed.post'' rkey;
              body = truncate_post_text (sanitize_post_text (po_text post)) (ce_max_graphemes env);
              c1 = (case po_reply post of
                      None \<Rightarrow> c
                    | Some reply \<Rightarrow>
                        let target = extract_did_from_uri (rp_parent reply) in
                        if target \<noteq> [] \<and> target \<noteq> actor
                        then send_notification env actor target ''reply'' uri (rp_parent reply) body c
                        else c);
              c2 = (case po_embed post of
                      None \<Rightarrow> c1
                    | Some emb \<Rightarrow>
                        (case em_record emb of
                           None \<Rightarrow> c1
                         | Some quoted \<Rightarrow>
                             if em_type emb = ''app.bsky.embed.record'' then
                               let target = extract_did_from_uri quoted in
                               if target \<noteq> [] \<and> target \<noteq> actor
                               then send_notification env actor target ''quote'' uri quoted body c1
                               else c1
                             else c1))
          in fold (\<lambda>f. if mention_of actor f
                        then send_notification env actor (ff_did f) ''mention'' uri [] body
                        else (\<lambda>c. c)) (concat (po_facets post)) c2)"

definition handle_follow ::
  "('p, 'a, 'b) consumer_env \<Rightarrow> string \<Rightarrow> string \<Rightarrow> json option
     \<Rightarrow> ('p, 'a, 'b) consumer \<Rightarrow> ('p, 'a, 'b) consumer" where
  "handle_follow env actor rkey rec c =
     (case decode_record (dec_struct subject_fields) [] rec of
        None \<Rightarrow> c
      | Some subject \<Rightarrow>
          if subject = [] \<or> subject = actor then c
          else send_notification env actor subject ''follow''
                 (record_uri actor ''app.bsky.graph.follow'' rkey) [] [] c)"

definition handle_block_create ::
  "string \<Rightarrow> string \<Rightarrow> json option \<Rightarrow> ('p, 'a, 'b) consumer \<Rightarrow> ('p, 'a, 'b) consumer" where
  "handle_block_create actor rkey rec c =
     (case decode_record (dec_struct subject_fields) [] rec of
        None \<Rightarrow> c
      | Some subject \<Rightarrow>
          if subject = [] then c
          else if is_registered actor (co_store c) \<or> is_registered subject (co_store c)
          then c\<lparr>co_store := fst (add_block actor subject rkey (co_store c))\<rparr>
          else c)"

definition handle_block_delete ::
  "string \<Rightarrow> string \<Rightarrow> ('p, 'a, 'b) consumer \<Rightarrow> ('p, 'a, 'b) consumer" where
  "handle_block_delete actor rkey c =
     (if rkey = [] then c
      else c\<lparr>co_store := fst (remove_block_by_rkey actor rkey (co_store c))\<rparr>)"

definition handle_verification_create ::
  "('p, 'a, 'b) consumer_env \<Rightarrow> string \<Rightarrow> string \<Rightarrow> json option
     \<Rightarrow> ('p, 'a, 'b) consumer \<Rightarrow> ('p, 'a, 'b) consumer" where
  "handle_verification_create env verifier rkey rec c =
     (case decode_record (dec_struct verification_fields)
             \<lparr>ve_subject = [], ve_handle = [], ve_display = []\<rparr> rec of
        None \<Rightarrow> c
      | Some v \<Rightarrow>
          if ve_subject v = [] then c
          else
            let c1 = c\<lparr>co_store := fst (add_verification verifier (ve_subject v) rkey (co_store c))\<rparr> in
            if \<not> is_registered (ve_subject v) (co_store c1) then c1
            else send_notification env verifier (ve_subject v) ''verified''
                   (record_uri verifier ''app.bsky.graph.verification'' rkey) [] [] c1)"

definition handle_verification_delete ::
  "('p, 'a, 'b) consumer_env \<Rightarrow> string \<Rightarrow> string \<Rightarrow> ('p, 'a, 'b) consumer \<Rightarrow> ('p, 'a, 'b) consumer"
  where
  "handle_verification_delete env verifier rkey c =
     (if rkey = [] then c
      else
        (case remove_verification_by_rkey verifier rkey (co_store c) of
           (s', Inl _) \<Rightarrow> c\<lparr>co_store := s'\<rparr>
         | (s', Inr subject) \<Rightarrow>
             let c1 = c\<lparr>co_store := s'\<rparr> in
             if subject = [] then c1
             else if \<not> is_registered subject (co_store c1) then c1
             else send_notification env verifier subject ''unverified''
                    (record_uri verifier ''app.bsky.graph.verification'' rkey) [] [] c1))"

definition handle_commit ::
  "('p, 'a, 'b) consumer_env \<Rightarrow> string \<Rightarrow> commit_event \<Rightarrow> ('p, 'a, 'b) consumer \<Rightarrow> ('p, 'a, 'b) consumer"
  where
  "handle_commit env actor cm c =
     (let op = cm_operation cm; rkey = cm_rkey cm; rec = cm_record cm; col = cm_collection cm in
      if col = ''app.bsky.feed.like'' then
        (if op = ''create'' then handle_like env actor rkey rec c else c)
      else if col = ''app.bsky.feed.repost'' then
        (if op = ''create'' then handle_repost env actor rkey rec c else c)
      else if col = ''app.bsky.feed.post'' then
        (if op = ''create'' then handle_post env actor rkey rec c else c)
      else if col = ''app.bsky.graph.follow'' then
        (if op = ''create'' then handle_follow env actor rkey rec c else c)
      else if col = ''app.bsky.graph.block'' then
        (if op = ''create'' then handle_block_create actor rkey rec c
         else if op = ''delete'' then handle_block_delete actor rkey c else c)
      else if col = ''app.bsky.graph.verification'' then
        (if op = ''create'' then handle_verification_create env actor rkey rec c
         else if op = ''delete'' then handle_verification_delete env actor rkey c else c)
      else c)"

end
