(* ===== verification/Jetstream_Theorems.thy ===== *)
theory Jetstream_Theorems
  imports Jetstream Store_Theorems
begin

text \<open>
  What the handling of a commit promises: who is notified at all, and what becomes of device
  tokens the push services report as dead.
\<close>

subsection \<open>Who is notified\<close>

text \<open>Nothing is added to the tokens or the registered accounts, and no block changes.\<close>

definition shrinks :: "store \<Rightarrow> store \<Rightarrow> bool" where
  "shrinks s s' \<longleftrightarrow> set (push_tokens s') \<subseteq> set (push_tokens s) \<and>
     registered_dids s' \<subseteq> registered_dids s \<and> blocks s' = blocks s"

lemma shrinks_refl [simp]: "shrinks s s"
  by (simp add: shrinks_def)

lemma shrinks_trans: "shrinks s t \<Longrightarrow> shrinks t u \<Longrightarrow> shrinks s u"
  by (auto simp: shrinks_def)

lemma db_call_fields [simp]:
  "push_tokens (snd (db_call s)) = push_tokens s" "registered_dids (snd (db_call s)) = registered_dids s"
  "blocks (snd (db_call s)) = blocks s"
  by (simp_all add: db_call_def)

lemma fetch_rows_calls: "\<exists>n. snd (fetch_rows rs s) = s\<lparr>db_calls := n\<rparr>"
proof (induction rs arbitrary: s)
  case Nil
  show ?case by (intro exI [of _ "db_calls s"]) simp
next
  case (Cons r rs)
  obtain n where n: "snd (fetch_rows rs (s\<lparr>db_calls := Suc (db_calls s)\<rparr>)) =
      s\<lparr>db_calls := Suc (db_calls s)\<rparr>\<lparr>db_calls := n\<rparr>" using Cons.IH by blast
  show ?case
  proof (cases "db_faults s (db_calls s)")
    case True
    then show ?thesis by (intro exI [of _ "Suc (db_calls s)"]) (simp add: db_call_def)
  next
    case False
    obtain xs s2 where "fetch_rows rs (s\<lparr>db_calls := Suc (db_calls s)\<rparr>) = (xs, s2)" by fastforce
    with False n show ?thesis by (intro exI [of _ n]) (simp add: db_call_def)
  qed
qed

lemma fetch_rows_fields:
  fixes s :: store
  shows "push_tokens (snd (fetch_rows rs s)) = push_tokens s"
    "registered_dids (snd (fetch_rows rs s)) = registered_dids s"
    "blocks (snd (fetch_rows rs s)) = blocks s"
  using fetch_rows_calls [of rs s] by auto

lemma get_tokens_shrinks:
  assumes "get_tokens_for_did did s = (s', res)"
  shows "shrinks s s'" and "res = Inr ts \<Longrightarrow> t \<in> set ts \<Longrightarrow> t \<in> set (push_tokens s) \<and> pt_actor t = did"
proof -
  obtain bad s1 where call: "db_call s = (bad, s1)" by fastforce
  obtain xs s2 where rows: "fetch_rows (filter (\<lambda>r. pt_actor r = did) (push_tokens s1)) s1 = (xs, s2)"
    by fastforce
  have s1: "push_tokens s1 = push_tokens s" "registered_dids s1 = registered_dids s" "blocks s1 = blocks s"
    using db_call_fields [of s] call by simp_all
  have s2: "push_tokens s2 = push_tokens s1" "registered_dids s2 = registered_dids s1"
    "blocks s2 = blocks s1" using fetch_rows_fields [of "filter (\<lambda>r. pt_actor r = did) (push_tokens s1)" s1] rows by simp_all
  show "shrinks s s'"
    using assms call rows s1 s2 by (auto simp: get_tokens_for_did_def shrinks_def split: if_splits)
  assume "res = Inr ts" "t \<in> set ts"
  then have "t \<in> set xs" using assms call rows by (auto simp: get_tokens_for_did_def split: if_splits)
  moreover have "prefix xs (filter (\<lambda>r. pt_actor r = did) (push_tokens s1))"
    using fetch_rows_prefix [of "filter (\<lambda>r. pt_actor r = did) (push_tokens s1)" s1] rows by simp
  ultimately have "t \<in> set (filter (\<lambda>r. pt_actor r = did) (push_tokens s1))"
    using set_mono_prefix by blast
  then show "t \<in> set (push_tokens s) \<and> pt_actor t = did" using s1 by simp
qed

lemma unregister_shrinks: "shrinks s (fst (unregister_token a p t app s))"
  by (auto simp: unregister_token_def shrinks_def db_call_def Let_def)

lemma verification_shrinks:
  "shrinks s (fst (add_verification v subject rkey s))"
  "shrinks s (fst (remove_verification_by_rkey v rkey s))"
  by (auto simp: add_verification_def remove_verification_by_rkey_def shrinks_def db_call_def Let_def)

text \<open>A notification for an account that wants it: one of its stored devices, no block between the two.\<close>

definition wanted :: "store \<Rightarrow> string \<Rightarrow> notification \<Rightarrow> bool" where
  "wanted s actor n \<longleftrightarrow>
     (\<exists>t \<in> set (push_tokens s). n_token n = pt_token t \<and> n_platform n = pt_platform t \<and>
        is_registered (pt_actor t) s \<and> \<not> is_blocked actor (pt_actor t) s \<and>
        map_of (n_data n) ''recipientDid'' = Some (pt_actor t) \<and>
        map_of (n_data n) ''actorDid'' = Some actor)"

lemma is_blocked_cong: "blocks s' = blocks s \<Longrightarrow> is_blocked a b s' = is_blocked a b s"
  by (simp add: is_blocked_def in_blocks_def)

lemma wanted_shrinks: "shrinks s s' \<Longrightarrow> wanted s' actor n \<Longrightarrow> wanted s actor n"
  unfolding wanted_def shrinks_def is_registered_def using is_blocked_cong [of s' s] by blast

definition notifies :: "string \<Rightarrow> (notification list, 'a, 'b) consumer \<Rightarrow> (notification list, 'a, 'b) consumer
    \<Rightarrow> bool" where
  "notifies actor c c' \<longleftrightarrow> shrinks (co_store c) (co_store c') \<and>
     (\<exists>ns. co_push c' = co_push c @ ns \<and> (\<forall>n \<in> set ns. wanted (co_store c) actor n))"

lemma notifies_refl [simp]: "notifies actor c c"
  by (simp add: notifies_def)

lemma notifies_trans:
  "notifies actor c d \<Longrightarrow> notifies actor d e \<Longrightarrow> notifies actor c e"
proof -
  assume cd: "notifies actor c d" and de: "notifies actor d e"
  from cd obtain ns where ns: "shrinks (co_store c) (co_store d)" "co_push d = co_push c @ ns"
    "\<forall>n \<in> set ns. wanted (co_store c) actor n" by (auto simp: notifies_def)
  from de obtain ms where ms: "shrinks (co_store d) (co_store e)" "co_push e = co_push d @ ms"
    "\<forall>n \<in> set ms. wanted (co_store d) actor n" by (auto simp: notifies_def)
  have "\<forall>n \<in> set (ns @ ms). wanted (co_store c) actor n"
    using ns(3) ms(3) wanted_shrinks [OF ns(1)] by auto
  moreover have "co_push e = co_push c @ (ns @ ms)" by (simp add: ns(2) ms(2))
  ultimately show ?thesis
    unfolding notifies_def using shrinks_trans [OF ns(1) ms(1)] by blast
qed

lemma notifies_store:
  "shrinks (co_store c) s' \<Longrightarrow> notifies actor c (c\<lparr>co_store := s'\<rparr>)"
  by (simp add: notifies_def)

lemma notifies_cong:
  "notifies actor c d \<Longrightarrow> co_store e = co_store d \<Longrightarrow> co_push e = co_push d \<Longrightarrow> notifies actor c e"
  by (simp add: notifies_def)

lemma map_of_appendI: "map_of xs k = Some v \<Longrightarrow> map_of (xs @ ys) k = Some v"
  by (simp add: map_add_def)

lemma data_keys:
  "map_of (notification_data actor target reason u s d h x) ''recipientDid'' = Some target"
  "map_of (notification_data actor target reason u s d h x) ''actorDid'' = Some actor"
  unfolding notification_data_def by (rule map_of_appendI, simp)+

lemma deliver_to_notifies:
  assumes "ce_sender env = recording_sender answer"
    and "t \<in> set (push_tokens s)" and "is_registered (pt_actor t) s"
    and "\<not> is_blocked actor (pt_actor t) s"
    and "map_of data ''recipientDid'' = Some (pt_actor t)" and "map_of data ''actorDid'' = Some actor"
    and "notifies actor c0 c" and "co_store c0 = s"
  shows "notifies actor c0 (deliver_to env title body data t c)"
proof -
  let ?n = "\<lparr>n_token = pt_token t, n_platform = pt_platform t, n_title = title, n_body = body, n_data = data\<rparr>"
  have n: "wanted s actor ?n" using assms(2-6) by (auto simp: wanted_def)
  let ?c' = "deliver_to env title body data t c"
  have "co_push ?c' = co_push c @ [?n]" and "shrinks (co_store c) (co_store ?c')"
    using unregister_shrinks [of "co_store c"]
    by (auto simp: deliver_to_def assms(1) recording_sender_def Let_def split: option.split send_error.split)
  then show ?thesis
    using assms(7,8) n shrinks_trans unfolding notifies_def by fastforce
qed

lemma ask_profile_frame:
  "ask_profile env actor c = (c', x) \<Longrightarrow> co_store c' = co_store c \<and> co_push c' = co_push c"
  by (auto simp: ask_profile_def split: option.splits prod.splits)

lemma ask_text_frame:
  "ask_text env reason subj old c = (c', x) \<Longrightarrow> co_store c' = co_store c \<and> co_push c' = co_push c"
  by (auto simp: ask_text_def split: option.splits prod.splits if_splits)

lemma send_notification_notifies:
  assumes "ce_sender env = recording_sender answer"
  shows "notifies actor c (send_notification env actor target reason u subj txt0 c)"
proof (cases "is_registered target (co_store c) \<and> \<not> is_blocked actor target (co_store c)")
  case gate: True
  obtain s' res where toks: "get_tokens_for_did target (co_store c) = (s', res)" by fastforce
  note shr = get_tokens_shrinks(1) [OF toks]
  show ?thesis
  proof (cases res)
    case (Inl e)
    with gate toks shr show ?thesis by (simp add: send_notification_def notifies_store)
  next
    case (Inr tokens)
    have fold: "set ts \<subseteq> set tokens \<Longrightarrow> notifies actor c d \<Longrightarrow>
        notifies actor c (fold (deliver_to env title body
          (notification_data actor target reason u subj di h x)) ts d)" for ts d title body di h x
    proof (induction ts arbitrary: d)
      case (Cons t ts)
      have t: "t \<in> set (push_tokens (co_store c))" "pt_actor t = target"
        using get_tokens_shrinks(2) [OF toks Inr] Cons.prems(1) by auto
      have "notifies actor c (deliver_to env title body
          (notification_data actor target reason u subj di h x) t d)"
        by (rule deliver_to_notifies [OF assms t(1) _ _ _ _ Cons.prems(2) refl])
          (use gate t data_keys in simp_all)
      with Cons show ?case by simp
    qed simp
    define c1 where "c1 = c\<lparr>co_store := s', co_matched := Suc (co_matched c)\<rparr>"
    obtain c2 display handle where p: "ask_profile env actor c1 = (c2, display, handle)"
      by (metis prod_cases3)
    obtain c3 x where t: "ask_text env reason subj txt0 c2 = (c3, x)" by fastforce
    obtain title body where f: "format_notification reason display handle x = (title, body)" by fastforce
    have "co_store c3 = s'" "co_push c3 = co_push c"
      using ask_profile_frame [OF p] ask_text_frame [OF t] by (simp_all add: c1_def)
    then have "notifies actor c c3" using shr by (simp add: notifies_def)
    from fold [OF subset_refl this] show ?thesis
      using gate toks Inr p t f by (simp add: send_notification_def c1_def)
  qed
qed (auto simp: send_notification_def)

lemma if_notifies:
  "notifies actor c d \<Longrightarrow> notifies actor c e \<Longrightarrow> notifies actor c (if P then d else e)"
  by simp

lemma handlers_notify:
  assumes "ce_sender env = recording_sender answer"
  shows "notifies actor c (handle_like env actor rkey j c)"
    "notifies actor c (handle_repost env actor rkey j c)"
    "notifies actor c (handle_post env actor rkey j c)"
    "notifies actor c (handle_follow env actor rkey j c)"
proof -
  note send = send_notification_notifies [OF assms]
  have via: "notifies actor c (send_notification env actor t2 r2 u2 s2 x2
      (send_notification env actor t1 r1 u1 s1 x1 c))" for t1 r1 u1 s1 x1 t2 r2 u2 s2 x2 c
    by (rule notifies_trans [OF send send])
  show "notifies actor c (handle_like env actor rkey j c)"
    "notifies actor c (handle_repost env actor rkey j c)"
    by (simp_all add: handle_like_def handle_repost_def Let_def send via split: option.split)
  show "notifies actor c (handle_follow env actor rkey j c)"
    by (simp add: handle_follow_def Let_def send split: option.split)
  have mentions: "notifies actor c (fold (\<lambda>f. if mention_of actor f
      then send_notification env actor (ff_did f) ''mention'' u [] x else (\<lambda>c. c)) fs d)"
    if "notifies actor c d" for c d u x fs
    using that
  proof (induction fs arbitrary: d)
    case (Cons f fs)
    show ?case
    proof (cases "mention_of actor f")
      case True
      with Cons.IH [OF notifies_trans [OF Cons.prems send]] show ?thesis by simp
    qed (use Cons in simp)
  qed simp
  have maybe: "notifies actor c (if P then send_notification env actor t r u s x d else d)"
    if "notifies actor c d" for P t r u s x d
    using that notifies_trans [OF that send] by simp
  show "notifies actor c (handle_post env actor rkey j c)"
  proof (cases "decode_record (dec_struct post_fields) empty_post j")
    case (Some post)
    show ?thesis
      unfolding handle_post_def Some Let_def option.case
      by (rule mentions; cases "po_reply post"; cases "po_embed post")
        (simp_all add: send via maybe split: option.split)
  qed (simp add: handle_post_def)
qed

lemma verification_handlers_notify:
  assumes "ce_sender env = recording_sender answer"
  shows "notifies actor c (handle_verification_create env actor rkey j c)"
    "notifies actor c (handle_verification_delete env actor rkey c)"
proof -
  have after: "notifies actor c (send_notification env actor t r u s x (c\<lparr>co_store := s'\<rparr>))"
    if "shrinks (co_store c) s'" for t r u s x s'
    by (rule notifies_trans [OF notifies_store [OF that] send_notification_notifies [OF assms]])
  show "notifies actor c (handle_verification_create env actor rkey j c)"
    using verification_shrinks(1) [of "co_store c" actor]
    by (auto simp: handle_verification_create_def Let_def split: option.split
        intro!: after notifies_store)
  have "remove_verification_by_rkey actor rkey (co_store c) = (s', res) \<Longrightarrow> shrinks (co_store c) s'" for s' res
    using verification_shrinks(2) [of "co_store c" actor rkey] by simp
  then show "notifies actor c (handle_verification_delete env actor rkey c)"
    by (auto simp: handle_verification_delete_def Let_def split: prod.split sum.split
        intro!: after notifies_store)
qed

text \<open>
  C3: Whatever commit arrives, every notification that goes out is for an account that is registered
  and of which no block to or from the acting account is known at that moment, goes to one of the
  devices stored for that account with its platform, and names both accounts in its data.\<close>

theorem notification_gates:
  assumes "ce_sender env = recording_sender answer"
  shows "\<exists>ns. co_push (handle_commit env actor cm c) = co_push c @ ns \<and>
    (\<forall>n \<in> set ns. \<exists>t \<in> set (push_tokens (co_store c)).
       n_token n = pt_token t \<and> n_platform n = pt_platform t \<and>
       is_registered (pt_actor t) (co_store c) \<and> \<not> is_blocked actor (pt_actor t) (co_store c) \<and>
       \<not> is_blocked (pt_actor t) actor (co_store c) \<and>
       map_of (n_data n) ''recipientDid'' = Some (pt_actor t) \<and>
       map_of (n_data n) ''actorDid'' = Some actor)"
proof -
  let ?c' = "handle_commit env actor cm c"
  have "notifies actor c ?c' \<or> co_push ?c' = co_push c"
    by (auto simp: handle_commit_def Let_def handlers_notify [OF assms]
        verification_handlers_notify [OF assms] handle_block_create_def handle_block_delete_def
        split: option.split)
  then obtain ns where "co_push ?c' = co_push c @ ns" "\<forall>n \<in> set ns. wanted (co_store c) actor n"
    unfolding notifies_def by force
  then show ?thesis unfolding wanted_def using is_blocked_sym by blast
qed

subsection \<open>Dead devices\<close>

definition gone :: "send_error option \<Rightarrow> bool" where
  "gone r \<longleftrightarrow> (case r of Some (TokenInvalid _) \<Rightarrow> True | _ \<Rightarrow> False)"

text \<open>A push service that answers by the device token.\<close>

definition by_token :: "(string \<Rightarrow> send_error option) \<Rightarrow> notification \<Rightarrow> send_error option" where
  "by_token verdict n = verdict (n_token n)"

lemma unregister_ok:
  assumes "healthy s"
  shows "push_tokens (fst (unregister_token (pt_actor t) (pt_platform t) (pt_token t) (pt_app t) s)) =
      filter (\<lambda>r. r \<noteq> t) (push_tokens s)"
    and "healthy (fst (unregister_token (pt_actor t) (pt_platform t) (pt_token t) (pt_app t) s))"
    and "a \<in> registered_dids (fst (unregister_token (pt_actor t) (pt_platform t) (pt_token t) (pt_app t) s)) \<longleftrightarrow>
      a \<in> registered_dids s \<and>
      (a = pt_actor t \<longrightarrow> (\<exists>r \<in> set (push_tokens s). r \<noteq> t \<and> pt_actor r = pt_actor t))"
  using assms
  by (auto simp: unregister_token_def Let_def healthy_def db_call_def filter_empty_conv)

lemma get_tokens_run:
  assumes "healthy s"
  shows "\<exists>n. get_tokens_for_did did s =
    (s\<lparr>db_calls := n\<rparr>, Inr (filter (\<lambda>r. pt_actor r = did) (push_tokens s)))"
proof -
  have "healthy (s\<lparr>db_calls := Suc (db_calls s)\<rparr>)" using assms by simp
  then show ?thesis using assms by (auto simp: get_tokens_for_did_def Let_def)
qed

definition indexed :: "string \<Rightarrow> store \<Rightarrow> bool" where
  "indexed a s \<longleftrightarrow> (a \<in> registered_dids s \<longleftrightarrow> (\<exists>r \<in> set (push_tokens s). pt_actor r = a))"

lemma deliver_all:
  assumes "ce_sender env = recording_sender (by_token verdict)"
    and "healthy (co_store d)" and "\<forall>t \<in> set ts. pt_actor t = target" and "indexed target (co_store d)"
  shows "push_tokens (co_store (fold (deliver_to env title body data) ts d)) =
      filter (\<lambda>r. \<not> (r \<in> set ts \<and> gone (verdict (pt_token r)))) (push_tokens (co_store d)) \<and>
    co_pushes_sent (fold (deliver_to env title body data) ts d) =
      co_pushes_sent d + length (filter (\<lambda>t. verdict (pt_token t) = None) ts) \<and>
    co_push_errors (fold (deliver_to env title body data) ts d) =
      co_push_errors d + length (filter (\<lambda>t. verdict (pt_token t) \<noteq> None) ts) \<and>
    indexed target (co_store (fold (deliver_to env title body data) ts d))"
  using assms(2-4)
proof (induction ts arbitrary: d)
  case (Cons t ts)
  let ?d = "deliver_to env title body data t d"
  note u = unregister_ok [OF Cons.prems(1)]
  have store: "co_store ?d = (if gone (verdict (pt_token t))
      then fst (unregister_token (pt_actor t) (pt_platform t) (pt_token t) (pt_app t) (co_store d))
      else co_store d)"
    "co_pushes_sent ?d = co_pushes_sent d + (if verdict (pt_token t) = None then 1 else 0)"
    "co_push_errors ?d = co_push_errors d + (if verdict (pt_token t) \<noteq> None then 1 else 0)"
    by (auto simp: deliver_to_def assms(1) recording_sender_def by_token_def gone_def Let_def
        split: option.split send_error.split)
  have h: "healthy (co_store ?d)" using store(1) u(2) Cons.prems(1) by simp
  have "indexed target (co_store ?d)"
    using store(1) u(1) [where t = t] u(3) [where t = t and a = target] Cons.prems(2,3) by (auto simp: indexed_def)
  moreover have "\<forall>t \<in> set ts. pt_actor t = target" using Cons.prems(2) by simp
  moreover have "filter (\<lambda>r. \<not> (r \<in> set ts \<and> gone (verdict (pt_token r)))) (push_tokens (co_store ?d)) =
      filter (\<lambda>r. \<not> (r \<in> set (t # ts) \<and> gone (verdict (pt_token r)))) (push_tokens (co_store d))"
    unfolding store(1)
    by (cases "gone (verdict (pt_token t))") (auto simp: u(1) filter_filter intro!: filter_cong)
  ultimately show ?case
    using Cons.IH [OF h] store(2,3) by simp
qed simp

text \<open>
  C17: A notification for an account goes once to each of its devices; the devices the push service
  reports as permanently invalid, and no others, are unregistered, the account stays registered
  exactly when a device is left, and every device is counted once, as sent or as an error.\<close>

theorem dead_devices_dropped:
  assumes "ce_sender env = recording_sender (by_token verdict)" and "healthy (co_store c)"
    and "indexed target (co_store c)" and "is_registered target (co_store c)"
    and "\<not> is_blocked actor target (co_store c)"
    and "c' = send_notification env actor target reason u subj old c"
  shows "push_tokens (co_store c') = filter (\<lambda>t. \<not> (pt_actor t = target \<and> gone (verdict (pt_token t))))
      (push_tokens (co_store c)) \<and>
    (is_registered target (co_store c') \<longleftrightarrow>
      (\<exists>t \<in> set (push_tokens (co_store c)). pt_actor t = target \<and> \<not> gone (verdict (pt_token t)))) \<and>
    co_pushes_sent c' + co_push_errors c' = co_pushes_sent c + co_push_errors c +
      length (filter (\<lambda>t. pt_actor t = target) (push_tokens (co_store c)))"
proof -
  let ?ts = "filter (\<lambda>t. pt_actor t = target) (push_tokens (co_store c))"
  obtain s' where toks: "get_tokens_for_did target (co_store c) = (s', Inr ?ts)"
    and s': "push_tokens s' = push_tokens (co_store c)" "registered_dids s' = registered_dids (co_store c)"
      "healthy s'"
    using get_tokens_run [OF assms(2), of target] assms(2) by (auto simp: healthy_def)
  define c1 where "c1 = c\<lparr>co_store := s', co_matched := Suc (co_matched c)\<rparr>"
  obtain c2 display handle where p: "ask_profile env actor c1 = (c2, display, handle)"
    by (metis prod_cases3)
  obtain c3 x where t: "ask_text env reason subj old c2 = (c3, x)" by fastforce
  obtain title body where f: "format_notification reason display handle x = (title, body)" by fastforce
  have c3: "co_store c3 = s'" "co_pushes_sent c3 = co_pushes_sent c" "co_push_errors c3 = co_push_errors c"
    using p t by (auto simp: ask_profile_def ask_text_def c1_def split: option.splits prod.splits if_splits)
  define data where "data = notification_data actor target reason u subj display handle x"
  have c': "c' = fold (deliver_to env title body data) ?ts c3"
    using assms(4-6) toks p t f by (simp add: send_notification_def c1_def data_def)
  have "indexed target (co_store c3)" using assms(3) s' c3 by (simp add: indexed_def)
  from deliver_all [OF assms(1) _ _ this, of ?ts title body data] s' c3
  have all: "push_tokens (co_store c') =
      filter (\<lambda>r. \<not> (r \<in> set ?ts \<and> gone (verdict (pt_token r)))) (push_tokens (co_store c))"
    "co_pushes_sent c' = co_pushes_sent c + length (filter (\<lambda>t. verdict (pt_token t) = None) ?ts)"
    "co_push_errors c' = co_push_errors c + length (filter (\<lambda>t. verdict (pt_token t) \<noteq> None) ?ts)"
    "indexed target (co_store c')"
    unfolding c' by simp_all
  have rows: "push_tokens (co_store c') = filter (\<lambda>t. \<not> (pt_actor t = target \<and> gone (verdict (pt_token t))))
      (push_tokens (co_store c))" unfolding all(1) by (rule filter_cong) auto
  moreover have "is_registered target (co_store c') \<longleftrightarrow>
      (\<exists>t \<in> set (push_tokens (co_store c)). pt_actor t = target \<and> \<not> gone (verdict (pt_token t)))"
    using all(4) unfolding indexed_def is_registered_def rows by auto
  ultimately show ?thesis
    using all(2,3) length_filter_add_compl [of "\<lambda>t. verdict (pt_token t) = None" ?ts] by simp
qed

subsection \<open>The properties on a concrete consumer\<close>

text \<open>The account \<open>d\<close> with two devices, the first of which is gone.\<close>

definition demo_verdict :: "string \<Rightarrow> send_error option" where
  "demo_verdict token = (if token = ''t1'' then Some (TokenInvalid ''gone'') else None)"

definition demo_consumer_env :: "(notification list, unit, unit) consumer_env" where
  "demo_consumer_env = new_consumer_env (recording_sender (by_token demo_verdict)) None"

definition demo_consumer :: "(notification list, unit, unit) consumer" where
  "demo_consumer = \<lparr>co_store = two_tokens (\<lambda>_. False), co_push = [], co_profiles = (), co_texts = (),
     co_pushes_sent = 0, co_push_errors = 0, co_matched = 0\<rparr>"

lemma demo_consumer_fields:
  "ce_sender demo_consumer_env = recording_sender (by_token demo_verdict)"
  "healthy (co_store demo_consumer)" "is_registered ''d'' (co_store demo_consumer)"
  "\<not> is_blocked ''e'' ''d'' (co_store demo_consumer)" "indexed ''d'' (co_store demo_consumer)"
  "push_tokens (co_store demo_consumer) =
     [\<lparr>pt_actor = ''d'', pt_platform = ''ios'', pt_token = ''t1'', pt_app = ''x''\<rparr>,
      \<lparr>pt_actor = ''d'', pt_platform = ''ios'', pt_token = ''t2'', pt_app = ''x''\<rparr>]"
  by (simp_all add: demo_consumer_env_def new_consumer_env_def demo_consumer_def two_tokens_def
      healthy_def is_registered_def is_blocked_def in_blocks_def fresh_store_def indexed_def)

theorem dead_devices_dropped_witness:
  "push_tokens (co_store (send_notification demo_consumer_env ''e'' ''d'' ''follow'' [] [] [] demo_consumer)) =
     [\<lparr>pt_actor = ''d'', pt_platform = ''ios'', pt_token = ''t2'', pt_app = ''x''\<rparr>]"
  using dead_devices_dropped [OF demo_consumer_fields(1,2,5,3,4) refl]
  by (simp add: demo_consumer_fields(6) demo_verdict_def gone_def)

definition demo_follow :: commit_event where
  "demo_follow = \<lparr>cm_rev = [], cm_operation = ''create'', cm_collection = ''app.bsky.graph.follow'',
     cm_rkey = ''3k'', cm_record = Some (JObj [(''subject'', JStr ''d'')])\<rparr>"

theorem notification_gates_witness:
  "\<exists>ns. co_push (handle_commit demo_consumer_env ''e'' demo_follow demo_consumer) = ns \<and>
     (\<forall>n \<in> set ns. n_token n \<in> {''t1'', ''t2''})"
proof -
  have "co_push demo_consumer = []" by (simp add: demo_consumer_def)
  with notification_gates [OF demo_consumer_fields(1), of "''e''" demo_follow demo_consumer]
  show ?thesis by (auto simp: demo_consumer_fields(6))
qed

end
