(* ===== verification/Jetstream_Loop.thy ===== *)
theory Jetstream_Loop
  imports Jetstream_Theorems
begin

text \<open>
  The moving parts of the consumer (\<open>internal/jetstream/consumer.go\<close>): the reader of one
  connection, the bounded queue and the eight workers behind it, the reconnect loop of \<open>Run\<close>, and
  the start signal. The websocket and the zstd decoder are third-party packages: what they deliver
  is the input of the definitions.
\<close>

subsection \<open>Reading\<close>

type_synonym dispatch_item = "string \<times> commit_event"

record ('p, 'a, 'b) jetstream =
  js_consumer :: "('p, 'a, 'b) consumer"
  js_queue :: "dispatch_item list"
  js_events_received :: nat
  js_bytes_received :: nat
  js_events_dropped :: nat
  js_last_cursor :: int

datatype message = TextMessage string | BinaryMessage string

definition queue_capacity :: nat where
  "queue_capacity = 1024"

definition new_jetstream :: "('p, 'a, 'b) consumer \<Rightarrow> ('p, 'a, 'b) jetstream" where
  "new_jetstream c = \<lparr>js_consumer = c, js_queue = [], js_events_received = 0, js_bytes_received = 0,
     js_events_dropped = 0, js_last_cursor = 0\<rparr>"

fun message_bytes :: "message \<Rightarrow> string" where
  "message_bytes (TextMessage b) = b"
| "message_bytes (BinaryMessage b) = b"

fun message_text :: "(string \<Rightarrow> string option) \<Rightarrow> message \<Rightarrow> string option" where
  "message_text decompress (TextMessage b) = Some b"
| "message_text decompress (BinaryMessage b) = decompress b"

definition dispatch :: "dispatch_item \<Rightarrow> ('p, 'a, 'b) jetstream \<Rightarrow> ('p, 'a, 'b) jetstream" where
  "dispatch item j =
     (if length (js_queue j) < queue_capacity then j\<lparr>js_queue := js_queue j @ [item]\<rparr>
      else j\<lparr>js_events_dropped := Suc (js_events_dropped j)\<rparr>)"

definition receive ::
  "(string \<Rightarrow> string option) \<Rightarrow> message \<Rightarrow> ('p, 'a, 'b) jetstream \<Rightarrow> ('p, 'a, 'b) jetstream" where
  "receive decompress m j =
     (let j1 = j\<lparr>js_bytes_received := js_bytes_received j + length (message_bytes m)\<rparr> in
      case message_text decompress m of
        None \<Rightarrow> j1
      | Some t \<Rightarrow>
          let j2 = j1\<lparr>js_events_received := Suc (js_events_received j1)\<rparr> in
          (case unmarshal (dec_struct event_fields) empty_event t of
             None \<Rightarrow> j2
           | Some e \<Rightarrow>
               let j3 = (if 0 < ev_time_us e then j2\<lparr>js_last_cursor := ev_time_us e\<rparr> else j2) in
               if ev_kind e \<noteq> ''commit'' then j3
               else (case ev_commit e of
                       None \<Rightarrow> j3
                     | Some cm \<Rightarrow> dispatch (ev_did e, cm) j3)))"

datatype conn_result = ConnStopped | ConnFailed

text \<open>
  One turn of the read loop of \<open>connect\<close> first looks at the stop channel and then reads. A read
  delivers a message, fails, or never returns. What the turns meet is given for every turn there
  could be, so a connection can go on for ever: \<open>None\<close> is a loop that never returns.
\<close>

datatype read_result = Got message | ReadError | ReadBlocked

type_synonym turns = "nat \<Rightarrow> bool \<times> read_result"

partial_function (option) read_loop ::
  "(string \<Rightarrow> string option) \<Rightarrow> turns \<Rightarrow> nat \<Rightarrow> ('p, 'a, 'b) jetstream
     \<Rightarrow> (('p, 'a, 'b) jetstream \<times> conn_result) option" where
  "read_loop decompress turns i j =
     (if fst (turns i) then Some (j, ConnStopped)
      else case snd (turns i) of
        ReadBlocked \<Rightarrow> None
      | ReadError \<Rightarrow> Some (j, ConnFailed)
      | Got msg \<Rightarrow> read_loop decompress turns (Suc i) (receive decompress msg j))"

subsection \<open>Reconnecting\<close>

definition collections :: "string list" where
  "collections = [''app.bsky.feed.like'', ''app.bsky.feed.repost'', ''app.bsky.feed.post'',
     ''app.bsky.graph.follow'', ''app.bsky.graph.block'', ''app.bsky.graph.verification'']"

definition stream_params :: string where
  "stream_params =
     ''?compress=true'' @ concat (map (\<lambda>c. ''&wantedCollections='' @ c) collections)"

definition connect_url :: "string \<Rightarrow> int \<Rightarrow> string" where
  "connect_url url cursor =
     url @ stream_params @ (if 0 < cursor then ''&cursor='' @ int_text cursor else [])"

text \<open>
  One round of the loop of \<open>Run\<close>: what the three looks at the stop channel see, whether the
  dial and the decoder succeed, and the turns of the read loop.
\<close>

record round =
  rd_stop_before :: bool
  rd_dialed :: bool
  rd_decoder :: bool
  rd_turns :: turns
  rd_stop_after :: bool
  rd_stop_sleeping :: bool

definition connect ::
  "(string \<Rightarrow> string option) \<Rightarrow> round \<Rightarrow> ('p, 'a, 'b) jetstream
     \<Rightarrow> (('p, 'a, 'b) jetstream \<times> conn_result) option" where
  "connect decompress r j =
     (if \<not> rd_dialed r then Some (j, ConnFailed)
      else if \<not> rd_decoder r then Some (j, ConnFailed)
      else read_loop decompress (rd_turns r) 0 j)"

text \<open>\<open>ru_connected\<close>: \<open>Run\<close> is in a call of \<open>connect\<close> that never returns.\<close>

record ('p, 'a, 'b) run_state =
  ru_jetstream :: "('p, 'a, 'b) jetstream"
  ru_backoff :: nat
  ru_dialed :: "string list"
  ru_waits :: "nat list"
  ru_connected :: bool
  ru_returned :: bool

definition max_backoff :: nat where
  "max_backoff = 60"

text \<open>Backoff in seconds. \<open>ru_waits\<close> are the waits that were begun.\<close>

definition run_round ::
  "(string \<Rightarrow> string option) \<Rightarrow> string \<Rightarrow> round \<Rightarrow> ('p, 'a, 'b) run_state \<Rightarrow> ('p, 'a, 'b) run_state" where
  "run_round decompress url r st =
     (if ru_returned st \<or> ru_connected st then st
      else if rd_stop_before r then st\<lparr>ru_returned := True\<rparr>
      else
        let target = connect_url url (js_last_cursor (ru_jetstream st));
            st0 = st\<lparr>ru_dialed := ru_dialed st @ [target]\<rparr> in
        case connect decompress r (ru_jetstream st) of
          None \<Rightarrow> st0\<lparr>ru_connected := True\<rparr>
        | Some (j, res) \<Rightarrow>
            let st1 = st0\<lparr>ru_jetstream := j\<rparr>;
                st2 = (if res = ConnStopped then st1\<lparr>ru_backoff := 1\<rparr> else st1) in
            if rd_stop_after r then st2\<lparr>ru_returned := True\<rparr>
            else
              let st3 = st2\<lparr>ru_waits := ru_waits st2 @ [ru_backoff st2]\<rparr> in
              if rd_stop_sleeping r then st3\<lparr>ru_returned := True\<rparr>
              else st3\<lparr>ru_backoff :=
                (let b = ru_backoff st3 * 2 in if max_backoff < b then max_backoff else b)\<rparr>)"

definition run_init :: "('p, 'a, 'b) jetstream \<Rightarrow> ('p, 'a, 'b) run_state" where
  "run_init j = \<lparr>ru_jetstream = j, ru_backoff = 1, ru_dialed = [], ru_waits = [],
     ru_connected = False, ru_returned = False\<rparr>"

text \<open>
  \<open>Run\<close>: it first waits for the start signal; \<open>started\<close> tells whether that came before the
  stop signal.
\<close>

definition run_consumer ::
  "(string \<Rightarrow> string option) \<Rightarrow> string \<Rightarrow> bool \<Rightarrow> round list \<Rightarrow> ('p, 'a, 'b) jetstream
     \<Rightarrow> ('p, 'a, 'b) run_state" where
  "run_consumer decompress url started rounds j =
     (if started then fold (run_round decompress url) rounds (run_init j)
      else (run_init j)\<lparr>ru_returned := True\<rparr>)"

subsection \<open>Stopping and waiting\<close>

text \<open>A turn is reached when every turn before it found the channel open and got a message.\<close>

definition turn_reached :: "turns \<Rightarrow> nat \<Rightarrow> bool" where
  "turn_reached turns i \<longleftrightarrow> (\<forall>k<i. \<exists>m. turns k = (False, Got m))"

text \<open>The stop channel stays closed once a look of the round has seen it closed.\<close>

definition stop_stays :: "round \<Rightarrow> bool" where
  "stop_stays r \<longleftrightarrow> (rd_stop_before r \<longrightarrow> rd_stop_after r) \<and>
     (\<forall>i. turn_reached (rd_turns r) i \<longrightarrow> fst (rd_turns r i) \<longrightarrow> rd_stop_after r) \<and>
     (rd_stop_after r \<longrightarrow> rd_stop_sleeping r)"

lemma read_loop_stopped:
  assumes "read_loop decompress turns i j = Some y" and "snd y = ConnStopped"
  shows "\<exists>n\<ge>i. fst (turns n) \<and> (\<forall>k. i \<le> k \<longrightarrow> k < n \<longrightarrow> (\<exists>m. turns k = (False, Got m)))"
  using assms
proof (induction rule: read_loop.raw_induct [rotated 1, consumes 1, case_names turn])
  case (turn loop decompress turns i j y)
  show ?case
  proof (cases "fst (turns i)")
    case False
    with turn(2,3) obtain m where m: "snd (turns i) = Got m"
      "loop decompress turns (Suc i) (receive decompress m j) = Some y"
      by (auto split: read_result.splits)
    from turn(1) [OF this(2) turn(3)] obtain n where n: "n \<ge> Suc i" "fst (turns n)"
      "\<forall>k. Suc i \<le> k \<longrightarrow> k < n \<longrightarrow> (\<exists>m. turns k = (False, Got m))"
      by blast
    have "turns i = (False, Got m)" using False m(1) by (cases "turns i") simp
    with n have "\<forall>k. i \<le> k \<longrightarrow> k < n \<longrightarrow> (\<exists>m. turns k = (False, Got m))"
      by (metis Suc_leI le_neq_implies_less)
    with n show ?thesis by (intro exI [of _ n]) simp
  qed (intro exI [of _ i], simp)
qed

lemma connect_stopped:
  assumes "connect decompress r j = Some (j', ConnStopped)" and "stop_stays r"
  shows "rd_stop_after r"
proof -
  have "read_loop decompress (rd_turns r) 0 j = Some (j', ConnStopped)"
    using assms(1) by (auto simp: connect_def split: if_splits)
  from read_loop_stopped [OF this] show ?thesis
    using assms(2) by (auto simp: stop_stays_def turn_reached_def)
qed

lemma read_loop_messages:
  "\<forall>i<length ms. turns (k + i) = (False, Got (ms ! i)) \<Longrightarrow>
   read_loop decompress turns k j
     = read_loop decompress turns (k + length ms) (fold (receive decompress) ms j)"
proof (induction ms arbitrary: k j)
  case (Cons m ms)
  have "turns k = (False, Got m)" using Cons.prems by (auto dest: spec [of _ 0])
  then have "read_loop decompress turns k j
      = read_loop decompress turns (Suc k) (receive decompress m j)"
    by (subst read_loop.simps) simp
  also have "\<dots> = read_loop decompress turns (Suc k + length ms)
      (fold (receive decompress) ms (receive decompress m j))"
    using Cons.prems by (intro Cons.IH) (auto dest: spec [of _ "Suc _"])
  finally show ?case by simp
qed simp

lemma read_loop_ends:
  assumes "fst (turns e) \<or> snd (turns e) = ReadError"
    and "\<And>i. snd (turns i) \<noteq> ReadBlocked"
  obtains ms where "\<forall>i<length ms. turns i = (False, Got (ms ! i))"
    and "fst (turns (length ms)) \<or> snd (turns (length ms)) = ReadError"
    and "read_loop decompress turns 0 j = Some (fold (receive decompress) ms j,
      if fst (turns (length ms)) then ConnStopped else ConnFailed)"
proof -
  define stop where "stop i \<longleftrightarrow> fst (turns i) \<or> snd (turns i) = ReadError" for i
  define n where "n = (LEAST i. stop i)"
  have n: "stop n" using assms(1) unfolding n_def stop_def by (rule LeastI)
  have "\<exists>m. turns i = (False, Got m)" if "i < n" for i
    using not_less_Least [OF that [unfolded n_def]] assms(2) [of i]
    by (cases "turns i"; cases "snd (turns i)") (auto simp: stop_def)
  then obtain f where f: "\<And>i. i < n \<Longrightarrow> turns i = (False, Got (f i))" by metis
  define ms where "ms = map f [0..<n]"
  have ms: "\<forall>i<length ms. turns i = (False, Got (ms ! i))" by (simp add: ms_def f)
  have "length ms = n" by (simp add: ms_def)
  then have "read_loop decompress turns 0 j = Some (fold (receive decompress) ms j,
      if fst (turns n) then ConnStopped else ConnFailed)"
    using n read_loop_messages [of ms turns 0 decompress j] ms
      read_loop.simps [of decompress turns n "fold (receive decompress) ms j"]
    by (auto simp: stop_def)
  with ms n \<open>length ms = n\<close> show ?thesis by (intro that [of ms]) (simp_all add: stop_def)
qed

lemma fold_returned: "ru_returned st \<Longrightarrow> fold (run_round decompress url) rs st = st"
  by (induction rs) (simp_all add: run_round_def)

definition nth_backoff :: "nat \<Rightarrow> nat" where
  "nth_backoff n = min max_backoff (2 ^ n)"

lemma nth_backoff_Suc:
  "nth_backoff (Suc n) = (let b = nth_backoff n * 2 in if max_backoff < b then max_backoff else b)"
  by (auto simp: nth_backoff_def max_backoff_def min_def)

definition backoff_ok :: "('p, 'a, 'b) run_state \<Rightarrow> bool" where
  "backoff_ok st \<longleftrightarrow> ru_waits st = map nth_backoff [0..<length (ru_waits st)] \<and>
     (\<not> ru_returned st \<longrightarrow> ru_backoff st = nth_backoff (length (ru_waits st)))"

lemma run_round_backoff:
  assumes "backoff_ok st" and "stop_stays r"
  shows "backoff_ok (run_round decompress url r st)"
proof (cases "ru_returned st \<or> ru_connected st \<or> rd_stop_before r \<or>
    connect decompress r (ru_jetstream st) = None")
  case True
  with assms(1) show ?thesis by (auto simp: run_round_def backoff_ok_def Let_def)
next
  case go: False
  then obtain j res where con: "connect decompress r (ru_jetstream st) = Some (j, res)" by fastforce
  show ?thesis
  proof (cases "rd_stop_after r")
    case True
    with go con assms(1) show ?thesis by (auto simp: run_round_def backoff_ok_def Let_def)
  next
    case False
    then have "res \<noteq> ConnStopped" using connect_stopped [OF _ assms(2)] con by blast
    with go con False assms(1) show ?thesis
      by (simp add: run_round_def backoff_ok_def nth_backoff_Suc Let_def)
  qed
qed

lemma rounds_backoff:
  "backoff_ok st \<Longrightarrow> \<forall>r \<in> set rs. stop_stays r \<Longrightarrow>
   backoff_ok (fold (run_round decompress url) rs st)"
  by (induction rs arbitrary: st) (simp_all add: run_round_backoff)

text \<open>
  C39: The n-th wait before a reconnect is the n-th power of two seconds, at most a minute, however
  many messages the connections in between delivered and however long they lasted: the reset after
  a successful connection never happens, because \<open>connect\<close> returns nil only when it is stopped.\<close>

theorem backoff_never_reset:
  assumes "\<forall>r \<in> set rounds. stop_stays r"
    and "st = run_consumer decompress url True rounds j"
  shows "ru_waits st = map (\<lambda>n. min 60 (2 ^ n)) [0..<length (ru_waits st)]"
proof -
  have "backoff_ok (run_init j)" by (simp add: backoff_ok_def run_init_def nth_backoff_def max_backoff_def)
  moreover have "nth_backoff = (\<lambda>n. min 60 (2 ^ n))"
    by (simp add: fun_eq_iff nth_backoff_def max_backoff_def)
  ultimately show ?thesis
    using rounds_backoff [OF _ assms(1), of "run_init j" decompress url]
    unfolding assms(2) run_consumer_def backoff_ok_def by simp
qed

text \<open>Turns that deliver \<open>ms\<close> and then meet \<open>t\<close> for ever.\<close>

definition turns_of :: "message list \<Rightarrow> bool \<times> read_result \<Rightarrow> turns" where
  "turns_of ms t i = (if i < length ms then (False, Got (ms ! i)) else t)"

theorem backoff_never_reset_witness:
  "ru_waits (run_consumer Some ''wss://x'' True (replicate 3 \<lparr>rd_stop_before = False, rd_dialed = True,
     rd_decoder = True, rd_turns = turns_of [TextMessage ''{}''] (False, ReadError),
     rd_stop_after = False, rd_stop_sleeping = False\<rparr>) (new_jetstream demo_consumer)) = [1, 2, 4]"
  (is "ru_waits (run_consumer _ _ _ ?rs _) = _")
proof -
  have "\<forall>r \<in> set ?rs. stop_stays r" by (simp add: stop_stays_def turns_of_def)
  moreover have "length (ru_waits (run_consumer Some ''wss://x'' True ?rs (new_jetstream demo_consumer))) = 3"
    by (simp add: run_consumer_def run_round_def run_init_def connect_def read_loop.simps turns_of_def
        eval_nat_numeral split: prod.split)
  ultimately show ?thesis
    using backoff_never_reset [of ?rs _ Some "''wss://x''" "new_jetstream demo_consumer", OF _ refl]
    by (simp add: eval_nat_numeral)
qed

text \<open>
  What is left to do in the round in which \<open>Run\<close> returns. When its first look sees the channel
  closed: nothing. Otherwise it dials once more, handles the messages that come before the first
  turn that sees the channel closed or fails to read, and waits only if the channel is still open
  after the connection.
\<close>

definition last_round ::
  "(string \<Rightarrow> string option) \<Rightarrow> string \<Rightarrow> round \<Rightarrow> ('p, 'a, 'b) run_state \<Rightarrow> ('p, 'a, 'b) run_state \<Rightarrow> bool"
  where
  "last_round decompress url r st st' \<longleftrightarrow> ru_returned st' \<and>
     (if rd_stop_before r then st' = st\<lparr>ru_returned := True\<rparr>
      else
        ru_dialed st' = ru_dialed st @ [connect_url url (js_last_cursor (ru_jetstream st))] \<and>
        ru_waits st' = ru_waits st @ (if rd_stop_after r then [] else [ru_backoff st]) \<and>
        (if rd_dialed r \<and> rd_decoder r
         then \<exists>ms. (\<forall>i<length ms. rd_turns r i = (False, Got (ms ! i))) \<and>
           (fst (rd_turns r (length ms)) \<or> snd (rd_turns r (length ms)) = ReadError) \<and>
           ru_jetstream st' = fold (receive decompress) ms (ru_jetstream st)
         else ru_jetstream st' = ru_jetstream st))"

definition connection_ends :: "round \<Rightarrow> bool" where
  "connection_ends r \<longleftrightarrow> (\<forall>i. snd (rd_turns r i) \<noteq> ReadBlocked) \<and>
     (\<exists>i. fst (rd_turns r i) \<or> snd (rd_turns r i) = ReadError)"

lemma connect_ends:
  assumes "connection_ends r"
  obtains j' res where "connect decompress r j = Some (j', res)"
    and "if rd_dialed r \<and> rd_decoder r
         then \<exists>ms. (\<forall>i<length ms. rd_turns r i = (False, Got (ms ! i))) \<and>
           (fst (rd_turns r (length ms)) \<or> snd (rd_turns r (length ms)) = ReadError) \<and>
           j' = fold (receive decompress) ms j
         else j' = j"
proof (cases "rd_dialed r \<and> rd_decoder r")
  case True
  from assms obtain e where "fst (rd_turns r e) \<or> snd (rd_turns r e) = ReadError"
    and "\<And>i. snd (rd_turns r i) \<noteq> ReadBlocked"
    by (auto simp: connection_ends_def)
  then obtain ms where "\<forall>i<length ms. rd_turns r i = (False, Got (ms ! i))"
    and "fst (rd_turns r (length ms)) \<or> snd (rd_turns r (length ms)) = ReadError"
    and "read_loop decompress (rd_turns r) 0 j = Some (fold (receive decompress) ms j,
      if fst (rd_turns r (length ms)) then ConnStopped else ConnFailed)"
    by (rule read_loop_ends)
  with True show ?thesis
    by (intro that [of "fold (receive decompress) ms j"
          "if fst (rd_turns r (length ms)) then ConnStopped else ConnFailed"])
      (auto simp: connect_def)
next
  case False
  then show ?thesis by (intro that [of j ConnFailed]) (auto simp: connect_def)
qed

definition sees_stop :: "round \<Rightarrow> bool" where
  "sees_stop r \<longleftrightarrow> rd_stop_before r \<or> rd_stop_after r \<or> rd_stop_sleeping r"

lemma run_round_last:
  assumes "connection_ends r" and "stop_stays r" and "sees_stop r"
    and "\<not> ru_returned st" and "\<not> ru_connected st"
  shows "last_round decompress url r st (run_round decompress url r st)"
proof (cases "rd_stop_before r")
  case True
  then show ?thesis using assms(4,5) by (simp add: last_round_def run_round_def)
next
  case False
  obtain j res where con: "connect decompress r (ru_jetstream st) = Some (j, res)"
    and ms: "if rd_dialed r \<and> rd_decoder r
         then \<exists>ms. (\<forall>i<length ms. rd_turns r i = (False, Got (ms ! i))) \<and>
           (fst (rd_turns r (length ms)) \<or> snd (rd_turns r (length ms)) = ReadError) \<and>
           j = fold (receive decompress) ms (ru_jetstream st)
         else j = ru_jetstream st"
    by (rule connect_ends [OF assms(1)])
  have "rd_stop_sleeping r" using assms(2,3) by (auto simp: sees_stop_def stop_stays_def)
  moreover have "res = ConnStopped \<Longrightarrow> rd_stop_after r"
    using connect_stopped [OF _ assms(2)] con by blast
  ultimately show ?thesis
    using False assms(4,5) con ms unfolding last_round_def by (simp add: run_round_def Let_def)
qed

lemma run_round_goes_on:
  assumes "connection_ends r" and "\<not> sees_stop r"
    and "\<not> ru_returned st" and "\<not> ru_connected st"
  shows "\<not> ru_returned (run_round decompress url r st) \<and> \<not> ru_connected (run_round decompress url r st)"
proof -
  obtain j res where "connect decompress r (ru_jetstream st) = Some (j, res)"
    by (rule connect_ends [OF assms(1)])
  with assms(2-4) show ?thesis by (simp add: run_round_def sees_stop_def Let_def)
qed

text \<open>
  C28: \<open>Run\<close> returns at the first look that sees the stop channel closed, and does nothing after
  it: no dial once the look at the top of the loop has seen it, no message read once the reader
  has, no wait once the look after the connection has, and a wait is broken off. This rests on the
  channel staying closed, and on every connection coming to an end: no read blocks for ever, and
  no connection is read for ever without a read error or a look at the closed channel.\<close>

theorem stop_ends_run:
  assumes "\<And>n. run n = run_consumer decompress url True (map rounds [0..<n]) j"
    and "\<And>n. stop_stays (rounds n)"
    and "\<And>n. connection_ends (rounds n)"
    and "sees_stop (rounds k)"
  shows "\<exists>n\<le>k. (\<forall>m<n. \<not> sees_stop (rounds m)) \<and> \<not> ru_returned (run n) \<and>
    last_round decompress url (rounds n) (run n) (run (Suc n)) \<and>
    (\<forall>m>n. run m = run (Suc n))"
proof -
  define n where "n = (LEAST n. sees_stop (rounds n))"
  have n: "sees_stop (rounds n)" "n \<le> k"
    unfolding n_def by (rule LeastI [of _ k], rule assms(4)) (rule Least_le, rule assms(4))
  have before: "\<not> sees_stop (rounds m)" if "m < n" for m
    using not_less_Least [OF that [unfolded n_def]] .
  have step: "run (Suc m) = run_round decompress url (rounds m) (run m)" for m
    by (simp add: assms(1) run_consumer_def)
  have "m \<le> n \<Longrightarrow> \<not> ru_returned (run m) \<and> \<not> ru_connected (run m)" for m
  proof (induction m)
    case 0
    show ?case by (simp add: assms(1) run_consumer_def run_init_def)
  next
    case (Suc m)
    then have "\<not> sees_stop (rounds m)" using before by simp
    with Suc show ?case unfolding step by (intro run_round_goes_on [OF assms(3)]) simp_all
  qed
  then have going: "\<not> ru_returned (run n)" "\<not> ru_connected (run n)" by simp_all
  have lst: "last_round decompress url (rounds n) (run n) (run (Suc n))"
    unfolding step by (rule run_round_last [OF assms(3,2) n(1) going])
  have "run (Suc n + i) = run (Suc n)" for i
  proof (induction i)
    case (Suc i)
    have "ru_returned (run (Suc n + i))" using Suc lst by (simp add: last_round_def)
    then show ?case using Suc step [of "Suc n + i"] by (simp add: run_round_def)
  qed simp
  then have "\<forall>m>n. run m = run (Suc n)" by (metis less_eq_Suc_le nat_le_iff_add)
  with n before going lst show ?thesis by blast
qed

definition demo_rounds :: "nat \<Rightarrow> round" where
  "demo_rounds n = \<lparr>rd_stop_before = (1 < n), rd_dialed = True, rd_decoder = True,
     rd_turns = turns_of [TextMessage ''{}''] (n = 1, ReadError), rd_stop_after = (1 \<le> n),
     rd_stop_sleeping = (1 \<le> n)\<rparr>"

theorem stop_ends_run_witness:
  "\<exists>n\<le>5. ru_returned (run_consumer Some ''wss://x'' True (map demo_rounds [0..<Suc n])
     (new_jetstream demo_consumer))"
proof -
  let ?run = "\<lambda>n. run_consumer Some ''wss://x'' True (map demo_rounds [0..<n]) (new_jetstream demo_consumer)"
  have "stop_stays (demo_rounds n)" for n
    by (auto simp: stop_stays_def demo_rounds_def turns_of_def)
  moreover have "connection_ends (demo_rounds n)" for n
    by (auto simp: connection_ends_def demo_rounds_def turns_of_def intro: exI [of _ 1])
  moreover have "sees_stop (demo_rounds 5)" by (simp add: sees_stop_def demo_rounds_def)
  ultimately have "\<exists>n\<le>5. (\<forall>m<n. \<not> sees_stop (demo_rounds m)) \<and> \<not> ru_returned (?run n) \<and>
      last_round Some ''wss://x'' (demo_rounds n) (?run n) (?run (Suc n)) \<and>
      (\<forall>m>n. ?run m = ?run (Suc n))"
    by (intro stop_ends_run) simp_all
  then show ?thesis by (auto simp: last_round_def)
qed

end
