(* ===== verification/Jetstream_Workers.thy ===== *)
theory Jetstream_Workers
  imports Jetstream_Loop
begin

text \<open>
  The reader, the queue and the workers running concurrently (\<open>connect\<close> and
  \<open>dispatchWorker\<close>), and the start signal (\<open>NotifyTokenRegistered\<close>), as step relations. A
  worker takes an item and later finishes it; what \<open>handleCommit\<close> does is one step.
\<close>

subsection \<open>Reader, queue and workers\<close>

definition num_workers :: nat where
  "num_workers = 8"

record ('p, 'a, 'b) pool =
  po_js :: "('p, 'a, 'b) jetstream"
  po_busy :: "dispatch_item option list"

definition new_pool :: "('p, 'a, 'b) jetstream \<Rightarrow> ('p, 'a, 'b) pool" where
  "new_pool j = \<lparr>po_js = j, po_busy = replicate num_workers None\<rparr>"

datatype act = Receive message | Take nat | Finish nat

inductive pool_step ::
  "('p, 'a, 'b) consumer_env \<Rightarrow> (string \<Rightarrow> string option) \<Rightarrow> ('p, 'a, 'b) pool \<Rightarrow> act
     \<Rightarrow> ('p, 'a, 'b) pool \<Rightarrow> bool"
  for env decompress where
  receive: "pool_step env decompress s (Receive m) (s\<lparr>po_js := receive decompress m (po_js s)\<rparr>)"
| take_item: "i < length (po_busy s) \<Longrightarrow> po_busy s ! i = None \<Longrightarrow> js_queue (po_js s) = item # items \<Longrightarrow>
    pool_step env decompress s (Take i)
      (s\<lparr>po_js := (po_js s)\<lparr>js_queue := items\<rparr>, po_busy := (po_busy s)[i := Some item]\<rparr>)"
| finish: "i < length (po_busy s) \<Longrightarrow> po_busy s ! i = Some (actor, cm) \<Longrightarrow>
    pool_step env decompress s (Finish i)
      (s\<lparr>po_js := (po_js s)\<lparr>js_consumer := handle_commit env actor cm (js_consumer (po_js s))\<rparr>,
         po_busy := (po_busy s)[i := None]\<rparr>)"

inductive_cases pool_stepE: "pool_step env decompress s a s'"

inductive pool_run ::
  "('p, 'a, 'b) consumer_env \<Rightarrow> (string \<Rightarrow> string option) \<Rightarrow> ('p, 'a, 'b) pool \<Rightarrow> act list
     \<Rightarrow> ('p, 'a, 'b) pool \<Rightarrow> bool"
  for env decompress s0 where
  start: "pool_run env decompress s0 [] s0"
| more: "pool_run env decompress s0 as s \<Longrightarrow> pool_step env decompress s a s' \<Longrightarrow>
    pool_run env decompress s0 (as @ [a]) s'"

text \<open>The commits among the messages, and how many items are where.\<close>

definition is_commit :: "(string \<Rightarrow> string option) \<Rightarrow> message \<Rightarrow> bool" where
  "is_commit decompress m \<longleftrightarrow>
     (\<exists>t e. message_text decompress m = Some t \<and>
        unmarshal (dec_struct event_fields) empty_event t = Some e \<and>
        ev_kind e = ''commit'' \<and> ev_commit e \<noteq> None)"

fun commit_act :: "(string \<Rightarrow> string option) \<Rightarrow> act \<Rightarrow> bool" where
  "commit_act decompress (Receive m) = is_commit decompress m"
| "commit_act decompress _ = False"

fun finish_act :: "act \<Rightarrow> bool" where
  "finish_act (Finish _) = True"
| "finish_act _ = False"

definition busy_workers :: "('p, 'a, 'b) pool \<Rightarrow> nat" where
  "busy_workers s = length (filter (\<lambda>b. b \<noteq> None) (po_busy s))"

lemma receive_queue:
  "length (js_queue (receive decompress m j)) + js_events_dropped (receive decompress m j) =
     length (js_queue j) + js_events_dropped j + (if is_commit decompress m then 1 else 0)"
  "length (js_queue j) \<le> queue_capacity \<Longrightarrow>
     length (js_queue (receive decompress m j)) \<le> queue_capacity"
  by (auto simp: receive_def is_commit_def dispatch_def Let_def split: option.split)

lemma receive_consumer: "js_consumer (receive decompress m j) = js_consumer j"
  by (auto simp: receive_def dispatch_def Let_def split: option.split)

lemma filter_update_None:
  "i < length xs \<Longrightarrow> xs ! i = None \<Longrightarrow>
   length (filter (\<lambda>b. b \<noteq> None) (xs[i := Some x])) = Suc (length (filter (\<lambda>b. b \<noteq> None) xs))"
  by (induction xs arbitrary: i) (auto split: nat.splits simp: nth_Cons')

lemma filter_update_Some:
  "i < length xs \<Longrightarrow> xs ! i = Some x \<Longrightarrow>
   Suc (length (filter (\<lambda>b. b \<noteq> None) (xs[i := None]))) = length (filter (\<lambda>b. b \<noteq> None) xs)"
  by (induction xs arbitrary: i) (auto split: nat.splits simp: nth_Cons')

definition accounted :: "(string \<Rightarrow> string option) \<Rightarrow> act list \<Rightarrow> ('p, 'a, 'b) pool \<Rightarrow> bool" where
  "accounted decompress as s \<longleftrightarrow>
     length (filter finish_act as) + busy_workers s + length (js_queue (po_js s))
       + js_events_dropped (po_js s) = length (filter (commit_act decompress) as) \<and>
     length (js_queue (po_js s)) \<le> queue_capacity \<and> length (po_busy s) = num_workers"

lemma step_accounted:
  assumes "pool_step env decompress s a s'" and "accounted decompress as s"
  shows "accounted decompress (as @ [a]) s'"
  using assms
proof cases
  case (receive m)
  then show ?thesis
    using assms(2) receive_queue [where decompress = decompress and m = m and j = "po_js s"]
    by (cases "is_commit decompress m") (simp_all add: accounted_def busy_workers_def)
next
  case (take_item i item items)
  then show ?thesis
    using assms(2) filter_update_None [of i "po_busy s" item]
    by (simp add: accounted_def busy_workers_def)
next
  case (finish i actor cm)
  then show ?thesis
    using assms(2) filter_update_Some [of i "po_busy s" "(actor, cm)"]
    by (simp add: accounted_def busy_workers_def)
qed

text \<open>
  C16: In every interleaving of the reader and the workers the queue holds at most 1024 commits, and
  every commit received so far is accounted for: it has been handled, is with one of the eight
  workers, waits in the queue, or is counted as dropped.\<close>

theorem every_commit_accounted:
  assumes "pool_run env decompress (new_pool (new_jetstream c)) as s"
  shows "length (filter finish_act as) + busy_workers s + length (js_queue (po_js s))
      + js_events_dropped (po_js s) = length (filter (commit_act decompress) as) \<and>
    length (js_queue (po_js s)) \<le> 1024 \<and> busy_workers s \<le> 8"
proof -
  have "accounted decompress as s"
    using assms
  proof induction
    case start
    show ?case
      by (simp add: accounted_def new_pool_def new_jetstream_def busy_workers_def num_workers_def)
  next
    case (more as s a s')
    then show ?case using step_accounted by blast
  qed
  moreover have "busy_workers s \<le> length (po_busy s)" by (simp add: busy_workers_def)
  ultimately show ?thesis by (simp add: accounted_def queue_capacity_def num_workers_def)
qed

lemma pool_step_run:
  "pool_step env decompress s a s' \<Longrightarrow> pool_run env decompress s [a] s'"
  using pool_run.more [OF pool_run.start, of env decompress s a s'] by simp

theorem every_commit_accounted_witness:
  "\<exists>s. pool_run demo_consumer_env Some (new_pool (new_jetstream demo_consumer))
       [Receive (TextMessage ''{}'')] s \<and> length (js_queue (po_js s)) \<le> 1024"
proof -
  let ?s = "new_pool (new_jetstream demo_consumer)"
  have run: "pool_run demo_consumer_env Some ?s [Receive (TextMessage ''{}'')]
      (?s\<lparr>po_js := receive Some (TextMessage ''{}'') (po_js ?s)\<rparr>)"
    by (rule pool_step_run) (rule pool_step.receive)
  from every_commit_accounted [OF this] run show ?thesis by blast
qed

subsection \<open>Two workers and one account\<close>

definition block_commit :: "string \<Rightarrow> string \<Rightarrow> commit_event" where
  "block_commit rkey subject = \<lparr>cm_rev = [], cm_operation = ''create'',
     cm_collection = ''app.bsky.graph.block'', cm_rkey = rkey,
     cm_record = Some (JObj [(''subject'', JStr subject)])\<rparr>"

definition unblock_commit :: "string \<Rightarrow> commit_event" where
  "unblock_commit rkey = \<lparr>cm_rev = [], cm_operation = ''delete'',
     cm_collection = ''app.bsky.graph.block'', cm_rkey = rkey, cm_record = None\<rparr>"

lemma block_subject:
  "decode_record (dec_struct subject_fields) [] (cm_record (block_commit rkey b)) = Some b"
  by (simp add: decode_record_def decode_result_def dec_struct_def subject_fields_def block_commit_def
      dec_member_def find_field_def dec_string_def)

lemma handle_block:
  assumes "is_registered a (co_store c)" and "b \<noteq> []"
  shows "handle_commit env a (block_commit rkey b) c =
    c\<lparr>co_store := fst (add_block a b rkey (co_store c))\<rparr>"
proof -
  have "handle_commit env a (block_commit rkey b) c =
      handle_block_create a rkey (cm_record (block_commit rkey b)) c"
    by (simp add: handle_commit_def block_commit_def)
  also have "\<dots> = c\<lparr>co_store := fst (add_block a b rkey (co_store c))\<rparr>"
    using assms by (simp add: handle_block_create_def block_subject)
  finally show ?thesis .
qed

lemma handle_unblock:
  "rkey \<noteq> [] \<Longrightarrow> handle_commit env a (unblock_commit rkey) c =
     c\<lparr>co_store := fst (remove_block_by_rkey a rkey (co_store c))\<rparr>"
  by (simp add: handle_commit_def unblock_commit_def handle_block_delete_def)

lemma block_then_unblock:
  assumes "healthy s" and "rkey \<noteq> []" and "b \<noteq> []" and "\<not> is_blocked a b s" and "a \<noteq> b"
  shows "\<not> is_blocked a b (fst (remove_block_by_rkey a rkey (fst (add_block a b rkey s))))"
  using assms
  by (auto simp: add_block_def remove_block_by_rkey_def remove_block_def nested_get_def is_blocked_def
      in_blocks_def Let_def split: option.splits if_splits)

lemma unblock_then_block:
  assumes "healthy s" and "rkey \<noteq> []" and "nested_get (blocks_by_rkey s) a rkey = []"
  shows "is_blocked a b (fst (add_block a b rkey (fst (remove_block_by_rkey a rkey s))))"
  using assms by (simp add: remove_block_by_rkey_def add_block_def is_blocked_def in_blocks_def Let_def)

lemma demo_unblocked:
  "\<not> is_blocked ''d'' ''x'' (co_store demo_consumer)"
  "nested_get (blocks_by_rkey (co_store demo_consumer)) ''d'' ''3k'' = []"
  by (simp_all add: demo_consumer_def two_tokens_def fresh_store_def is_blocked_def in_blocks_def
      nested_get_def)

text \<open>Two items taken in order and finished in the opposite order.\<close>

lemma finish_swapped:
  assumes "js_queue j = [(a1, cm1), (a2, cm2)]"
  obtains s where "pool_run env decompress (new_pool j) [Take 0, Take 1, Finish 1, Finish 0] s"
    and "js_queue (po_js s) = []" and "busy_workers s = 0"
    and "js_consumer (po_js s) = handle_commit env a1 cm1 (handle_commit env a2 cm2 (js_consumer j))"
proof -
  have eight: "po_busy (new_pool j) = [None, None, None, None, None, None, None, None]"
    by (simp add: new_pool_def num_workers_def eval_nat_numeral)
  have js: "po_js (new_pool j) = j" by (simp add: new_pool_def)
  define s1 where "s1 = (new_pool j)\<lparr>po_js := j\<lparr>js_queue := [(a2, cm2)]\<rparr>,
    po_busy := (po_busy (new_pool j))[0 := Some (a1, cm1)]\<rparr>"
  define s2 where "s2 = s1\<lparr>po_js := (po_js s1)\<lparr>js_queue := []\<rparr>,
    po_busy := (po_busy s1)[1 := Some (a2, cm2)]\<rparr>"
  define s3 where "s3 = s2\<lparr>po_js := (po_js s2)\<lparr>js_consumer :=
      handle_commit env a2 cm2 (js_consumer (po_js s2))\<rparr>, po_busy := (po_busy s2)[1 := None]\<rparr>"
  define s4 where "s4 = s3\<lparr>po_js := (po_js s3)\<lparr>js_consumer :=
      handle_commit env a1 cm1 (js_consumer (po_js s3))\<rparr>, po_busy := (po_busy s3)[0 := None]\<rparr>"
  have "pool_step env decompress (new_pool j) (Take 0) s1"
    using pool_step.take_item [of 0 "new_pool j"] assms by (simp add: eight js s1_def)
  moreover have "pool_step env decompress s1 (Take 1) s2"
    using pool_step.take_item [of 1 s1] by (simp add: eight s1_def s2_def)
  moreover have "pool_step env decompress s2 (Finish 1) s3"
    using pool_step.finish [of 1 s2 a2 cm2] by (simp add: eight s1_def s2_def s3_def)
  moreover have "pool_step env decompress s3 (Finish 0) s4"
    using pool_step.finish [of 0 s3 a1 cm1] by (simp add: eight s1_def s2_def s3_def s4_def)
  ultimately have run: "pool_run env decompress (new_pool j) [Take 0, Take 1, Finish 1, Finish 0] s4"
    using pool_run.more [OF pool_run.more [OF pool_run.more [OF pool_step_run]],
        of env decompress "new_pool j" "Take 0" s1 "Take 1" s2 "Finish 1" s3 "Finish 0" s4] by simp
  show thesis
    by (rule that [OF run]) (simp_all add: s1_def s2_def s3_def s4_def eight busy_workers_def)
qed

text \<open>
  C38: The order of the stream is not kept: when a block and its removal are queued one behind the
  other, two workers can finish them in the opposite order. The removal then finds no record to
  remove, and the pair stays blocked although the block is gone, while handling the two commits
  in order leaves it unblocked.\<close>

theorem unblock_overtakes_block:
  assumes "healthy (co_store c)" and "is_registered a (co_store c)" and "rkey \<noteq> []" and "b \<noteq> []"
    and "a \<noteq> b" and "\<not> is_blocked a b (co_store c)"
    and "nested_get (blocks_by_rkey (co_store c)) a rkey = []"
    and "js_consumer j = c" and "js_queue j = [(a, block_commit rkey b), (a, unblock_commit rkey)]"
  shows "(\<exists>s. pool_run env decompress (new_pool j) [Take 0, Take 1, Finish 1, Finish 0] s \<and>
      js_queue (po_js s) = [] \<and> busy_workers s = 0 \<and> is_blocked a b (co_store (js_consumer (po_js s)))) \<and>
    \<not> is_blocked a b (co_store
      (handle_commit env a (unblock_commit rkey) (handle_commit env a (block_commit rkey b) c)))"
proof (intro conjI)
  let ?c1 = "c\<lparr>co_store := fst (remove_block_by_rkey a rkey (co_store c))\<rparr>"
  have "remove_block_by_rkey a rkey (co_store c) = (co_store c, Inr [])"
    using assms(7) by (simp add: remove_block_by_rkey_def)
  then have reg: "is_registered a (co_store ?c1)" using assms(2) by simp
  obtain s where s: "pool_run env decompress (new_pool j) [Take 0, Take 1, Finish 1, Finish 0] s"
    "js_queue (po_js s) = []" "busy_workers s = 0"
    "js_consumer (po_js s) =
       handle_commit env a (block_commit rkey b) (handle_commit env a (unblock_commit rkey) (js_consumer j))"
    by (rule finish_swapped [OF assms(9)])
  have "is_blocked a b (co_store (js_consumer (po_js s)))"
    unfolding s(4) assms(8) handle_unblock [OF assms(3)] handle_block [OF reg assms(4)]
    using unblock_then_block [OF assms(1,3,7), of b] by simp
  with s(1-3) show "\<exists>s. pool_run env decompress (new_pool j) [Take 0, Take 1, Finish 1, Finish 0] s \<and>
      js_queue (po_js s) = [] \<and> busy_workers s = 0 \<and> is_blocked a b (co_store (js_consumer (po_js s)))"
    by blast
  show "\<not> is_blocked a b (co_store
      (handle_commit env a (unblock_commit rkey) (handle_commit env a (block_commit rkey b) c)))"
    using block_then_unblock [OF assms(1,3,4,6,5)]
    by (simp add: handle_block [OF assms(2,4)] handle_unblock [OF assms(3)])
qed

theorem unblock_overtakes_block_witness:
  "\<exists>s. pool_run demo_consumer_env Some (new_pool ((new_jetstream demo_consumer)
        \<lparr>js_queue := [(''d'', block_commit ''3k'' ''x''), (''d'', unblock_commit ''3k'')]\<rparr>))
      [Take 0, Take 1, Finish 1, Finish 0] s \<and> is_blocked ''d'' ''x'' (co_store (js_consumer (po_js s)))"
  using unblock_overtakes_block [of demo_consumer "''d''" "''3k''" "''x''"
      "(new_jetstream demo_consumer)\<lparr>js_queue :=
         [(''d'', block_commit ''3k'' ''x''), (''d'', unblock_commit ''3k'')]\<rparr>" demo_consumer_env Some]
    demo_consumer_fields(2,3) demo_unblocked
  by (auto simp: new_jetstream_def)

subsection \<open>The start signal\<close>

text \<open>
  \<open>NotifyTokenRegistered\<close> looks whether \<open>startCh\<close> is closed and closes it otherwise, without a
  lock; each request handler calls it. Closing a closed channel panics.
\<close>

datatype notify_pc = Before_select | In_default | Returned | Panicked

record start_signal =
  ss_closed :: bool
  ss_callers :: "notify_pc list"

definition new_signal :: "store \<Rightarrow> nat \<Rightarrow> start_signal" where
  "new_signal s n = \<lparr>ss_closed = has_registered_dids s, ss_callers = replicate n Before_select\<rparr>"

inductive notify_token_registered :: "start_signal \<Rightarrow> nat \<Rightarrow> start_signal \<Rightarrow> bool" where
  already_started: "i < length (ss_callers s) \<Longrightarrow> ss_callers s ! i = Before_select \<Longrightarrow> ss_closed s \<Longrightarrow>
    notify_token_registered s i (s\<lparr>ss_callers := (ss_callers s)[i := Returned]\<rparr>)"
| not_started: "i < length (ss_callers s) \<Longrightarrow> ss_callers s ! i = Before_select \<Longrightarrow> \<not> ss_closed s \<Longrightarrow>
    notify_token_registered s i (s\<lparr>ss_callers := (ss_callers s)[i := In_default]\<rparr>)"
| close_open: "i < length (ss_callers s) \<Longrightarrow> ss_callers s ! i = In_default \<Longrightarrow> \<not> ss_closed s \<Longrightarrow>
    notify_token_registered s i (s\<lparr>ss_closed := True, ss_callers := (ss_callers s)[i := Returned]\<rparr>)"
| close_closed: "i < length (ss_callers s) \<Longrightarrow> ss_callers s ! i = In_default \<Longrightarrow> ss_closed s \<Longrightarrow>
    notify_token_registered s i (s\<lparr>ss_callers := (ss_callers s)[i := Panicked]\<rparr>)"

inductive notify_run :: "start_signal \<Rightarrow> nat list \<Rightarrow> start_signal \<Rightarrow> bool" for s0 where
  none_yet: "notify_run s0 [] s0"
| one_more: "notify_run s0 sched s \<Longrightarrow> notify_token_registered s i t \<Longrightarrow> notify_run s0 (sched @ [i]) t"

definition signal_ok :: "start_signal \<Rightarrow> bool" where
  "signal_ok s \<longleftrightarrow> (Returned \<in> set (ss_callers s) \<or> Panicked \<in> set (ss_callers s) \<longrightarrow> ss_closed s)"

lemma signal_step_ok: "notify_token_registered s i s' \<Longrightarrow> signal_ok s \<Longrightarrow> signal_ok s'"
  by (induction rule: notify_token_registered.induct)
    (auto simp: signal_ok_def dest!: set_update_subset_insert [THEN subsetD])

lemma notified_starts:
  assumes "notify_run (new_signal s n) sched s'" and "Returned \<in> set (ss_callers s')"
  shows "ss_closed s'"
proof -
  have "signal_ok s'"
    using assms(1)
  proof induction
    case none_yet
    show ?case by (auto simp: signal_ok_def new_signal_def)
  next
    case (one_more sched s i t)
    then show ?case by (blast intro: signal_step_ok)
  qed
  with assms(2) show ?thesis by (simp add: signal_ok_def)
qed

text \<open>Two first registrations at the same time: the second close panics.\<close>

lemma notify_race_panics:
  assumes "\<not> has_registered_dids s"
  shows "\<exists>s'. notify_run (new_signal s 2) [0, 1, 0, 1] s' \<and> ss_callers s' = [Returned, Panicked]"
proof -
  define sg where "sg b xs = \<lparr>ss_closed = b, ss_callers = xs\<rparr>" for b xs
  have "notify_token_registered (sg False [Before_select, Before_select]) 0 (sg False [In_default, Before_select])"
    using not_started [of 0 "sg False [Before_select, Before_select]"] by (simp add: sg_def)
  moreover have "notify_token_registered (sg False [In_default, Before_select]) 1 (sg False [In_default, In_default])"
    using not_started [of 1 "sg False [In_default, Before_select]"] by (simp add: sg_def)
  moreover have "notify_token_registered (sg False [In_default, In_default]) 0 (sg True [Returned, In_default])"
    using close_open [of 0 "sg False [In_default, In_default]"] by (simp add: sg_def)
  moreover have "notify_token_registered (sg True [Returned, In_default]) 1 (sg True [Returned, Panicked])"
    using close_closed [of 1 "sg True [Returned, In_default]"] by (simp add: sg_def)
  ultimately have "notify_run (sg False [Before_select, Before_select]) ((([] @ [0]) @ [1]) @ [0] @ [1])
      (sg True [Returned, Panicked])"
    by (metis append.assoc notify_run.none_yet notify_run.one_more)
  moreover have "new_signal s 2 = sg False [Before_select, Before_select]"
    using assms by (simp add: new_signal_def sg_def numeral_2_eq_2)
  ultimately show ?thesis by (auto simp: sg_def)
qed

end
