(* ===== verification/Gateway_Theorems.thy ===== *)
theory Gateway_Theorems
  imports Server Jetstream_Workers
begin

text \<open>
  The components together: what is registered over HTTP is what the stream consumer notifies.
  Both work on the one store.
\<close>

definition follow_commit :: "string \<Rightarrow> string \<Rightarrow> commit_event" where
  "follow_commit rkey subject = \<lparr>cm_rev = [], cm_operation = ''create'',
     cm_collection = ''app.bsky.graph.follow'', cm_rkey = rkey,
     cm_record = Some (JObj [(''subject'', JStr subject)])\<rparr>"

lemma handle_follow_commit:
  assumes "target \<noteq> []" and "target \<noteq> actor"
  shows "handle_commit env actor (follow_commit rkey target) c =
    send_notification env actor target ''follow'' (record_uri actor ''app.bsky.graph.follow'' rkey) [] [] c"
proof -
  have "decode_record (dec_struct subject_fields) [] (cm_record (follow_commit rkey target)) = Some target"
    by (simp add: decode_record_def decode_result_def dec_struct_def subject_fields_def follow_commit_def
        dec_member_def find_field_def dec_string_def)
  moreover have "handle_commit env actor (follow_commit rkey target) c =
      handle_follow env actor rkey (cm_record (follow_commit rkey target)) c"
    by (simp add: handle_commit_def follow_commit_def)
  ultimately show ?thesis using assms by (simp add: handle_follow_def)
qed

lemma deliver_pushes:
  assumes "ce_sender env = recording_sender answer"
  shows "co_push (fold (deliver_to env title body data) ts c) = co_push c @
    map (\<lambda>t. \<lparr>n_token = pt_token t, n_platform = pt_platform t, n_title = title, n_body = body,
               n_data = data\<rparr>) ts"
proof (induction ts arbitrary: c)
  case (Cons t ts)
  have "co_push (deliver_to env title body data t c) = co_push c @
      [\<lparr>n_token = pt_token t, n_platform = pt_platform t, n_title = title, n_body = body, n_data = data\<rparr>]"
    by (auto simp: deliver_to_def assms recording_sender_def Let_def split: option.split send_error.split)
  then show ?case using Cons.IH by simp
qed simp

lemma send_reaches:
  assumes "ce_sender env = recording_sender answer" and "healthy (co_store c)"
    and "is_registered target (co_store c)" and "\<not> is_blocked actor target (co_store c)"
  shows "\<exists>title body data. map_of data ''recipientDid'' = Some target \<and>
    map_of data ''actorDid'' = Some actor \<and>
    co_push (send_notification env actor target reason u subj old c) = co_push c @
      map (\<lambda>t. \<lparr>n_token = pt_token t, n_platform = pt_platform t, n_title = title, n_body = body,
                 n_data = data\<rparr>) (filter (\<lambda>t. pt_actor t = target) (push_tokens (co_store c)))"
proof -
  let ?ts = "filter (\<lambda>t. pt_actor t = target) (push_tokens (co_store c))"
  obtain s' where toks: "get_tokens_for_did target (co_store c) = (s', Inr ?ts)"
    using get_tokens_run [OF assms(2), of target] by blast
  define c1 where "c1 = c\<lparr>co_store := s', co_matched := Suc (co_matched c)\<rparr>"
  obtain c2 display handle where p: "ask_profile env actor c1 = (c2, display, handle)"
    by (metis prod_cases3)
  obtain c3 x where t: "ask_text env reason subj old c2 = (c3, x)" by fastforce
  obtain title body where f: "format_notification reason display handle x = (title, body)" by fastforce
  have "co_push c3 = co_push c"
    using ask_profile_frame [OF p] ask_text_frame [OF t] by (simp add: c1_def)
  then have "co_push (send_notification env actor target reason u subj old c) = co_push c @
      map (\<lambda>tk. \<lparr>n_token = pt_token tk, n_platform = pt_platform tk, n_title = title, n_body = body,
        n_data = notification_data actor target reason u subj display handle x\<rparr>) ?ts"
    using assms(3,4) toks p t f deliver_pushes [OF assms(1)] by (simp add: send_notification_def c1_def)
  then show ?thesis using data_keys by blast
qed

text \<open>
  C7: From the registration to the ring: when registerPush has answered 200 for an account, the next
  follow of that account that the stream delivers, by anyone not blocked with it, sends a notification
  to the registered token on its platform, addressed to the account and naming the follower.\<close>

theorem registered_device_notified:
  assumes "handle_register_push env now r st = (st1, res)" and "res_status res = 200"
    and "snd (verify_auth env lexicon_register_push now r (xs_world st)) = Inr target"
    and "decode_limited (dec_struct push_request_fields) empty_push_request r = Some req"
    and "ce_sender cenv = recording_sender answer" and "healthy (xs_store st1)"
    and "co_store c = xs_store st1" and "target \<noteq> []" and "target \<noteq> actor"
    and "\<not> is_blocked actor target (xs_store st1)"
  shows "\<exists>ns n. co_push (handle_commit cenv actor (follow_commit rkey target) c) = co_push c @ ns \<and>
    n \<in> set ns \<and> n_token n = pr_token req \<and> n_platform n = pr_platform req \<and>
    map_of (n_data n) ''recipientDid'' = Some target \<and> map_of (n_data n) ''actorDid'' = Some actor"
proof -
  have eff: "push_tokens (xs_store st1) = upsert_token (token_of_request target req) (push_tokens (xs_store st))"
    "registered_dids (xs_store st1) = insert target (registered_dids (xs_store st))"
    by (rule register_push_effects [OF assms(1-4)])+
  then have tok: "token_of_request target req \<in> set (filter (\<lambda>t. pt_actor t = target) (push_tokens (co_store c)))"
    and reg: "is_registered target (co_store c)"
    by (simp_all add: assms(7) upsert_token_def is_registered_def)
  have store: "healthy (co_store c)" "\<not> is_blocked actor target (co_store c)"
    using assms(6,10) by (simp_all add: assms(7))
  obtain title body data where data: "map_of data ''recipientDid'' = Some target"
      "map_of data ''actorDid'' = Some actor"
      "co_push (handle_commit cenv actor (follow_commit rkey target) c) = co_push c @
         map (\<lambda>t. \<lparr>n_token = pt_token t, n_platform = pt_platform t, n_title = title, n_body = body,
                 n_data = data\<rparr>) (filter (\<lambda>t. pt_actor t = target) (push_tokens (co_store c)))"
    unfolding handle_follow_commit [OF assms(8,9)]
    using send_reaches [OF assms(5) store(1) reg store(2), of "''follow''"
        "record_uri actor ''app.bsky.graph.follow'' rkey" "[]" "[]"] by blast
  show ?thesis
    by (intro exI conjI, rule data(3), rule imageI [OF tok, of "\<lambda>t. \<lparr>n_token = pt_token t,
          n_platform = pt_platform t, n_title = title, n_body = body, n_data = data\<rparr>", folded set_map])
      (simp_all add: data(1,2))
qed

lemma demo_registered_unblocked: "\<not> is_blocked ''e'' ''did:plc:x'' (xs_store demo_registered_state)"
proof -
  have "blocks (xs_store demo_registered_state) = blocks fresh_store"
    by (simp add: demo_registered_state_def handle_register_push_def demo_call_auth demo_call_decoded
        demo_push_request_def demo_env_fields demo_xrpc_state_def register_token_def Let_def
        fresh_store_inv(2) fresh_store_tokens other_tokens_def max_tokens_per_did_def token_platforms_def
        maybe_start_blocks_backfill_def mark_blocks_backfilled_def)
  then show ?thesis by (simp add: is_blocked_def in_blocks_def fresh_store_def)
qed

theorem registered_device_notified_witness:
  "\<exists>ns n. co_push (handle_commit demo_consumer_env ''e'' (follow_commit ''3k'' ''did:plc:x'')
     (demo_consumer\<lparr>co_store := xs_store demo_registered_state\<rparr>)) = co_push demo_consumer @ ns \<and>
     n \<in> set ns \<and> n_token n = ''t'' \<and> n_platform n = ''ios''"
proof -
  let ?c = "demo_consumer\<lparr>co_store := xs_store demo_registered_state\<rparr>"
  have auth: "snd (verify_auth demo_xrpc_env lexicon_register_push 50 (demo_call lexicon_register_push)
      (xs_world demo_xrpc_state)) = Inr ''did:plc:x''" by (simp add: demo_call_auth)
  have "co_store ?c = xs_store demo_registered_state" "co_push ?c = co_push demo_consumer"
    "pr_token demo_push_request = ''t''" "pr_platform demo_push_request = ''ios''"
    by (simp_all add: demo_push_request_def)
  moreover have "\<exists>ns n. co_push (handle_commit demo_consumer_env ''e'' (follow_commit ''3k'' ''did:plc:x'') ?c) =
      co_push ?c @ ns \<and> n \<in> set ns \<and> n_token n = pr_token demo_push_request \<and>
      n_platform n = pr_platform demo_push_request \<and>
      map_of (n_data n) ''recipientDid'' = Some ''did:plc:x'' \<and> map_of (n_data n) ''actorDid'' = Some ''e''"
    by (rule registered_device_notified [OF demo_register(1) answer_status(3) auth demo_call_decoded
          demo_consumer_fields(1) demo_register(2) calculation(1) _ _ demo_registered_unblocked]) simp_all
  ultimately show ?thesis by metis
qed

end
