(* ===== verification/Store_Users.thy ===== *)
theory Store_Users
  imports Jetstream_Theorems Xrpc_Theorems Shared_Store
begin

text \<open>
  Who changes the store, and how. The handlers of the stream and of the HTTP interface reach the
  store through its operations only, so that whatever the operations keep, the handlers keep. The
  two locales state that once for every such predicate; the consumer never registers a token, so
  its locale asks for less.
\<close>

subsection \<open>The stream's operations\<close>

locale consumer_ops =
  fixes I :: "store \<Rightarrow> bool"
  assumes calls: "I s \<Longrightarrow> I (s\<lparr>db_calls := n\<rparr>)"
    and unregister: "I s \<Longrightarrow> I (fst (unregister_token a p t app s))"
    and add_block: "I s \<Longrightarrow> I (fst (add_block a b r s))"
    and remove_block: "I s \<Longrightarrow> I (fst (remove_block_by_rkey a r s))"
    and add_verification: "I s \<Longrightarrow> I (fst (add_verification v j r s))"
    and remove_verification: "I s \<Longrightarrow> I (fst (remove_verification_by_rkey v r s))"
begin

lemma get_tokens: "I s \<Longrightarrow> I (fst (get_tokens_for_did d s))"
proof -
  assume "I s"
  obtain bad s1 where call: "db_call s = (bad, s1)" by fastforce
  then have s1: "I s1" using calls [OF \<open>I s\<close>] by (auto simp: db_call_def)
  obtain xs s2 where rows: "fetch_rows (filter (\<lambda>r. pt_actor r = d) (push_tokens s1)) s1 = (xs, s2)"
    by fastforce
  then have "I s2" using calls [OF s1] fetch_rows_calls [of _ s1] by (metis snd_conv)
  with s1 call rows show ?thesis by (simp add: get_tokens_for_did_def Let_def)
qed

lemma deliver_to: "I (co_store c) \<Longrightarrow> I (co_store (deliver_to env title body data t c))"
  by (auto simp: deliver_to_def Let_def unregister split: prod.split option.split send_error.split)

lemma deliver_tokens: "I (co_store c) \<Longrightarrow> I (co_store (fold (deliver_to env title body data) ts c))"
  by (induction ts arbitrary: c) (simp_all add: deliver_to)

lemma send_notification:
  assumes "I (co_store c)"
  shows "I (co_store (send_notification env actor target reason u subj old c))"
proof (cases "is_registered target (co_store c) \<and> \<not> is_blocked actor target (co_store c)")
  case gate: True
  obtain s' res where toks: "get_tokens_for_did target (co_store c) = (s', res)" by fastforce
  have s': "I s'" using get_tokens [OF assms, of target] by (simp add: toks)
  show ?thesis
  proof (cases res)
    case (Inl e)
    with gate toks s' show ?thesis by (simp add: send_notification_def)
  next
    case (Inr tokens)
    define c1 where "c1 = c\<lparr>co_store := s', co_matched := Suc (co_matched c)\<rparr>"
    obtain c2 display handle where p: "ask_profile env actor c1 = (c2, display, handle)"
      by (metis prod_cases3)
    obtain c3 x where t: "ask_text env reason subj old c2 = (c3, x)" by fastforce
    obtain title body where f: "format_notification reason display handle x = (title, body)" by fastforce
    have "co_store c3 = s'"
      using ask_profile_frame [OF p] ask_text_frame [OF t] by (simp add: c1_def)
    then show ?thesis
      using gate toks Inr p t f s' deliver_tokens [of c3] by (simp add: send_notification_def c1_def)
  qed
qed (use assms in \<open>auto simp: send_notification_def\<close>)

lemma record_handlers:
  assumes "I (co_store c)"
  shows "I (co_store (handle_like env actor rkey j c))" "I (co_store (handle_repost env actor rkey j c))"
    "I (co_store (handle_follow env actor rkey j c))" "I (co_store (handle_block_create actor rkey j c))"
    "I (co_store (handle_block_delete actor rkey c))"
  using assms
  by (simp_all add: handle_like_def handle_repost_def handle_follow_def handle_block_create_def
      handle_block_delete_def Let_def send_notification add_block remove_block split: option.split)

lemma mentions:
  "I (co_store c) \<Longrightarrow> I (co_store (fold (\<lambda>f. if mention_of actor f
     then send_notification env actor (ff_did f) reason u [] x else (\<lambda>c. c)) fs c))"
  by (induction fs arbitrary: c) (simp_all add: send_notification)

lemma handle_post:
  assumes "I (co_store c)"
  shows "I (co_store (handle_post env actor rkey j c))"
proof (cases "decode_record (dec_struct post_fields) empty_post j")
  case (Some post)
  show ?thesis
    unfolding handle_post_def Some Let_def option.case
    by (rule mentions; cases "po_reply post"; cases "po_embed post")
      (simp_all add: send_notification assms split: option.split)
qed (simp add: handle_post_def assms)

lemma verification_handlers:
  assumes "I (co_store c)"
  shows "I (co_store (handle_verification_create env actor rkey j c))"
    "I (co_store (handle_verification_delete env actor rkey c))"
proof -
  show "I (co_store (handle_verification_create env actor rkey j c))"
    using assms
    by (simp add: handle_verification_create_def Let_def send_notification add_verification split: option.split)
  have "I s'" if "remove_verification_by_rkey actor rkey (co_store c) = (s', res)" for s' res
    using remove_verification [OF assms, of actor rkey] that by simp
  then show "I (co_store (handle_verification_delete env actor rkey c))"
    using assms
    by (simp add: handle_verification_delete_def Let_def send_notification split: prod.split sum.split)
qed

lemma handle_commit: "I (co_store c) \<Longrightarrow> I (co_store (handle_commit env actor cm c))"
  by (simp add: handle_commit_def Let_def record_handlers handle_post verification_handlers)

lemma seed_records:
  "I s \<Longrightarrow> I (fst (seed_records actor rs (s, seeded, l)))"
proof (induction rs arbitrary: s seeded l)
  case (Cons r rs)
  obtain s' res where "add_block actor (br_subject r) (uri_rkey (br_uri r)) s = (s', res)" by fastforce
  with Cons add_block [OF Cons.prems, of actor "br_subject r" "uri_rkey (br_uri r)"] show ?case
    by (simp add: Let_def split: option.split)
qed simp

end

subsection \<open>The operations of the HTTP interface\<close>

locale gateway_ops = consumer_ops +
  assumes register: "I s \<Longrightarrow> I (fst (register_token a p t app s))"
    and mark: "I s \<Longrightarrow> I (fst (mark_blocks_backfilled a s))"
begin

lemma claim: "I s \<Longrightarrow> maybe_start_blocks_backfill a s = (b, s', l) \<Longrightarrow> I s'"
  using mark [of s a] by (auto simp: maybe_start_blocks_backfill_def split: prod.splits sum.splits)

lemma if_keeps: "I (xs_store (fst x)) \<Longrightarrow> I (xs_store (fst y)) \<Longrightarrow> I (xs_store (fst (if b then x else y)))"
  by simp

lemma register_push:
  assumes "I (xs_store st)"
  shows "I (xs_store (fst (handle_register_push env now r st)))"
proof -
  obtain w auth where auth: "verify_auth env lexicon_register_push now r (xs_world st) = (w, auth)"
    by fastforce
  have reg: "I s" if "register_token a p t app (xs_store st) = (s, res)" for a p t app s res
    using register [OF assms, of a p t app] that by simp
  have eff: "I (xs_store (fst (case register_token a p t app (xs_store st) of
      (s, Some err) \<Rightarrow> (st1\<lparr>xs_store := s\<rparr>, res1)
    | (s, None) \<Rightarrow> let (start, s', _) = maybe_start_blocks_backfill b s in
        (st1\<lparr>xs_store := s', xs_backfills := f start, xs_notified := n\<rparr>, res2))))" for a p t app b st1 res1 res2 f n
    using reg claim by (fastforce split: prod.split option.split)
  show ?thesis
  proof (cases auth)
    case (Inl e)
    then show ?thesis by (simp add: handle_register_push_def auth assms)
  next
    case (Inr actor)
    show ?thesis
    proof (cases "decode_limited (dec_struct push_request_fields) empty_push_request r")
      case None
      then show ?thesis by (simp add: handle_register_push_def auth Inr assms)
    next
      case (Some req)
      have st: "xs_store (st\<lparr>xs_world := w\<rparr>) = xs_store st" by simp
      show ?thesis
        unfolding handle_register_push_def auth Inr Some prod.case sum.case option.case Let_def st
        by (intro if_keeps eff [unfolded Let_def]) (simp_all add: assms)
    qed
  qed
qed

lemma unregister_push:
  assumes "I (xs_store st)"
  shows "I (xs_store (fst (handle_unregister_push env now r st)))"
proof -
  obtain w auth where auth: "verify_auth env lexicon_unregister_push now r (xs_world st) = (w, auth)"
    by fastforce
  have "I s" if "unregister_token a p t app (xs_store st) = (s, res)" for a p t app s res
    using unregister [OF assms, of a p t app] that by simp
  then have eff: "I (xs_store (fst (case unregister_token a p t app (xs_store st) of
      (s, Some err) \<Rightarrow> (st1\<lparr>xs_store := s\<rparr>, res1)
    | (s, None) \<Rightarrow> (st1\<lparr>xs_store := s\<rparr>, res2))))" for a p t app st1 res1 res2
    by (fastforce split: prod.split option.split)
  show ?thesis
  proof (cases auth)
    case (Inl e)
    then show ?thesis by (simp add: handle_unregister_push_def auth assms)
  next
    case (Inr actor)
    show ?thesis
    proof (cases "decode_limited (dec_struct push_request_fields) empty_push_request r")
      case None
      then show ?thesis by (simp add: handle_unregister_push_def auth Inr assms)
    next
      case (Some req)
      have st: "xs_store (st\<lparr>xs_world := w\<rparr>) = xs_store st" by simp
      show ?thesis
        unfolding handle_unregister_push_def auth Inr Some prod.case sum.case option.case Let_def st
        by (intro if_keeps eff) (simp_all add: assms)
    qed
  qed
qed

lemma test_handlers:
  assumes "I (xs_store st)"
  shows "I (xs_store (fst (handle_test_register env r st)))" "I (xs_store (fst (handle_test_push r st)))"
    "I (xs_store (fst (handle_health env r st)))"
proof -
  have "I s" if "register_token a p t app (xs_store st) = (s, res)" for a p t app s res
    using register [OF assms, of a p t app] that by simp
  then show "I (xs_store (fst (handle_test_register env r st)))"
    using assms by (auto simp: handle_test_register_def Let_def split: prod.split option.split)
  have "I s" if "get_tokens_for_did a (xs_store st) = (s, res)" for a s res
    using get_tokens [OF assms, of a] that by simp
  then show "I (xs_store (fst (handle_test_push r st)))"
    using assms by (auto simp: handle_test_push_def Let_def split: prod.split sum.split option.split)
  show "I (xs_store (fst (handle_health env r st)))"
    using assms by (auto simp: handle_health_def get_stats_def count_webpush_endpoints_def db_call_def Let_def
        intro!: calls)
qed

lemma xrpc_serve: "I (xs_store st) \<Longrightarrow> I (xs_store (fst (xrpc_serve env service_did now r st)))"
  by (simp add: xrpc_serve_def register_push unregister_push test_handlers split: xrpc_route.split)

end

end
