(* ===== verification/Gateway_System.thy ===== *)
theory Gateway_System
  imports Gateway_Theorems Store_Users
begin

text \<open>
  The running gateway: what \<open>main\<close> (\<open>cmd/server/main.go\<close>) builds from a booted configuration, and
  the steps the program then takes: HTTP requests, messages of the stream, the workers, and the
  goroutines that backfill blocks, in any order. A handler runs as a whole here, before the next step
  is taken, and \<open>prog_step\<close> is this order of turns, not a piece of the source; the interleavings
  inside a handler are in \<open>Store_Interleaving\<close> and \<open>Jetstream_Workers\<close>.
\<close>

subsection \<open>Statistics and limits of the consumer\<close>

definition get_consumer_stats :: "('p, 'a, 'b) jetstream \<Rightarrow> json" where
  "get_consumer_stats j =
     JObj [(''eventsReceived'', JNum (dec_text (js_events_received j))),
           (''bytesReceived'', JNum (dec_text (js_bytes_received j))),
           (''pushesSent'', JNum (dec_text (co_pushes_sent (js_consumer j)))),
           (''pushErrors'', JNum (dec_text (co_push_errors (js_consumer j)))),
           (''matchedEvents'', JNum (dec_text (co_matched (js_consumer j)))),
           (''eventsDropped'', JNum (dec_text (js_events_dropped j))),
           (''lastCursor'', JNum (int_text (js_last_cursor j)))]"

text \<open>The statistics are JSON, which is what the health report needs of its provider.\<close>

lemma consumer_stats_fit: "0 \<le> js_last_cursor j \<Longrightarrow> json_fits (max_nesting - 1) (get_consumer_stats j)"
  by (simp add: get_consumer_stats_def max_nesting_def num_ok_dec_text int_text_def plain_json_utf8
      plain_json_def)

definition set_max_decompressed_bytes :: "int \<Rightarrow> nat \<Rightarrow> nat" where
  "set_max_decompressed_bytes n cap = (if 0 < n then nat n else cap)"

definition default_max_decompressed_bytes :: nat where
  "default_max_decompressed_bytes = 8388608"

subsection \<open>Asking a resolver\<close>

text \<open>
  What the consumer and the token check see of a resolver: the order in which its map is visited
  and the two readings of the clock are drawn from the world. The last case, a panic of the
  eviction, cannot happen.
\<close>

type_synonym 'w draw = "'w \<Rightarrow> range_order \<times> int \<times> int"

definition ask ::
  "(range_order \<Rightarrow> int \<Rightarrow> int \<Rightarrow> string \<Rightarrow> 'v cache \<times> 'w \<Rightarrow> (('v cache \<times> 'w) \<times> 'r) option)
     \<Rightarrow> 'w draw \<Rightarrow> 'r \<Rightarrow> string \<Rightarrow> 'v cache \<times> 'w \<Rightarrow> ('v cache \<times> 'w) \<times> 'r" where
  "ask resolve draw none k s =
     (case draw (snd s) of (order, t1, t2) \<Rightarrow>
        (case resolve order t1 t2 k s of Some res \<Rightarrow> res | None \<Rightarrow> (s, none)))"

context caching_resolver
begin

lemma ask_answers:
  assumes "\<forall>w. permutes (fst (draw w))" and "cache_ok cap c"
  shows "\<exists>order t1 t2 s'. resolve order t1 t2 k (c, w) = Some (s', snd (ask resolve draw none k (c, w))) \<and>
    s' = fst (ask resolve draw none k (c, w)) \<and> cache_ok cap (fst s')"
proof -
  obtain order t1 t2 where d: "draw w = (order, t1, t2)" by (metis prod_cases3)
  then have "permutes order" using assms(1) by (metis fst_conv)
  from runs [OF this assms(2), of t1 t2 k w] show ?thesis by (fastforce simp: ask_def d)
qed

end

subsection \<open>Wiring\<close>

definition wire_consumer ::
  "config \<Rightarrow> 'p sender \<Rightarrow> 'w http_get \<Rightarrow> 'w draw
     \<Rightarrow> ('p, profile cache \<times> 'w, post_entry cache \<times> 'w) consumer_env" where
  "wire_consumer cf sender get draw =
     (let profiles = set_api_base_url (cf_appview cf) (new_profile_resolver get (cf_profile_cache cf));
          env = set_post_text_max_graphemes (cf_max_graphemes cf)
            (new_consumer_env sender (Some (ask (resolve_profile profiles) draw ([], [])))) in
      if cf_text_fetch cf then
        (let texts = set_api_base_url (cf_appview cf) (new_post_text_resolver get (cf_text_cache cf)) in
         set_post_text_resolver (Some (ask (resolve_text texts) draw [])) env)
      else env)"

text \<open>\<open>NewHandler\<close> and \<open>SetDIDResolver\<close>; the elliptic curve code comes from packages.\<close>

definition new_xrpc_env ::
  "bool \<Rightarrow> string \<Rightarrow> 'w http_get \<Rightarrow> 'w draw \<Rightarrow> (string \<Rightarrow> string + nat \<times> nat) \<Rightarrow> (string \<Rightarrow> string)
     \<Rightarrow> (ec_key \<Rightarrow> string \<Rightarrow> nat \<Rightarrow> nat \<Rightarrow> bool) \<Rightarrow> (ec_key \<Rightarrow> string \<Rightarrow> string \<Rightarrow> bool)
     \<Rightarrow> (did_document cache \<times> 'w) xrpc_env" where
  "new_xrpc_env dev service_did get draw secp sha ver ver_asn1 =
     \<lparr>xe_dev = dev, xe_service_did = service_did,
      xe_resolver = Some (ask (resolve_did (new_did_resolver get (int default_max_cache_size))) draw
        (Inl (UnsupportedMethod []))),
      xe_secp = secp, xe_sha256 = sha, xe_verify = ver, xe_verify_asn1 = ver_asn1,
      xe_stats = None, xe_notify = True\<rparr>"

definition set_did_resolver ::
  "(string \<Rightarrow> 'd \<Rightarrow> 'd \<times> (did_error + did_document)) \<Rightarrow> 'd xrpc_env \<Rightarrow> 'd xrpc_env" where
  "set_did_resolver f env = env\<lparr>xe_resolver := Some f\<rparr>"

definition wire_xrpc ::
  "config \<Rightarrow> 'w http_get \<Rightarrow> 'w draw \<Rightarrow> (string \<Rightarrow> string + nat \<times> nat) \<Rightarrow> (string \<Rightarrow> string)
     \<Rightarrow> (ec_key \<Rightarrow> string \<Rightarrow> nat \<Rightarrow> nat \<Rightarrow> bool) \<Rightarrow> (ec_key \<Rightarrow> string \<Rightarrow> string \<Rightarrow> bool)
     \<Rightarrow> (did_document cache \<times> 'w) xrpc_env" where
  "wire_xrpc cf get draw secp sha ver ver_asn1 =
     set_did_resolver
       (ask (resolve_did (new_did_resolver get (cf_did_cache cf))) draw (Inl (UnsupportedMethod [])))
       (new_xrpc_env (cf_dev cf) (cf_service_did cf) get draw secp sha ver ver_asn1)"

text \<open>
  The running state: the one store and the push services are those of the consumer. The three
  resolvers have clients of their own, so each sees its own strand of the world.
\<close>

record ('p, 'a, 'b, 'd) system =
  sy_pool :: "('p, 'a, 'b) pool"
  sy_server :: "('d, 'p) server_state"
  sy_rejections :: "rejection list"
  sy_started :: bool
  sy_max_decompressed :: nat

definition sys_store :: "('p, 'a, 'b, 'd) system \<Rightarrow> store" where
  "sys_store sy = co_store (js_consumer (po_js (sy_pool sy)))"

definition start_system ::
  "gateway \<Rightarrow> 'p \<Rightarrow> 'w \<Rightarrow> ('p, profile cache \<times> 'w, post_entry cache \<times> 'w, did_document cache \<times> 'w) system"
  where
  "start_system g push w =
     (let s = gw_store g;
          c = \<lparr>co_store = s, co_push = push, co_profiles = ([], w), co_texts = ([], w),
               co_pushes_sent = 0, co_push_errors = 0, co_matched = 0\<rparr> in
      \<lparr>sy_pool = new_pool (new_jetstream c),
       sy_server = \<lparr>sv_xrpc = \<lparr>xs_store = s, xs_world = ([], w), xs_notified = 0, xs_backfills = []\<rparr>,
                    sv_relay = new_relay_state s push\<rparr>,
       sy_rejections = [],
       sy_started = has_registered_dids s,
       sy_max_decompressed = set_max_decompressed_bytes (cf_max_decompressed (gw_config g))
         default_max_decompressed_bytes\<rparr>)"

text \<open>
  One request: the handlers run on the consumer's store and push services; a call of
  \<open>onTokenRegistered\<close> closes the start channel.
\<close>

definition serve_request ::
  "'d xrpc_env \<Rightarrow> (store, 'p) relay_env \<Rightarrow> config \<Rightarrow> int \<Rightarrow> int \<Rightarrow> request
     \<Rightarrow> ('p, 'a, 'b, 'd) system \<Rightarrow> ('p, 'a, 'b, 'd) system \<times> response" where
  "serve_request xe re cf now_s now_ns r sy =
     (let js = po_js (sy_pool sy); c = js_consumer js; sv = sy_server sy;
          sv0 = sv\<lparr>sv_xrpc := (sv_xrpc sv)\<lparr>xs_store := co_store c\<rparr>,
                   sv_relay := (sv_relay sv)\<lparr>rel_world := co_push c\<rparr>\<rparr>;
          ((sv1, rejected), res) = root_handler (xe\<lparr>xe_stats := Some (get_consumer_stats js)\<rparr>) re cf
            now_s now_ns r (sv0, sy_rejections sy);
          c1 = c\<lparr>co_store := xs_store (sv_xrpc sv1), co_push := rel_world (sv_relay sv1)\<rparr> in
      (sy\<lparr>sy_pool := (sy_pool sy)\<lparr>po_js := js\<lparr>js_consumer := c1\<rparr>\<rparr>, sy_server := sv1,
          sy_rejections := rejected,
          sy_started := (sy_started sy \<or> xs_notified (sv_xrpc sv0) < xs_notified (sv_xrpc sv1))\<rparr>, res))"

definition backfill_record :: "string \<Rightarrow> block_record \<Rightarrow> ('p, 'a, 'b, 'd) system \<Rightarrow> ('p, 'a, 'b, 'd) system" where
  "backfill_record actor rec sy =
     (let js = po_js (sy_pool sy); c = js_consumer js;
          (s, _, _) = seed_records actor [rec] (co_store c, 0, []) in
      sy\<lparr>sy_pool := (sy_pool sy)\<lparr>po_js := js\<lparr>js_consumer := c\<lparr>co_store := s\<rparr>\<rparr>\<rparr>\<rparr>)"

inductive prog_step ::
  "('p, 'a, 'b) consumer_env \<Rightarrow> (string \<Rightarrow> string option) \<Rightarrow> 'd xrpc_env \<Rightarrow> (store, 'p) relay_env \<Rightarrow> config
     \<Rightarrow> ('p, 'a, 'b, 'd) system \<Rightarrow> ('p, 'a, 'b, 'd) system \<Rightarrow> bool"
  for env decompress xe re cf where
  request: "prog_step env decompress xe re cf sy (fst (serve_request xe re cf now_s now_ns r sy))"
| stream: "sy_started sy \<Longrightarrow> pool_step env decompress (sy_pool sy) a p \<Longrightarrow>
    prog_step env decompress xe re cf sy (sy\<lparr>sy_pool := p\<rparr>)"
| backfill: "actor \<in> set (xs_backfills (sv_xrpc (sy_server sy))) \<Longrightarrow>
    prog_step env decompress xe re cf sy (backfill_record actor rec sy)"

inductive prog_run ::
  "('p, 'a, 'b) consumer_env \<Rightarrow> (string \<Rightarrow> string option) \<Rightarrow> 'd xrpc_env \<Rightarrow> (store, 'p) relay_env \<Rightarrow> config
     \<Rightarrow> ('p, 'a, 'b, 'd) system \<Rightarrow> ('p, 'a, 'b, 'd) system \<Rightarrow> bool"
  for env decompress xe re cf s0 where
  start: "prog_run env decompress xe re cf s0 s0"
| more: "prog_run env decompress xe re cf s0 s \<Longrightarrow> prog_step env decompress xe re cf s s' \<Longrightarrow>
    prog_run env decompress xe re cf s0 s'"

subsection \<open>What the store keeps\<close>

text \<open>
  The invariant of the store on a driver that does not fail; the second predicate adds a bound on
  the registered accounts.
\<close>

definition good_store :: "store \<Rightarrow> bool" where
  "good_store s \<longleftrightarrow> healthy s \<and> store_inv s \<and> endpoints_wf s"

lemma store_inv_calls: "store_inv s \<Longrightarrow> store_inv (s\<lparr>db_calls := n\<rparr>)"
  by (simp add: store_inv_def)

lemma endpoints_wf_cong: "endpoint_rows s = endpoint_rows t \<Longrightarrow> endpoints_wf s = endpoints_wf t"
  by (simp add: endpoints_wf_def)

lemma remove_by_rkey_frame:
  "endpoint_rows (fst (remove_block_by_rkey a r s)) = endpoint_rows s"
  "registered_dids (fst (remove_block_by_rkey a r s)) = registered_dids s"
  by (auto simp: remove_block_by_rkey_def remove_block_def db_call_def Let_def split: option.split)

lemma unregister_frame:
  "endpoint_rows (fst (unregister_token a p t i s)) = endpoint_rows s"
  "registered_dids (fst (unregister_token a p t i s)) \<subseteq> registered_dids s"
  using unregister_shrinks [of s a p t i]
  by (auto simp: unregister_token_def db_call_def Let_def shrinks_def)

lemma store_step_frame:
  "endpoint_rows (store_step op s) = endpoint_rows s"
  "(\<nexists>a p t i. op = RegisterToken a p t i) \<Longrightarrow> registered_dids (store_step op s) \<subseteq> registered_dids s"
  subgoal by (cases op; simp add: unregister_frame remove_by_rkey_frame; auto simp: register_token_def add_block_def
      remove_block_def mark_blocks_backfilled_def add_verification_def remove_verification_by_rkey_def
      db_call_def Let_def split: option.split)
  subgoal by (cases op; simp add: unregister_frame remove_by_rkey_frame; auto simp: add_block_def
      remove_block_def mark_blocks_backfilled_def add_verification_def remove_verification_by_rkey_def
      db_call_def Let_def split: option.splits)
  done

lemma good_store_step: "good_store s \<Longrightarrow> good_store (store_step op s)"
  using store_step_frame(1) [of op s] endpoints_wf_cong [of "store_step op s" s]
  by (simp add: good_store_def store_step_inv)

definition good_within :: "string set \<Rightarrow> store \<Rightarrow> bool" where
  "good_within D s \<longleftrightarrow> good_store s \<and> registered_dids s \<subseteq> D"

lemma good_store_calls: "good_store s \<Longrightarrow> good_store (s\<lparr>db_calls := n\<rparr>)"
  by (simp add: good_store_def store_inv_calls)

interpretation good: gateway_ops good_store
  using good_store_step [of _ "RegisterToken _ _ _ _"] good_store_step [of _ "UnregisterToken _ _ _ _"]
    good_store_step [of _ "AddBlock _ _ _"] good_store_step [of _ "RemoveBlockByRKey _ _"]
    good_store_step [of _ "MarkBlocksBackfilled _"] good_store_step [of _ "AddVerification _ _ _"]
    good_store_step [of _ "RemoveVerificationByRKey _ _"]
  by unfold_locales (simp_all add: good_store_calls)

lemma good_within_step:
  "good_within D s \<Longrightarrow> \<nexists>a p t i. op = RegisterToken a p t i \<Longrightarrow> good_within D (store_step op s)"
  using store_step_frame(2) [of op s] good_store_step [of s op] unfolding good_within_def by blast

interpretation within: consumer_ops "good_within D" for D
  using good_within_step [of D _ "UnregisterToken _ _ _ _"] good_within_step [of D _ "AddBlock _ _ _"]
    good_within_step [of D _ "RemoveBlockByRKey _ _"] good_within_step [of D _ "AddVerification _ _ _"]
    good_within_step [of D _ "RemoveVerificationByRKey _ _"]
  by unfold_locales (simp_all add: good_store_calls good_within_def)

subsection \<open>A request\<close>

lemma store_inv_cong:
  assumes "other_tables s = other_tables t"
  shows "store_inv s = store_inv t" "registered_dids s = registered_dids t"
proof -
  have t: "push_tokens s = push_tokens t" "block_rows s = block_rows t" "verif_rows s = verif_rows t"
    "backfilled_rows s = backfilled_rows t" and m: "db.more s = db.more t"
    using assms by (simp_all add: other_tables_def)
  have m: "registered_dids s = registered_dids t" "blocks s = blocks t" "verifs_by_rkey s = verifs_by_rkey t"
    using m by (cases s; cases t; simp)+
  then show "registered_dids s = registered_dids t" by simp
  show "store_inv s = store_inv t"
    using t m tables_wf_cong [OF t]
    by (simp add: store_inv_def mem_coherent_def in_blocks_def block_pairs_cong [OF t(2)] verif_table_cong [OF t(3)])
qed

text \<open>No account becomes registered without the consumer being told.\<close>

definition told :: "'d xrpc_state \<Rightarrow> 'd xrpc_state \<Rightarrow> bool" where
  "told st st' \<longleftrightarrow> registered_dids (xs_store st') \<subseteq> registered_dids (xs_store st) \<or>
     xs_notified st < xs_notified st'"

lemma told_refl [simp]:
  "told st st" "told st (st\<lparr>xs_world := w\<rparr>)"
  by (simp_all add: told_def)

lemma told_if: "told st (fst x) \<Longrightarrow> told st (fst y) \<Longrightarrow> told st (fst (if b then x else y))"
  by simp

lemma register_registered:
  "register_token a p t i s = (s', Some e) \<Longrightarrow> registered_dids s' = registered_dids s"
  using register_token_effect [of a p t i s] by auto

lemma claim_registered: "maybe_start_blocks_backfill a s = (b, s', l) \<Longrightarrow> registered_dids s' = registered_dids s"
  using mark_blocks_backfilled_effect [of a s]
  by (auto simp: maybe_start_blocks_backfill_def split: prod.splits sum.splits)

lemma register_push_told:
  assumes "xe_notify env"
  shows "told st (fst (handle_register_push env now r st))"
proof -
  obtain w auth where auth: "verify_auth env lexicon_register_push now r (xs_world st) = (w, auth)"
    by fastforce
  have st: "xs_store (st\<lparr>xs_world := w\<rparr>) = xs_store st" "xs_notified (st\<lparr>xs_world := w\<rparr>) = xs_notified st"
    by simp_all
  have eff: "told st (fst (case register_token a p t app (xs_store st) of
      (s, Some err) \<Rightarrow> (st\<lparr>xs_world := w, xs_store := s\<rparr>, res1)
    | (s, None) \<Rightarrow> let (start, s', _) = maybe_start_blocks_backfill b s in
        (st\<lparr>xs_world := w, xs_store := s', xs_backfills := f start, xs_notified := xs_notified st + 1\<rparr>, res2)))"
    for a p t app b res1 res2 f
    using register_registered by (fastforce simp: told_def split: prod.split option.split)
  show ?thesis
  proof (cases auth)
    case (Inl e)
    then show ?thesis by (simp add: handle_register_push_def auth)
  next
    case (Inr actor)
    show ?thesis
    proof (cases "decode_limited (dec_struct push_request_fields) empty_push_request r")
      case None
      then show ?thesis by (simp add: handle_register_push_def auth Inr)
    next
      case (Some req)
      show ?thesis
        unfolding handle_register_push_def auth Inr Some prod.case sum.case option.case Let_def st
          if_P [OF assms]
        by (intro told_if eff [unfolded Let_def]) simp_all
    qed
  qed
qed

lemma unregister_push_told: "told st (fst (handle_unregister_push env now r st))"
proof -
  obtain w auth where auth: "verify_auth env lexicon_unregister_push now r (xs_world st) = (w, auth)"
    by fastforce
  have st: "xs_store (st\<lparr>xs_world := w\<rparr>) = xs_store st" by simp
  have "unregister_token a p t i s = (s', res) \<Longrightarrow> registered_dids s' \<subseteq> registered_dids s" for a p t i s s' res
    using unregister_frame(2) [of a p t i s] by simp
  then have eff: "told st (fst (case unregister_token a p t app (xs_store st) of
      (s, Some err) \<Rightarrow> (st\<lparr>xs_world := w, xs_store := s\<rparr>, res1)
    | (s, None) \<Rightarrow> (st\<lparr>xs_world := w, xs_store := s\<rparr>, res2)))" for a p t app res1 res2
    by (fastforce simp: told_def split: prod.split option.split)
  show ?thesis
  proof (cases auth)
    case (Inl e)
    then show ?thesis by (simp add: handle_unregister_push_def auth)
  next
    case (Inr actor)
    show ?thesis
    proof (cases "decode_limited (dec_struct push_request_fields) empty_push_request r")
      case None
      then show ?thesis by (simp add: handle_unregister_push_def auth Inr)
    next
      case (Some req)
      show ?thesis
        unfolding handle_unregister_push_def auth Inr Some prod.case sum.case option.case Let_def st
        by (intro told_if eff) simp_all
    qed
  qed
qed

lemma other_handlers_told:
  "xe_notify env \<Longrightarrow> told st (fst (handle_test_register env r st))"
  "told st (fst (handle_test_push r st))" "told st (fst (handle_health env r st))"
proof -
  show "xe_notify env \<Longrightarrow> told st (fst (handle_test_register env r st))"
    using register_registered
    by (fastforce simp: handle_test_register_def told_def split: prod.split option.split)
  have "get_tokens_for_did a s = (s', res) \<Longrightarrow> registered_dids s' \<subseteq> registered_dids s" for a s s' res
    using get_tokens_shrinks(1) [of a s] by (simp add: shrinks_def)
  then show "told st (fst (handle_test_push r st))"
    by (fastforce simp: handle_test_push_def told_def Let_def split: prod.split sum.split option.split)
  show "told st (fst (handle_health env r st))"
    by (auto simp: handle_health_def get_stats_def count_webpush_endpoints_def db_call_def Let_def told_def)
qed

lemma xrpc_serve_told: "xe_notify env \<Longrightarrow> told st (fst (xrpc_serve env service_did now r st))"
  by (simp add: xrpc_serve_def register_push_told unregister_push_told other_handlers_told
      split: xrpc_route.split)

definition sys_inv :: "('p, 'a, 'b, 'd) system \<Rightarrow> bool" where
  "sys_inv sy \<longleftrightarrow> good_store (sys_store sy) \<and> length (js_queue (po_js (sy_pool sy))) \<le> queue_capacity \<and>
     (registered_dids (sys_store sy) \<noteq> {} \<longrightarrow> sy_started sy)"

lemma request_inv:
  assumes "sys_inv sy" and "xe_notify xe" and "env_store re = sqlite_relay_store sha"
  shows "sys_inv (fst (serve_request xe re cf now_s now_ns r sy))"
proof -
  define js where "js = po_js (sy_pool sy)"
  define c where "c = js_consumer js"
  define sv0 where "sv0 = (sy_server sy)\<lparr>sv_xrpc := (sv_xrpc (sy_server sy))\<lparr>xs_store := co_store c\<rparr>,
    sv_relay := (sv_relay (sy_server sy))\<lparr>rel_world := co_push c\<rparr>\<rparr>"
  define xe' where "xe' = xe\<lparr>xe_stats := Some (get_consumer_stats js)\<rparr>"
  obtain sv1 rejected res where run: "root_handler xe' re cf now_s now_ns r (sv0, sy_rejections sy) =
      ((sv1, rejected), res)" by (metis prod.collapse)
  let ?s0 = "xs_store (sv_xrpc sv0)" and ?s1 = "xs_store (sv_xrpc sv1)"
  have s0: "?s0 = sys_store sy" by (simp add: sv0_def sys_store_def c_def js_def)
  then have good: "good_store ?s0" and R: "registered_dids ?s0 \<noteq> {} \<longrightarrow> sy_started sy"
    using assms(1) by (simp_all add: sys_inv_def)
  have "good_store ?s1 \<and> (registered_dids ?s1 \<subseteq> registered_dids ?s0 \<or>
      xs_notified (sv_xrpc sv0) < xs_notified (sv_xrpc sv1))"
    using run
  proof (cases rule: root_handler_cases)
    case (relay rs)
    let ?rst = "(sv_relay sv0)\<lparr>rel_store := ?s0\<rparr>"
    have "endpoints_wf (rel_store rs) \<and> other_tables (rel_store rs) = other_tables ?s0 \<and>
        db_faults (rel_store rs) = db_faults ?s0"
      using shared.serve_keeps [OF assms(3), of ?rst "other_tables ?s0" "db_faults ?s0" now_ns r] good
      by (simp add: relay(1) good_store_def)
    then show ?thesis
      using good store_inv_cong [of "rel_store rs" ?s0] by (simp add: relay(2) good_store_def healthy_def)
  next
    case xrpc
    have n: "xe_notify xe'" using assms(2) by (simp add: xe'_def)
    show ?thesis
      using good.xrpc_serve [OF good, of xe' "cf_service_did cf" now_s r]
        xrpc_serve_told [OF n, of "sv_xrpc sv0" "cf_service_did cf" now_s r]
      by (simp add: xrpc told_def)
  qed (simp add: good)
  moreover have "fst (serve_request xe re cf now_s now_ns r sy) =
      sy\<lparr>sy_pool := (sy_pool sy)\<lparr>po_js := js\<lparr>js_consumer := c\<lparr>co_store := ?s1,
          co_push := rel_world (sv_relay sv1)\<rparr>\<rparr>\<rparr>, sy_server := sv1, sy_rejections := rejected,
        sy_started := (sy_started sy \<or> xs_notified (sv_xrpc sv0) < xs_notified (sv_xrpc sv1))\<rparr>"
    using run unfolding serve_request_def Let_def js_def [symmetric] c_def [symmetric] sv0_def [symmetric]
      xe'_def [symmetric] by simp
  ultimately show ?thesis
    using R assms(1) by (auto simp: sys_inv_def sys_store_def js_def)
qed

subsection \<open>The other steps\<close>

lemma stream_inv:
  assumes "sys_inv sy" and "sy_started sy" and "pool_step env decompress (sy_pool sy) a p"
  shows "sys_inv (sy\<lparr>sy_pool := p\<rparr>)"
  using assms(3)
proof (cases rule: pool_step.cases)
  case (receive m)
  then show ?thesis
    using assms(1,2) receive_queue(2) [of "po_js (sy_pool sy)" decompress m]
    by (simp add: sys_inv_def sys_store_def receive_consumer)
next
  case (take_item i item items)
  then show ?thesis using assms(1,2) by (simp add: sys_inv_def sys_store_def)
next
  case (finish i actor cm)
  then show ?thesis
    using assms(1,2) good.handle_commit [of "js_consumer (po_js (sy_pool sy))" env actor cm]
    by (simp add: sys_inv_def sys_store_def)
qed

lemma backfill_inv:
  assumes "sys_inv sy"
  shows "sys_inv (backfill_record actor rec sy)"
proof -
  have "good_within (registered_dids (sys_store sy)) (sys_store sy)"
    using assms by (simp add: sys_inv_def good_within_def)
  then have "good_within (registered_dids (sys_store sy)) (fst (seed_records actor [rec] (sys_store sy, 0, [])))"
    by (rule within.seed_records)
  then show ?thesis
    using assms
    by (auto simp: sys_inv_def backfill_record_def Let_def sys_store_def good_within_def
        simp del: seed_records.simps split: prod.split)
qed

lemma prog_run_inv:
  assumes "prog_run env decompress xe re cf s0 sy" and "sys_inv s0" and "xe_notify xe"
    and "env_store re = sqlite_relay_store sha"
  shows "sys_inv sy"
  using assms(1)
proof induction
  case (more s s')
  from more.hyps(2) show ?case
    by cases (simp_all add: request_inv [OF more.IH assms(3,4)] stream_inv [OF more.IH] backfill_inv [OF more.IH])
qed (rule assms(2))

lemma start_inv:
  assumes "boot be env = Inr g" and "d = bo_database be (cf_sqlite_path (gw_config g))"
    and "healthy d" and "tables_wf d" and "endpoints_wf d"
  shows "sys_inv (start_system g push w)"
proof -
  obtain s where s: "open_store d = Inr s" and g: "gw_store g = fst (get_stats s)"
    using assms(1,2) by (auto simp: boot_def split: sum.splits if_splits)
  have "\<exists>s'. open_store d = Inr s' \<and> good_store s'"
    using open_store_ok [OF assms(3)] assms(4,5)
    by (fastforce simp: good_store_def store_inv_def mem_coherent_def in_blocks_pair_in tables_wf_def
        block_pairs_def verif_table_def endpoints_wf_def)
  with s have "good_store s" by simp
  then have "good_store (gw_store g)"
    unfolding g get_stats_def
    by (simp add: good_store_calls db_call_def Let_def)
  moreover have "length ([] :: dispatch_item list) \<le> queue_capacity" by simp
  ultimately show ?thesis
    by (simp add: sys_inv_def start_system_def sys_store_def new_pool_def new_jetstream_def
        has_registered_dids_def Let_def)
qed

subsection \<open>At every moment\<close>

text \<open>
  C1: When the gateway is started on a well-formed database, the driver never fails, and requests,
  messages of the stream, the handling of a queued commit and the records of a backfill take turns as
  wholes, in any order, then between any two turns: no account has more than twenty tokens and no
  row is there twice, the endpoint table is well-formed, the queue holds at most 1024 commits, an account counts
  as registered exactly when it has a token, the consumer has been started as soon as any account
  is registered, and opening the database again at this point answers every registration, block
  and token query in the same way. What happens when the parts of two handlers interleave, or when
  the driver fails, is the subject of \<open>Store_Interleaving\<close> and \<open>Store_Theorems\<close>.\<close>

theorem gateway_invariant:
  assumes "boot be env = Inr g" and "d = bo_database be (cf_sqlite_path (gw_config g))"
    and "healthy d" and "tables_wf d" and "endpoints_wf d"
    and "env_store re = sqlite_relay_store sha"
    and "xe = wire_xrpc (gw_config g) get draw secp hash ver ver_asn1"
    and "prog_run cenv decompress xe re (gw_config g) (start_system g push w) sy"
  shows "(\<forall>did. length (filter (\<lambda>t. pt_actor t = did) (push_tokens (sys_store sy))) \<le> 20) \<and>
    distinct (map token_key (push_tokens (sys_store sy))) \<and> endpoints_wf (sys_store sy) \<and>
    length (js_queue (po_js (sy_pool sy))) \<le> 1024 \<and>
    (\<forall>did. is_registered did (sys_store sy) \<longleftrightarrow> did \<in> pt_actor ` set (push_tokens (sys_store sy))) \<and>
    (sy_started sy \<or> (\<forall>did. \<not> is_registered did (sys_store sy))) \<and>
    (\<exists>s'. open_store (db.truncate (sys_store sy)) = Inr s' \<and>
       (\<forall>did. is_registered did s' = is_registered did (sys_store sy)) \<and>
       (\<forall>a b. is_blocked a b s' = is_blocked a b (sys_store sy)) \<and>
       (\<forall>did. snd (get_tokens_for_did did s') = snd (get_tokens_for_did did (sys_store sy))))"
proof -
  have "xe_notify xe" by (simp add: assms(7) wire_xrpc_def set_did_resolver_def new_xrpc_env_def)
  then have inv: "sys_inv sy"
    using prog_run_inv [OF assms(8) start_inv [OF assms(1-5)] _ assms(6)] by blast
  then have store: "healthy (sys_store sy)" "store_inv (sys_store sy)"
    by (simp_all add: sys_inv_def good_store_def)
  then show ?thesis
    using inv restart_same [OF store(2,1)]
    by (auto simp: sys_inv_def good_store_def store_inv_def tables_wf_def mem_coherent_def
        max_tokens_per_did_def queue_capacity_def is_registered_def)
qed

definition demo_start :: "(notification list, profile cache \<times> nat, post_entry cache \<times> nat, did_document cache \<times> nat) system" where
  "demo_start = (case boot demo_boot_env demo_environ of Inr g \<Rightarrow> start_system g [] 0)"

lemma demo_boot_store: "boot demo_boot_env demo_environ = Inr g \<Longrightarrow> gw_store g = fst (get_stats fresh_store)"
  by (auto simp: boot_def demo_boot_env_def open_fresh split: sum.splits if_splits)

theorem gateway_invariant_witness:
  "\<exists>g. boot demo_boot_env demo_environ = Inr g \<and>
     (let sy = fst (serve_request (wire_xrpc (gw_config g) (\<lambda>_ w. (w + 1, Inl ''EOF'')) (\<lambda>w. (id, 0, 0))
         (\<lambda>_. Inl ''bad'') rev (\<lambda>_ _ _ _. True) (\<lambda>_ _ _. True)) demo_shared_env (gw_config g) 50 0
         (demo_post demo_register_json) demo_start) in
      sy_started sy \<or> (\<forall>did. \<not> is_registered did (sys_store sy)))"
proof -
  obtain g where g: "boot demo_boot_env demo_environ = Inr g" using demo_boots by blast
  have d: "healthy fresh_db" "tables_wf fresh_db" "endpoints_wf fresh_db"
    by (simp_all add: healthy_def fresh_db_def tables_wf_def endpoints_wf_def)
  have db: "fresh_db = bo_database demo_boot_env (cf_sqlite_path (gw_config g))" by (simp add: demo_boot_env_def)
  have re: "env_store demo_shared_env = sqlite_relay_store demo_sha"
    by (simp add: demo_shared_env_def new_relay_env_def)
  let ?xe = "wire_xrpc (gw_config g) (\<lambda>_ w. (w + 1, Inl ''EOF'')) (\<lambda>w :: nat. (id, 0, 0))
    (\<lambda>_. Inl ''bad'') rev (\<lambda>_ _ _ _. True) (\<lambda>_ _ _. True)"
  have start: "demo_start = start_system g [] 0" by (simp add: demo_start_def g)
  let ?env = "new_consumer_env (recording_sender (\<lambda>_. None)) None ::
    (notification list, profile cache \<times> nat, post_entry cache \<times> nat) consumer_env"
  have "prog_run ?env Some ?xe demo_shared_env (gw_config g) demo_start
      (fst (serve_request ?xe demo_shared_env (gw_config g) 50 0 (demo_post demo_register_json) demo_start))"
    by (rule prog_run.more [OF prog_run.start prog_step.request])
  from gateway_invariant [OF g db d re refl this [unfolded start]] show ?thesis
    using g by (auto simp: start Let_def)
qed

text \<open>
  C8: A registration survives the process: when the gateway is started again on the database it
  left, at any moment of its life, the consumer starts without waiting for a registration, and the
  next follow of an account that has a token, by anyone not blocked with it, is sent to that token.\<close>

theorem notified_after_restart:
  assumes "sys_inv sy" and "t \<in> set (push_tokens (sys_store sy))"
    and "boot be env = Inr g"
    and "bo_database be (cf_sqlite_path (gw_config g)) = db.truncate (sys_store sy)"
    and "ce_sender cenv = recording_sender answer" and "pt_actor t \<noteq> []" and "pt_actor t \<noteq> actor"
    and "\<not> is_blocked actor (pt_actor t) (sys_store sy)"
    and "sy' = start_system g push w"
  shows "sy_started sy' \<and>
    (\<exists>ns n. co_push (handle_commit cenv actor (follow_commit rkey (pt_actor t))
         (js_consumer (po_js (sy_pool sy')))) = push @ ns \<and>
       n \<in> set ns \<and> n_token n = pt_token t \<and> n_platform n = pt_platform t)"
proof -
  let ?c = "js_consumer (po_js (sy_pool sy'))"
  have s: "healthy (sys_store sy)" "store_inv (sys_store sy)"
    using assms(1) by (simp_all add: sys_inv_def good_store_def)
  obtain s' where s': "open_store (db.truncate (sys_store sy)) = Inr s'" "healthy s'" "store_inv s'"
      "push_tokens s' = push_tokens (sys_store sy)"
    using restart_abs [OF s(2,1)] by blast
  have blk: "\<not> is_blocked actor (pt_actor t) s'"
    using restart_same [OF s(2,1)] s'(1) assms(8) by auto
  have g: "gw_store g = fst (get_stats s')" using assms(3,4) s'(1)
    by (auto simp: boot_def split: sum.splits if_splits)
  then have store: "gw_store g = s'\<lparr>db_calls := Suc (Suc (db_calls s'))\<rparr>"
    by (simp add: get_stats_def s'(2) Let_def)
  have c: "co_store ?c = gw_store g" "co_push ?c = push"
    by (simp_all add: assms(9) start_system_def Let_def new_pool_def new_jetstream_def)
  have reg: "is_registered (pt_actor t) (co_store ?c)"
    using s'(3,4) assms(2) by (auto simp: c store is_registered_def store_inv_def mem_coherent_def)
  have "registered_dids (gw_store g) \<noteq> {}" using reg by (auto simp: c(1) is_registered_def)
  then have "sy_started sy'" by (simp add: assms(9) start_system_def has_registered_dids_def Let_def)
  moreover have "healthy (co_store ?c)" "\<not> is_blocked actor (pt_actor t) (co_store ?c)"
    using s'(2) blk is_blocked_cong [of "gw_store g" s'] by (simp_all add: c store)
  then obtain title body data where
    "co_push (handle_commit cenv actor (follow_commit rkey (pt_actor t)) ?c) = push @
         map (\<lambda>t. \<lparr>n_token = pt_token t, n_platform = pt_platform t, n_title = title, n_body = body,
                 n_data = data\<rparr>) (filter (\<lambda>r. pt_actor r = pt_actor t) (push_tokens (co_store ?c)))"
    unfolding handle_follow_commit [OF assms(6,7)] c(2) [symmetric]
    using send_reaches [OF assms(5) _ reg, of actor "''follow''"
        "record_uri actor ''app.bsky.graph.follow'' rkey" "[]" "[]"] by blast
  moreover have "t \<in> set (filter (\<lambda>r. pt_actor r = pt_actor t) (push_tokens (co_store ?c)))"
    using assms(2) s'(4) by (simp add: c store)
  ultimately show ?thesis by fastforce
qed

text \<open>A running gateway with one token, and its database.\<close>

definition demo_token_store :: store where
  "demo_token_store = store_step (RegisterToken ''d'' ''ios'' ''t1'' ''x'') fresh_store"

definition demo_running :: "(notification list, unit, unit, unit) system" where
  "demo_running = \<lparr>sy_pool = new_pool (new_jetstream (demo_consumer\<lparr>co_store := demo_token_store\<rparr>)),
     sy_server = \<lparr>sv_xrpc = \<lparr>xs_store = demo_token_store, xs_world = (), xs_notified = 1, xs_backfills = []\<rparr>,
                  sv_relay = new_relay_state demo_token_store []\<rparr>,
     sy_rejections = [], sy_started = True, sy_max_decompressed = 1\<rparr>"

lemma demo_running_store: "sys_store demo_running = demo_token_store"
  by (simp add: sys_store_def demo_running_def new_pool_def new_jetstream_def)

lemma demo_running_inv: "sys_inv demo_running"
proof -
  have "good_store fresh_store"
    using fresh_store_inv
    by (simp add: good_store_def endpoints_wf_def) (simp add: fresh_store_def fresh_db_def)
  then have "good_store demo_token_store" unfolding demo_token_store_def by (rule good_store_step)
  then show ?thesis
    unfolding sys_inv_def demo_running_store by (simp add: demo_running_def new_pool_def new_jetstream_def)
qed

lemma demo_token_in: "\<lparr>pt_actor = ''d'', pt_platform = ''ios'', pt_token = ''t1'', pt_app = ''x''\<rparr> \<in> set (push_tokens demo_token_store)"
  by (simp add: demo_token_store_def register_token_def fresh_store_inv(2) Let_def other_tokens_def
      max_tokens_per_did_def token_platforms_def fresh_store_tokens upsert_token_def)

definition demo_reboot_env :: boot_env where
  "demo_reboot_env = demo_boot_env\<lparr>bo_database := (\<lambda>_. db.truncate (sys_store demo_running))\<rparr>"

lemma demo_reboots: "\<exists>g. boot demo_reboot_env demo_environ = Inr g"
proof -
  obtain s' where s': "open_store (db.truncate (sys_store demo_running)) = Inr s'"
    using restart_same [of "sys_store demo_running"] demo_running_inv by (auto simp: sys_inv_def good_store_def)
  then show ?thesis
  by (simp add: boot_def read_config_def get_env_int64_def get_env_def env_true_def demo_environ_def
      setup_apns_def setup_fcm_def has_prefix_def demo_boot_env_def demo_reboot_env_def)
qed

theorem notified_after_restart_witness:
  "\<exists>g. boot demo_reboot_env demo_environ = Inr g \<and>
     sy_started (start_system g ([] :: notification list) (0 :: nat))"
proof -
  obtain g where g: "boot demo_reboot_env demo_environ = Inr g" using demo_reboots by blast
  have "blocks demo_token_store = blocks fresh_store"
    using register_token_effect [of "''d''" "''ios''" "''t1''" "''x''" fresh_store]
    by (auto simp: demo_token_store_def)
  then have blk: "\<not> is_blocked ''e'' ''d'' (sys_store demo_running)"
    by (simp add: demo_running_store is_blocked_def in_blocks_def fresh_store_def)
  let ?env = "new_consumer_env (recording_sender (\<lambda>_. None)) None ::
    (notification list, profile cache \<times> nat, post_entry cache \<times> nat) consumer_env"
  have env: "ce_sender ?env = recording_sender (\<lambda>_. None)" by (simp add: new_consumer_env_def)
  have db: "bo_database demo_reboot_env (cf_sqlite_path (gw_config g)) = db.truncate (sys_store demo_running)"
    by (simp add: demo_reboot_env_def)
  show ?thesis
    using notified_after_restart [OF demo_running_inv demo_token_in [folded demo_running_store] g db env _ _ _ refl,
        of "''e''" "[]" "0 :: nat"] blk g by auto
qed

end
