(* ===== verification/Spec2Isabelle.thy ===== *)
theory Spec2Isabelle
  imports Store_Theorems Store_Interleaving Push_Theorems Ip_Guard Signing_Keys Gateway_System
begin

text \<open>
  A verification of the push notification gateway for the AT Protocol (Go, \<open>src/\<close>).

  \<^bold>\<open>The program.\<close> Clients register device tokens over HTTP with a service token signed by their
  account (\<open>internal/xrpc\<close>, keys from \<open>internal/did\<close>). A consumer reads the Jetstream event stream
  (\<open>internal/jetstream\<close>), decides which registered account each like, repost, post, follow, block or
  verification concerns, and hands notifications to Expo, APNs or FCM (\<open>internal/push\<close>), with names
  and post texts from two caching resolvers (\<open>internal/profile\<close>, \<open>internal/posttext\<close>). A relay turns
  web push messages of fediverse servers into device pushes (\<open>internal/relay\<close>, \<open>internal/vapid\<close>).
  Tokens, blocks, verifications and endpoints are rows of one SQLite database with indexes in memory
  (\<open>internal/store\<close>). \<open>cmd/server/main.go\<close> wires all of it behind an origin check
  (\<open>internal/originverify\<close>).

  \<^bold>\<open>Foundations.\<close> \<open>Gateway_Prelude\<close>: lemma collections and generic facts. \<open>Go_Strings\<close>, \<open>Go_Utf8\<close>,
  \<open>Go_Base64\<close>, \<open>Go_Json\<close>, \<open>Go_Json_Roundtrip\<close>, \<open>Http_Types\<close>, \<open>Net_Addr\<close>: what the source uses of Go's
  standard library (byte strings, UTF-8, base64 in its four variants, JSON decoding into structs with
  Go's case folding, null and duplicate rules and its encoder, requests and responses, IP addresses),
  with the round trips between printing and parsing. Strings are byte lists.

  \<^bold>\<open>Store.\<close> \<open>Store\<close>: the tables, the indexes and every operation of \<open>store.go\<close>, over a driver that
  may fail at any call (\<open>db_faults\<close>). \<open>Store_Contract\<close>: the effect of each operation, the invariant
  \<open>store_inv\<close> (caps, keys, indexes that agree with the tables). \<open>Store_Refinement\<close>: the abstract store
  and the simulation, and the restart. \<open>Store_Theorems\<close>: refinement, caps, restart, block life cycle,
  the behaviour under faults. \<open>Store_Interleaving\<close>: concurrent \<open>RegisterToken\<close> and \<open>UnregisterToken\<close> as
  small steps (transaction, index update, unlocked count). \<open>Web_Push_Store\<close>: \<open>webpush.go\<close> and the
  locale \<open>relay_store_laws\<close> of \<open>Relay_Store\<close>, interpreted here and, with the other tables fixed, in
  \<open>Shared_Store\<close>.

  \<^bold>\<open>Relay.\<close> \<open>Ec_Keys\<close>, \<open>Vapid\<close>: points of P-256, header parsing, verification and diagnostics.
  \<open>Rate_Limiter\<close>: the windows of \<open>allow\<close>. \<open>Relay\<close>: the handlers over any store that keeps the laws;
  \<open>Relay_Theorems\<close>: what a push can and cannot do to a subscription, delivery, the round trip of a
  registration, the bound on a flood.

  \<^bold>\<open>Push.\<close> \<open>Push_Types\<close>, \<open>Push_Senders\<close>: notification, the three senders, the token cache of APNs, the
  router. \<open>Push_Theorems\<close>: what their verdicts mean, freshness of the APNs token.

  \<^bold>\<open>Resolvers.\<close> \<open>Ttl_Cache\<close>: the bounded cache with eviction of the oldest quarter and the locale
  \<open>caching_resolver\<close>; \<open>Resolvers\<close> (profiles, post texts) and \<open>Did_Resolver\<close> interpret it. \<open>Ip_Guard\<close>: the
  guarded dialer, and its address test as membership in a list of networks. \<open>Signing_Keys\<close>: JWK,
  multibase, base58.

  \<^bold>\<open>Stream.\<close> \<open>Jetstream_Types\<close>: events and records. \<open>Post_Text\<close>: cleaning and cutting of post texts.
  \<open>Jetstream\<close>: the handlers of a commit; \<open>Jetstream_Theorems\<close>: who is notified, what becomes of dead
  tokens. \<open>Jetstream_Loop\<close>: reader, queue, reconnect loop of \<open>Run\<close>; \<open>Jetstream_Workers\<close>: reader and
  eight workers as the step relation \<open>pool_step\<close>, and the start signal under concurrent callers.

  \<^bold>\<open>HTTP.\<close> \<open>Blocks_Backfill\<close>: the pages of block records. \<open>Xrpc\<close>, \<open>Xrpc_Theorems\<close>: token check,
  handlers, routes. \<open>Origin_Verify\<close>: the middleware. \<open>Server\<close>: configuration, start, mux.

  \<^bold>\<open>The whole.\<close> \<open>Gateway_Theorems\<close>: from a registration to the notification. \<open>Store_Users\<close>: the locales
  \<open>consumer_ops\<close> and \<open>gateway_ops\<close>, by which every handler keeps what the store's operations keep.
  \<open>Gateway_System\<close>: the wiring of \<open>main\<close>, the running program as the step relation \<open>prog_step\<close>, in
  which whole handlers take turns, its invariant, and the restart.

  \<^bold>\<open>Bounds and fuel.\<close> JSON values are parsed with the decoder's nesting limit (10000) and fuel the
  length of the input, which every step of the parser shortens. The pages of a backfill are counted
  down from 20, the source's bound. The clearing of a cache runs a quarter of its length. \<open>read_loop\<close>
  is a partial function over what every turn of a connection meets, with the value \<open>None\<close> for a
  connection that never ends; \<open>run_consumer\<close> runs any number of rounds of \<open>Run\<close>, and its return is a
  theorem about an endless sequence of rounds (\<open>stop_ends_run\<close>), from the hypothesis that reads
  return, which the deadlines of the websocket provide once the pings have stopped. Clock readings and the order
  in which Go visits a map are arguments. Counters are natural numbers (64 bits in the code).

  \<^bold>\<open>Arguments of the model.\<close> Third-party and cryptographic code: the SQLite driver's failures, SHA-256,
  ECDSA, the JWT library, point decompression of both curves, PEM and PKCS8 parsing, the OAuth token
  source, the random source, the HTTP transport, name lookup, the websocket and the zstd decoder.
  What the code relies on of them is a hypothesis of the theorem that needs it.

  \<^bold>\<open>Not modelled.\<close> Timestamp columns, which nothing reads. Log lines of the XRPC handlers, the
  resolvers and the consumer (those of the relay, the senders and the middleware are). The page a
  redirect carries, percent escapes in request paths, and the closing of a connection after an
  oversized body. The options of the websocket and of the zstd decoder, pings, server timeouts,
  signals and shutdown: calls into libraries whose results the program does not use. In
  \<open>Gateway_System\<close> a handler is one step; interleavings inside handlers are the subject of
  \<open>Store_Interleaving\<close> and \<open>Jetstream_Workers\<close>.
\<close>

end
